theory Spec2Isabelle
  imports Main "HOL-Library.Word"
begin

unbundle bit_operations_syntax

section \<open>The OpenULINK host driver (src/jtag/drivers/ulink.c)\<close>

text \<open>
  A shallow embedding of the command pipeline of the ULINK driver: the command queue
  (\<open>ulink_get_queue_size\<close>, \<open>ulink_clear_queue\<close>, \<open>ulink_append_queue\<close>), the USB
  exchange (\<open>ulink_execute_queued_commands\<close>), the command constructors
  (\<open>ulink_append_*_cmd\<close>), the request translators (\<open>ulink_queue_*\<close>), the
  post-processor and the driver entry points \<open>ulink_execute_queue\<close> and
  \<open>ulink_speed_div\<close>.

  The C code mutates one global driver instance, the TAP follower of the JTAG layer and
  heap buffers, and talks to libusb.  Here every function takes the state and returns
  the new one; what lies outside ulink.c (libusb, the allocator, the JTAG helper
  functions, the constants of msgtypes.h) is a parameter of the model, collected in the
  record \<open>externals\<close>, so every theorem holds for all behaviours of those parts.
\<close>

subsection \<open>Machine integers and result codes\<close>

type_synonym uint8_t = "8 word"
type_synonym uint16_t = "16 word"
type_synonym uint32_t = "32 word"

text \<open>
  Modelled from the spec: the result codes of helper/log.h, which is not among the
  sources.  Only \<open>ERROR_OK \<noteq> ERROR_FAIL\<close> matters.
\<close>

definition ERROR_OK :: int where
  "ERROR_OK = 0"

definition ERROR_FAIL :: int where
  "ERROR_FAIL = - 4"

text \<open>C's integer division and remainder truncate towards zero.\<close>

definition c_div :: "int \<Rightarrow> int \<Rightarrow> int" where
  "c_div a b = sgn a * sgn b * (\<bar>a\<bar> div \<bar>b\<bar>)"

definition c_mod :: "int \<Rightarrow> int \<Rightarrow> int" where
  "c_mod a b = a - b * c_div a b"

text \<open>
  Modelled from the spec: the macro \<open>DIV_ROUND_UP(m, n)\<close> of helper/types.h (not among
  the sources), \<open>((m) + (n) - 1) / (n)\<close>; the spec reads it as \<open>ceil(N/8)\<close>.  It is used
  at type \<open>int\<close> in \<open>ulink_append_scan_cmd\<close> and at type \<open>uint32_t\<close> in
  \<open>ulink_queue_scan\<close>.
\<close>

definition DIV_ROUND_UP_int :: "int \<Rightarrow> int \<Rightarrow> int" where
  "DIV_ROUND_UP_int m n = c_div (m + n - 1) n"

definition DIV_ROUND_UP_u32 :: "uint32_t \<Rightarrow> uint32_t \<Rightarrow> uint32_t" where
  "DIV_ROUND_UP_u32 m n = (m + n - 1) div n"

subsection \<open>Data model\<close>

text \<open>
  Modelled from the spec: the sixteen states of the JTAG TAP state graph
  (\<open>tap_state_t\<close> of jtag/jtag.h, not among the sources).
\<close>

datatype tap_state =
    TAP_DREXIT2 | TAP_DREXIT1 | TAP_DRSHIFT | TAP_DRPAUSE
  | TAP_IRSELECT | TAP_DRUPDATE | TAP_DRCAPTURE | TAP_DRSELECT
  | TAP_IREXIT2 | TAP_IREXIT1 | TAP_IRSHIFT | TAP_IRPAUSE
  | TAP_IDLE | TAP_IRUPDATE | TAP_IRCAPTURE | TAP_RESET

text \<open>
  \<open>enum scan_type\<close>; \<open>SCAN_OTHER\<close> stands for every value that the \<open>default:\<close>
  branches of the driver catch.
\<close>

datatype scan_type = SCAN_IN | SCAN_OUT | SCAN_IO | SCAN_OTHER

datatype ulink_payload_direction = PAYLOAD_DIRECTION_OUT | PAYLOAD_DIRECTION_IN

text \<open>
  The command identifiers of OpenULINK/include/msgtypes.h, by name; their byte values
  are a parameter (\<open>cmd_id_byte\<close> below).
\<close>

datatype ulink_cmd_id =
    CMD_SCAN_IN | CMD_SLOW_SCAN_IN | CMD_SCAN_OUT | CMD_SLOW_SCAN_OUT
  | CMD_SCAN_IO | CMD_SLOW_SCAN_IO | CMD_CLOCK_TMS | CMD_SLOW_CLOCK_TMS
  | CMD_CLOCK_TCK | CMD_SLEEP_US | CMD_SLEEP_MS | CMD_GET_SIGNALS
  | CMD_SET_SIGNALS | CMD_CONFIGURE_TCK_FREQ | CMD_SET_LEDS | CMD_TEST

text \<open>
  A scan request as the driver sees it through the helpers of jtag/commands.c:
  \<open>scan_size\<close> is \<open>jtag_scan_size\<close>, \<open>scan_kind\<close> is \<open>jtag_scan_type\<close>, \<open>tdi_bytes\<close> is
  the buffer that \<open>jtag_build_buffer\<close> returns.
\<close>

record scan_command =
  ir_scan :: bool
  scan_size :: int
  scan_kind :: scan_type
  tdi_bytes :: "uint8_t list"
  end_state :: tap_state

text \<open>
  \<open>struct jtag_command\<close>, by its \<open>type\<close> tag.  \<open>JTAG_RUNTEST num_cycles end_state\<close>,
  \<open>JTAG_RESET trst srst\<close>, \<open>JTAG_SLEEP us\<close>; \<open>JTAG_OTHER\<close> is any tag that the
  \<open>default:\<close> branches catch.
\<close>

datatype jtag_command =
    JTAG_SCAN scan_command
  | JTAG_TLR_RESET
  | JTAG_RUNTEST int tap_state
  | JTAG_RESET int int
  | JTAG_PATHMOVE
  | JTAG_SLEEP uint32_t
  | JTAG_OTHER

text \<open>
  \<open>struct ulink_cmd\<close>.  A pointer into the heap is a block and an offset, \<open>None\<close> is
  \<open>NULL\<close>.  The OUT payload is owned by its command alone, so it is held by value.  The
  \<open>next\<close> pointer is the list structure of the queue.
\<close>

type_synonym pointer = "(nat \<times> nat) option"

record ulink_cmd =
  cmd_id :: ulink_cmd_id
  payload_out :: "uint8_t list option"
  payload_out_size :: uint8_t
  payload_in_start :: pointer
  payload_in :: pointer
  payload_in_size :: uint8_t
  needs_postprocessing :: bool
  free_payload_in_start :: bool
  cmd_origin :: "jtag_command option"

text \<open>
  What the driver calls outside ulink.c.  \<open>'w\<close> is the state of the outside world (the
  adapter, the USB stack, the allocator, the caller's result fields).
  \<^item> \<open>usb_bulk_write ep bytes size timeout\<close> returns libusb's result;
  \<^item> \<open>usb_bulk_read ep size timeout\<close> returns libusb's result and the bytes it stored
    at the start of the buffer;
  \<^item> \<open>calloc n\<close> tells whether the allocation of \<open>n\<close> bytes succeeds;
  \<^item> \<open>jtag_read_buffer buffer scan\<close> hands the captured bits to the request;
  \<^item> \<open>tap_is_state_stable\<close>, \<open>tap_get_tms_path\<close>, \<open>tap_get_tms_path_len\<close> are the
    queries of jtag/interface.c;
  \<^item> \<open>cmd_id_byte\<close>, \<open>SIGNAL_TRST\<close>, \<open>SIGNAL_RESET\<close> are the constants of msgtypes.h,
    \<open>sizeof_ulink_cmd_t\<close> is the size the compiler gives \<open>struct ulink_cmd\<close>.
\<close>

record 'w externals =
  usb_bulk_write :: "int \<Rightarrow> uint8_t list \<Rightarrow> int \<Rightarrow> int \<Rightarrow> 'w \<Rightarrow> int \<times> 'w"
  usb_bulk_read :: "int \<Rightarrow> int \<Rightarrow> int \<Rightarrow> 'w \<Rightarrow> (int \<times> uint8_t list) \<times> 'w"
  calloc :: "int \<Rightarrow> 'w \<Rightarrow> bool \<times> 'w"
  jtag_read_buffer :: "uint8_t list option \<Rightarrow> scan_command \<Rightarrow> 'w \<Rightarrow> int \<times> 'w"
  tap_is_state_stable :: "tap_state \<Rightarrow> bool"
  tap_get_tms_path :: "tap_state \<Rightarrow> tap_state \<Rightarrow> int"
  tap_get_tms_path_len :: "tap_state \<Rightarrow> tap_state \<Rightarrow> int"
  cmd_id_byte :: "ulink_cmd_id \<Rightarrow> uint8_t"
  sizeof_ulink_cmd_t :: int
  SIGNAL_TRST :: uint8_t
  SIGNAL_RESET :: uint8_t

text \<open>
  The state the driver works on: \<open>struct ulink\<close> (\<open>commands_in_queue\<close> and the linked
  list \<open>queue_start .. queue_end\<close> as \<open>queue\<close>), the TAP follower of jtag/interface.c
  (\<open>tap_get_state\<close>, \<open>tap_get_end_state\<close>), the heap blocks that hold IN payloads, and
  the outside world.
\<close>

record 'w driver =
  commands_in_queue :: int
  queue :: "ulink_cmd list"
  tap_state_cur :: tap_state
  tap_state_end :: tap_state
  heap :: "nat \<Rightarrow> uint8_t list option"
  heap_next :: nat
  world :: 'w

text \<open>A function that may call \<open>exit(EXIT_FAILURE)\<close> either ends the process or returns.\<close>

datatype 'a outcome = Exit_Failure | Return 'a

definition USB_TIMEOUT :: int where
  "USB_TIMEOUT = 5000"

text \<open>libusb's endpoint direction bits (usb.h).\<close>

definition USB_ENDPOINT_OUT :: int where
  "USB_ENDPOINT_OUT = 0"

definition USB_ENDPOINT_IN :: int where
  "USB_ENDPOINT_IN = 128"

subsection \<open>Allocation\<close>

text \<open>
  \<open>calloc\<close> for memory that the model holds by value (a command, an OUT payload): only
  success or failure is visible.
\<close>

definition calloc_value :: "'w externals \<Rightarrow> int \<Rightarrow> 'w driver \<Rightarrow> bool \<times> 'w driver" where
  "calloc_value env n s =
     (case calloc env n (world s) of (ok, w) \<Rightarrow> (ok, s\<lparr>world := w\<rparr>))"

text \<open>
  \<open>calloc\<close> for an IN buffer: a fresh block of \<open>n\<close> zero bytes, or \<open>NULL\<close>.
\<close>

definition calloc_block :: "'w externals \<Rightarrow> int \<Rightarrow> 'w driver \<Rightarrow> pointer \<times> 'w driver" where
  "calloc_block env n s =
     (case calloc env n (world s) of
        (ok, w) \<Rightarrow>
          if ok
          then (Some (heap_next s, 0),
                s\<lparr>heap := (heap s)(heap_next s \<mapsto> replicate (nat n) 0),
                  heap_next := Suc (heap_next s), world := w\<rparr>)
          else (None, s\<lparr>world := w\<rparr>))"

text \<open>\<open>free(p)\<close>; \<open>free(NULL)\<close> does nothing.\<close>

definition free_block :: "pointer \<Rightarrow> (nat \<Rightarrow> uint8_t list option) \<Rightarrow> (nat \<Rightarrow> uint8_t list option)" where
  "free_block p h = (case p of None \<Rightarrow> h | Some (b, off) \<Rightarrow> h(b := None))"

text \<open>
  \<open>ulink_allocate_payload\<close>.  The duplicate-allocation guards return \<open>ERROR_FAIL\<close>.
\<close>

definition ulink_allocate_payload ::
  "'w externals \<Rightarrow> ulink_cmd \<Rightarrow> int \<Rightarrow> ulink_payload_direction \<Rightarrow> 'w driver
     \<Rightarrow> (int \<times> ulink_cmd) \<times> 'w driver" where
  "ulink_allocate_payload env ulink_cmd sz direction s =
     (case direction of
        PAYLOAD_DIRECTION_OUT \<Rightarrow>
          (case calloc_value env sz s of
             (ok, s1) \<Rightarrow>
               if \<not> ok then ((ERROR_FAIL, ulink_cmd), s1)
               else if payload_out ulink_cmd \<noteq> None then ((ERROR_FAIL, ulink_cmd), s1)
               else ((ERROR_OK,
                      ulink_cmd\<lparr>payload_out := Some (replicate (nat sz) 0),
                                payload_out_size := word_of_int sz\<rparr>), s1))
      | PAYLOAD_DIRECTION_IN \<Rightarrow>
          (case calloc_block env sz s of
             (payload, s1) \<Rightarrow>
               if payload = None then ((ERROR_FAIL, ulink_cmd), s1)
               else if payload_in_start ulink_cmd \<noteq> None then ((ERROR_FAIL, ulink_cmd), s1)
               else ((ERROR_OK,
                      ulink_cmd\<lparr>payload_in_start := payload,
                                payload_in := payload,
                                payload_in_size := word_of_int sz,
                                free_payload_in_start := True\<rparr>), s1)))"

text \<open>A command as \<open>calloc(1, sizeof(ulink_cmd_t))\<close> returns it: all fields zero.\<close>

definition zeroed_cmd :: ulink_cmd where
  "zeroed_cmd =
     \<lparr>cmd_id = CMD_SCAN_IN, payload_out = None, payload_out_size = 0,
      payload_in_start = None, payload_in = None, payload_in_size = 0,
      needs_postprocessing = False, free_payload_in_start = False, cmd_origin = None\<rparr>"

subsection \<open>Command queue\<close>

text \<open>\<open>ulink_get_queue_size\<close>: the loop over the linked list, with \<open>sum\<close> as accumulator.\<close>

fun get_queue_size_loop :: "ulink_cmd list \<Rightarrow> ulink_payload_direction \<Rightarrow> int \<Rightarrow> int" where
  "get_queue_size_loop [] direction sum_acc = sum_acc"
| "get_queue_size_loop (current # rest) direction sum_acc =
     get_queue_size_loop rest direction
       (case direction of
          PAYLOAD_DIRECTION_OUT \<Rightarrow> sum_acc + (uint (payload_out_size current) + 1)
        | PAYLOAD_DIRECTION_IN \<Rightarrow> sum_acc + uint (payload_in_size current))"

definition ulink_get_queue_size :: "'w driver \<Rightarrow> ulink_payload_direction \<Rightarrow> int" where
  "ulink_get_queue_size device direction = get_queue_size_loop (queue device) direction 0"

text \<open>
  \<open>ulink_clear_queue\<close>: the OUT payloads go with their commands; an IN buffer is freed
  only where \<open>free_payload_in_start\<close> is set.
\<close>

fun clear_queue_loop :: "ulink_cmd list \<Rightarrow> (nat \<Rightarrow> uint8_t list option) \<Rightarrow> (nat \<Rightarrow> uint8_t list option)" where
  "clear_queue_loop [] h = h"
| "clear_queue_loop (current # rest) h =
     clear_queue_loop rest
       (if free_payload_in_start current then free_block (payload_in_start current) h else h)"

definition ulink_clear_queue :: "'w driver \<Rightarrow> 'w driver" where
  "ulink_clear_queue device =
     device\<lparr>heap := clear_queue_loop (queue device) (heap device),
            commands_in_queue := 0, queue := []\<rparr>"

text \<open>
  \<open>ulink_execute_queued_commands\<close>, first loop: the packet \<open>[id, payload_out...]\<close> of
  every command in queue order, and the two byte counts.  \<open>buffer\<close> holds the bytes
  written so far, so \<open>index_out\<close> is its length.  The C array has 64 bytes; the model is
  the code's behaviour while \<open>count_out \<le> 64\<close>.  A payload is read up to
  \<open>payload_out_size\<close>.
\<close>

definition out_bytes :: "ulink_cmd \<Rightarrow> uint8_t list" where
  "out_bytes current =
     take (unat (payload_out_size current))
       (case payload_out current of None \<Rightarrow> [] | Some p \<Rightarrow> p)"

fun pack_loop ::
  "'w externals \<Rightarrow> ulink_cmd list \<Rightarrow> uint8_t list \<times> int \<times> int \<Rightarrow> uint8_t list \<times> int \<times> int" where
  "pack_loop env [] acc = acc"
| "pack_loop env (current # rest) (buffer, count_out, count_in) =
     pack_loop env rest
       (buffer @ [cmd_id_byte env (cmd_id current)] @ out_bytes current,
        count_out + 1 + uint (payload_out_size current),
        count_in + uint (payload_in_size current))"

text \<open>
  Storing bytes through a pointer.  Writing through \<open>NULL\<close>, into a freed block or past
  the end of a block is undefined in C; the model leaves the heap as it is.
\<close>

definition store_bytes ::
  "pointer \<Rightarrow> uint8_t list \<Rightarrow> (nat \<Rightarrow> uint8_t list option) \<Rightarrow> (nat \<Rightarrow> uint8_t list option)" where
  "store_bytes p bytes h =
     (case p of
        None \<Rightarrow> h
      | Some (b, off) \<Rightarrow>
          (case h b of
             None \<Rightarrow> h
           | Some block \<Rightarrow>
               if off + length bytes \<le> length block
               then h(b \<mapsto> take off block @ bytes @ drop (off + length bytes) block)
               else h))"

text \<open>The bytes a pointer points at, to the end of its block.\<close>

definition load_bytes :: "pointer \<Rightarrow> (nat \<Rightarrow> uint8_t list option) \<Rightarrow> uint8_t list option" where
  "load_bytes p h =
     (case p of
        None \<Rightarrow> None
      | Some (b, off) \<Rightarrow> (case h b of None \<Rightarrow> None | Some block \<Rightarrow> Some (drop off block)))"

text \<open>
  \<open>ulink_execute_queued_commands\<close>, second loop: every command takes its
  \<open>payload_in_size\<close> bytes from the received buffer, in queue order.
\<close>

fun write_back_loop ::
  "ulink_cmd list \<Rightarrow> uint8_t list \<Rightarrow> nat \<Rightarrow> (nat \<Rightarrow> uint8_t list option)
     \<Rightarrow> (nat \<Rightarrow> uint8_t list option)" where
  "write_back_loop [] buffer index_in h = h"
| "write_back_loop (current # rest) buffer index_in h =
     write_back_loop rest buffer (index_in + unat (payload_in_size current))
       (store_bytes (payload_in current)
          (take (unat (payload_in_size current)) (drop index_in buffer)) h)"

definition ulink_execute_queued_commands ::
  "'w externals \<Rightarrow> int \<Rightarrow> 'w driver \<Rightarrow> int \<times> 'w driver" where
  "ulink_execute_queued_commands env timeout device =
     (case pack_loop env (queue device) ([], 0, 0) of
        (buffer, count_out, count_in) \<Rightarrow>
          (case usb_bulk_write env (2 OR USB_ENDPOINT_OUT) buffer count_out timeout (world device) of
             (ret, w1) \<Rightarrow>
               if ret < 0 then (ERROR_FAIL, device\<lparr>world := w1\<rparr>)
               else if ret \<noteq> count_out then (ERROR_FAIL, device\<lparr>world := w1\<rparr>)
               else if count_in > 0 then
                 (case usb_bulk_read env (2 OR USB_ENDPOINT_IN) 64 timeout w1 of
                    ((ret, received), w2) \<Rightarrow>
                      if ret < 0 then (ERROR_FAIL, device\<lparr>world := w2\<rparr>)
                      else if ret \<noteq> count_in then (ERROR_FAIL, device\<lparr>world := w2\<rparr>)
                      else (ERROR_OK,
                            device\<lparr>heap := write_back_loop (queue device) received 0 (heap device),
                                   world := w2\<rparr>))
               else (ERROR_OK, device\<lparr>world := w1\<rparr>)))"

subsection \<open>Post-processing\<close>

text \<open>
  \<open>ulink_post_process_scan\<close>; \<open>scan\<close> is \<open>cmd_origin->cmd.scan\<close> of the command.
\<close>

definition ulink_post_process_scan ::
  "'w externals \<Rightarrow> ulink_cmd \<Rightarrow> scan_command \<Rightarrow> 'w driver \<Rightarrow> int \<times> 'w driver" where
  "ulink_post_process_scan env ulink_cmd scan s =
     (case scan_kind scan of
        SCAN_OUT \<Rightarrow> (ERROR_OK, s)
      | SCAN_OTHER \<Rightarrow> (ERROR_FAIL, s)
      | _ \<Rightarrow>
          (case jtag_read_buffer env (load_bytes (payload_in_start ulink_cmd) (heap s)) scan (world s) of
             (ret, w) \<Rightarrow> (ret, s\<lparr>world := w\<rparr>)))"

fun post_process_loop ::
  "'w externals \<Rightarrow> ulink_cmd list \<Rightarrow> 'w driver \<Rightarrow> int \<times> 'w driver" where
  "post_process_loop env [] s = (ERROR_OK, s)"
| "post_process_loop env (current # rest) s =
     (case cmd_origin current of
        None \<Rightarrow> post_process_loop env rest s
      | Some openocd_cmd \<Rightarrow>
          if needs_postprocessing current then
            (case (case openocd_cmd of
                     JTAG_SCAN scan \<Rightarrow> ulink_post_process_scan env current scan s
                   | JTAG_OTHER \<Rightarrow> (ERROR_FAIL, s)
                   | _ \<Rightarrow> (ERROR_OK, s)) of
               (ret, s1) \<Rightarrow>
                 if ret \<noteq> ERROR_OK then (ret, s1) else post_process_loop env rest s1)
          else post_process_loop env rest s)"

definition ulink_post_process_queue :: "'w externals \<Rightarrow> 'w driver \<Rightarrow> int \<times> 'w driver" where
  "ulink_post_process_queue env device = post_process_loop env (queue device) device"

subsection \<open>Appending to the queue\<close>

text \<open>The tail of \<open>ulink_append_queue\<close>: the command becomes the last element.\<close>

definition link_cmd :: "ulink_cmd \<Rightarrow> 'w driver \<Rightarrow> 'w driver" where
  "link_cmd ulink_cmd device =
     (if queue device = []
      then device\<lparr>commands_in_queue := 1, queue := [ulink_cmd]\<rparr>
      else device\<lparr>commands_in_queue := commands_in_queue device + 1,
                  queue := queue device @ [ulink_cmd]\<rparr>)"

definition ulink_append_queue ::
  "'w externals \<Rightarrow> ulink_cmd \<Rightarrow> 'w driver \<Rightarrow> int \<times> 'w driver" where
  "ulink_append_queue env ulink_cmd device =
     (let newsize_out = ulink_get_queue_size device PAYLOAD_DIRECTION_OUT + 1
            + uint (payload_out_size ulink_cmd);
          newsize_in = ulink_get_queue_size device PAYLOAD_DIRECTION_IN
            + uint (payload_in_size ulink_cmd)
      in
        if newsize_out > 64 \<or> newsize_in > 64 then
          (case ulink_execute_queued_commands env USB_TIMEOUT device of
             (ret, d1) \<Rightarrow>
               if ret \<noteq> ERROR_OK then (ret, d1)
               else
                 (case ulink_post_process_queue env d1 of
                    (ret, d2) \<Rightarrow>
                      if ret \<noteq> ERROR_OK then (ret, d2)
                      else (ERROR_OK, link_cmd ulink_cmd (ulink_clear_queue d2))))
        else (ERROR_OK, link_cmd ulink_cmd device))"

subsection \<open>Command constructors\<close>

text \<open>\<open>cmd->payload_out[i] = v\<close>.\<close>

definition set_payload_out :: "nat \<Rightarrow> uint8_t \<Rightarrow> ulink_cmd \<Rightarrow> ulink_cmd" where
  "set_payload_out i v cmd =
     cmd\<lparr>payload_out := (case payload_out cmd of None \<Rightarrow> None | Some p \<Rightarrow> Some (p[i := v]))\<rparr>"

text \<open>
  \<open>for (i = 0; i < n; i++) cmd->payload_out[i + 5] = tdi[i]\<close>, where \<open>bytes\<close> are the
  \<open>n\<close> bytes at \<open>tdi\<close>.  Writing past the payload is undefined in C; the model leaves the
  payload as it is.
\<close>

definition copy_payload_out :: "nat \<Rightarrow> uint8_t list \<Rightarrow> ulink_cmd \<Rightarrow> ulink_cmd" where
  "copy_payload_out off bytes cmd =
     cmd\<lparr>payload_out :=
       (case payload_out cmd of
          None \<Rightarrow> None
        | Some p \<Rightarrow>
            if off + length bytes \<le> length p
            then Some (take off p @ bytes @ drop (off + length bytes) p)
            else Some p)\<rparr>"

text \<open>
  \<open>ulink_append_scan_cmd\<close>, from "Build payload_out that is common to all scan types"
  to the flags: the straight-line code that fills the allocated command.  \<open>tdi\<close> is the
  memory at the pointer \<open>tdi\<close> (empty for \<open>NULL\<close>), \<open>tdo_start\<close> and \<open>tdo\<close> are pointers
  into the heap.
\<close>

definition fill_scan_cmd ::
  "scan_type \<Rightarrow> int \<Rightarrow> uint8_t \<Rightarrow> uint8_t list \<Rightarrow> pointer \<Rightarrow> pointer
     \<Rightarrow> uint8_t \<Rightarrow> uint8_t \<Rightarrow> uint8_t \<Rightarrow> uint8_t \<Rightarrow> jtag_command option \<Rightarrow> bool
     \<Rightarrow> ulink_cmd \<Rightarrow> ulink_cmd" where
  "fill_scan_cmd scan_type scan_size_bytes bits_last_byte tdi tdo_start tdo
       tms_count_start tms_sequence_start tms_count_end tms_sequence_end origin postprocess cmd =
     (let cmd1 = set_payload_out 0 (word_of_int (scan_size_bytes AND 255)) cmd;
          cmd2 = set_payload_out 1 (bits_last_byte AND 255) cmd1;
          cmd3 = set_payload_out 2
                   (push_bit 4 (tms_count_start AND 15) OR (tms_count_end AND 15)) cmd2;
          cmd4 = set_payload_out 3 tms_sequence_start cmd3;
          cmd5 = set_payload_out 4 tms_sequence_end cmd4;
          cmd6 = (if scan_type = SCAN_OUT \<or> scan_type = SCAN_IO
                  then copy_payload_out 5 (take (nat scan_size_bytes) tdi) cmd5
                  else cmd5);
          cmd7 = (if scan_type = SCAN_IN \<or> scan_type = SCAN_IO
                  then cmd6\<lparr>payload_in_start := tdo_start, payload_in := tdo,
                            payload_in_size := word_of_int scan_size_bytes\<rparr>
                  else cmd6)
      in cmd7\<lparr>needs_postprocessing := postprocess, cmd_origin := origin,
               free_payload_in_start := postprocess\<rparr>)"

text \<open>\<open>ulink_append_scan_cmd\<close>.\<close>

definition ulink_append_scan_cmd ::
  "'w externals \<Rightarrow> scan_type \<Rightarrow> int \<Rightarrow> uint8_t list \<Rightarrow> pointer \<Rightarrow> pointer
     \<Rightarrow> uint8_t \<Rightarrow> uint8_t \<Rightarrow> uint8_t \<Rightarrow> uint8_t \<Rightarrow> jtag_command option \<Rightarrow> bool
     \<Rightarrow> 'w driver \<Rightarrow> int \<times> 'w driver" where
  "ulink_append_scan_cmd env scan_type scan_size_bits tdi tdo_start tdo
       tms_count_start tms_sequence_start tms_count_end tms_sequence_end origin postprocess device =
     (case calloc_value env (sizeof_ulink_cmd_t env) device of
        (ok, d1) \<Rightarrow>
          if \<not> ok then (ERROR_FAIL, d1)
          else if scan_size_bits > 58 * 8 then (ERROR_FAIL, d1)
          else
            (let scan_size_bytes = DIV_ROUND_UP_int scan_size_bits 8;
                 bits_last_byte0 = (word_of_int (c_mod scan_size_bits 8) :: uint8_t);
                 bits_last_byte = (if bits_last_byte0 = 0 then 8 else bits_last_byte0)
             in
               (case (case scan_type of
                        SCAN_IN \<Rightarrow>
                          ulink_allocate_payload env (zeroed_cmd\<lparr>cmd_id := CMD_SCAN_IN\<rparr>)
                            5 PAYLOAD_DIRECTION_OUT d1
                      | SCAN_OUT \<Rightarrow>
                          ulink_allocate_payload env (zeroed_cmd\<lparr>cmd_id := CMD_SCAN_OUT\<rparr>)
                            (scan_size_bytes + 5) PAYLOAD_DIRECTION_OUT d1
                      | SCAN_IO \<Rightarrow>
                          ulink_allocate_payload env (zeroed_cmd\<lparr>cmd_id := CMD_SCAN_IO\<rparr>)
                            (scan_size_bytes + 5) PAYLOAD_DIRECTION_OUT d1
                      | SCAN_OTHER \<Rightarrow> ((ERROR_FAIL, zeroed_cmd), d1)) of
                  ((ret, cmd), d2) \<Rightarrow>
                    if ret \<noteq> ERROR_OK then (ret, d2)
                    else ulink_append_queue env
                           (fill_scan_cmd scan_type scan_size_bytes bits_last_byte tdi tdo_start tdo
                              tms_count_start tms_sequence_start tms_count_end tms_sequence_end
                              origin postprocess cmd) d2)))"

text \<open>
  The other constructors share one shape: allocate the command, allocate its payload,
  fill the payload, append.
\<close>

definition ulink_append_clock_tms_cmd ::
  "'w externals \<Rightarrow> uint8_t \<Rightarrow> uint8_t \<Rightarrow> 'w driver \<Rightarrow> int \<times> 'w driver" where
  "ulink_append_clock_tms_cmd env count sequence device =
     (case calloc_value env (sizeof_ulink_cmd_t env) device of
        (ok, d1) \<Rightarrow>
          if \<not> ok then (ERROR_FAIL, d1)
          else
            (case ulink_allocate_payload env (zeroed_cmd\<lparr>cmd_id := CMD_CLOCK_TMS\<rparr>)
                    2 PAYLOAD_DIRECTION_OUT d1 of
               ((ret, cmd), d2) \<Rightarrow>
                 if ret \<noteq> ERROR_OK then (ret, d2)
                 else ulink_append_queue env
                        (set_payload_out 1 sequence (set_payload_out 0 count cmd)) d2))"

definition ulink_append_clock_tck_cmd ::
  "'w externals \<Rightarrow> uint16_t \<Rightarrow> 'w driver \<Rightarrow> int \<times> 'w driver" where
  "ulink_append_clock_tck_cmd env count device =
     (case calloc_value env (sizeof_ulink_cmd_t env) device of
        (ok, d1) \<Rightarrow>
          if \<not> ok then (ERROR_FAIL, d1)
          else
            (case ulink_allocate_payload env (zeroed_cmd\<lparr>cmd_id := CMD_CLOCK_TCK\<rparr>)
                    2 PAYLOAD_DIRECTION_OUT d1 of
               ((ret, cmd), d2) \<Rightarrow>
                 if ret \<noteq> ERROR_OK then (ret, d2)
                 else ulink_append_queue env
                        (set_payload_out 1 (ucast (drop_bit 8 count AND 255))
                           (set_payload_out 0 (ucast (count AND 255)) cmd)) d2))"

definition ulink_append_get_signals_cmd :: "'w externals \<Rightarrow> 'w driver \<Rightarrow> int \<times> 'w driver" where
  "ulink_append_get_signals_cmd env device =
     (case calloc_value env (sizeof_ulink_cmd_t env) device of
        (ok, d1) \<Rightarrow>
          if \<not> ok then (ERROR_FAIL, d1)
          else
            (case ulink_allocate_payload env
                    (zeroed_cmd\<lparr>cmd_id := CMD_GET_SIGNALS, needs_postprocessing := True\<rparr>)
                    2 PAYLOAD_DIRECTION_IN d1 of
               ((ret, cmd), d2) \<Rightarrow>
                 if ret \<noteq> ERROR_OK then (ret, d2)
                 else ulink_append_queue env cmd d2))"

definition ulink_append_set_signals_cmd ::
  "'w externals \<Rightarrow> uint8_t \<Rightarrow> uint8_t \<Rightarrow> 'w driver \<Rightarrow> int \<times> 'w driver" where
  "ulink_append_set_signals_cmd env low high device =
     (case calloc_value env (sizeof_ulink_cmd_t env) device of
        (ok, d1) \<Rightarrow>
          if \<not> ok then (ERROR_FAIL, d1)
          else
            (case ulink_allocate_payload env (zeroed_cmd\<lparr>cmd_id := CMD_SET_SIGNALS\<rparr>)
                    2 PAYLOAD_DIRECTION_OUT d1 of
               ((ret, cmd), d2) \<Rightarrow>
                 if ret \<noteq> ERROR_OK then (ret, d2)
                 else ulink_append_queue env
                        (set_payload_out 1 high (set_payload_out 0 low cmd)) d2))"

definition ulink_append_sleep_cmd ::
  "'w externals \<Rightarrow> uint32_t \<Rightarrow> 'w driver \<Rightarrow> int \<times> 'w driver" where
  "ulink_append_sleep_cmd env us device =
     (case calloc_value env (sizeof_ulink_cmd_t env) device of
        (ok, d1) \<Rightarrow>
          if \<not> ok then (ERROR_FAIL, d1)
          else
            (case ulink_allocate_payload env (zeroed_cmd\<lparr>cmd_id := CMD_SLEEP_US\<rparr>)
                    2 PAYLOAD_DIRECTION_OUT d1 of
               ((ret, cmd), d2) \<Rightarrow>
                 if ret \<noteq> ERROR_OK then (ret, d2)
                 else ulink_append_queue env
                        (set_payload_out 1 (ucast (drop_bit 8 us AND 255))
                           (set_payload_out 0 (ucast (us AND 255)) cmd)) d2))"

definition ulink_append_configure_tck_cmd ::
  "'w externals \<Rightarrow> uint8_t \<Rightarrow> uint8_t \<Rightarrow> uint8_t \<Rightarrow> 'w driver \<Rightarrow> int \<times> 'w driver" where
  "ulink_append_configure_tck_cmd env delay_scan delay_tck delay_tms device =
     (case calloc_value env (sizeof_ulink_cmd_t env) device of
        (ok, d1) \<Rightarrow>
          if \<not> ok then (ERROR_FAIL, d1)
          else
            (case ulink_allocate_payload env (zeroed_cmd\<lparr>cmd_id := CMD_CONFIGURE_TCK_FREQ\<rparr>)
                    3 PAYLOAD_DIRECTION_OUT d1 of
               ((ret, cmd), d2) \<Rightarrow>
                 if ret \<noteq> ERROR_OK then (ret, d2)
                 else ulink_append_queue env
                        (set_payload_out 2 delay_tms
                           (set_payload_out 1 delay_tck (set_payload_out 0 delay_scan cmd))) d2))"

definition ulink_append_led_cmd ::
  "'w externals \<Rightarrow> uint8_t \<Rightarrow> 'w driver \<Rightarrow> int \<times> 'w driver" where
  "ulink_append_led_cmd env led_state device =
     (case calloc_value env (sizeof_ulink_cmd_t env) device of
        (ok, d1) \<Rightarrow>
          if \<not> ok then (ERROR_FAIL, d1)
          else
            (case ulink_allocate_payload env (zeroed_cmd\<lparr>cmd_id := CMD_SET_LEDS\<rparr>)
                    1 PAYLOAD_DIRECTION_OUT d1 of
               ((ret, cmd), d2) \<Rightarrow>
                 if ret \<noteq> ERROR_OK then (ret, d2)
                 else ulink_append_queue env (set_payload_out 0 led_state cmd) d2))"

definition ulink_append_test_cmd :: "'w externals \<Rightarrow> 'w driver \<Rightarrow> int \<times> 'w driver" where
  "ulink_append_test_cmd env device =
     (case calloc_value env (sizeof_ulink_cmd_t env) device of
        (ok, d1) \<Rightarrow>
          if \<not> ok then (ERROR_FAIL, d1)
          else
            (case ulink_allocate_payload env (zeroed_cmd\<lparr>cmd_id := CMD_TEST\<rparr>)
                    1 PAYLOAD_DIRECTION_OUT d1 of
               ((ret, cmd), d2) \<Rightarrow>
                 if ret \<noteq> ERROR_OK then (ret, d2)
                 else ulink_append_queue env (set_payload_out 0 170 cmd) d2))"

subsection \<open>Request translators\<close>

text \<open>
  \<open>ulink_set_end_state\<close>: a state that is not stable ends the process with
  \<open>exit(EXIT_FAILURE)\<close>.
\<close>

definition ulink_set_end_state ::
  "'w externals \<Rightarrow> tap_state \<Rightarrow> 'w driver \<Rightarrow> 'w driver outcome" where
  "ulink_set_end_state env endstate s =
     (if tap_is_state_stable env endstate
      then Return (s\<lparr>tap_state_end := endstate\<rparr>)
      else Exit_Failure)"

definition ulink_queue_statemove :: "'w externals \<Rightarrow> 'w driver \<Rightarrow> int \<times> 'w driver" where
  "ulink_queue_statemove env device =
     (if tap_state_cur device = tap_state_end device then (ERROR_OK, device)
      else
        (let tms_sequence =
               (word_of_int (tap_get_tms_path env (tap_state_cur device) (tap_state_end device))
                  :: uint8_t);
             tms_count =
               (word_of_int (tap_get_tms_path_len env (tap_state_cur device) (tap_state_end device))
                  :: uint8_t)
         in
           (case ulink_append_clock_tms_cmd env tms_count tms_sequence device of
              (ret, d1) \<Rightarrow>
                if ret = ERROR_OK then (ret, d1\<lparr>tap_state_cur := tap_state_end d1\<rparr>)
                else (ret, d1))))"

text \<open>
  The local variables of \<open>ulink_queue_scan\<close> that are fixed when its loop starts.
\<close>

record scan_locals =
  scan_ty :: scan_type
  scan_size_bytes :: uint32_t
  bits_last_scan :: uint32_t
  tdi_buffer_start :: "uint8_t list option"
  tdo_buffer_start :: pointer
  first_tms_count :: uint8_t
  first_tms_sequence :: uint8_t
  last_tms_count :: uint8_t
  last_tms_sequence :: uint8_t
  tms_count_pause :: uint8_t
  tms_sequence_pause :: uint8_t
  tms_count_resume :: uint8_t
  tms_sequence_resume :: uint8_t
  origin_cmd :: jtag_command

text \<open>\<open>p += n\<close> on a pointer.\<close>

definition advance :: "nat \<Rightarrow> pointer \<Rightarrow> pointer" where
  "advance n p = (case p of None \<Rightarrow> None | Some (b, off) \<Rightarrow> Some (b, off + n))"

text \<open>
  The loop \<open>while (bytecount > 0)\<close> of \<open>ulink_queue_scan\<close>.  \<open>tdi_buffer\<close> is the memory
  at the pointer \<open>tdi_buffer\<close>.  A failed append leaves the loop with its result.
\<close>

function scan_loop ::
  "'w externals \<Rightarrow> scan_locals \<Rightarrow> uint32_t \<Rightarrow> uint8_t list \<Rightarrow> pointer \<Rightarrow> 'w driver
     \<Rightarrow> int \<times> 'w driver" where
  "scan_loop env L bytecount tdi_buffer tdo_buffer device =
     (if bytecount > 0 then
        (let tms_count_start =
               (if bytecount = scan_size_bytes L then first_tms_count L else tms_count_resume L);
             tms_sequence_start =
               (if bytecount = scan_size_bytes L then first_tms_sequence L
                else tms_sequence_resume L)
         in
           if bytecount > 58 then
             (case ulink_append_scan_cmd env (scan_ty L) (58 * 8) tdi_buffer
                     (tdo_buffer_start L) tdo_buffer tms_count_start tms_sequence_start
                     (tms_count_pause L) (tms_sequence_pause L) (Some (origin_cmd L)) False device of
                (ret, d1) \<Rightarrow>
                  if ret \<noteq> ERROR_OK then (ret, d1)
                  else scan_loop env L (bytecount - 58)
                         (if tdi_buffer_start L \<noteq> None then drop 58 tdi_buffer else tdi_buffer)
                         (if tdo_buffer_start L \<noteq> None then advance 58 tdo_buffer else tdo_buffer)
                         d1)
           else if bytecount = 58 then
             (case ulink_append_scan_cmd env (scan_ty L) (58 * 8) tdi_buffer
                     (tdo_buffer_start L) tdo_buffer tms_count_start tms_sequence_start
                     (last_tms_count L) (last_tms_sequence L) (Some (origin_cmd L)) True device of
                (ret, d1) \<Rightarrow>
                  if ret \<noteq> ERROR_OK then (ret, d1)
                  else scan_loop env L 0 tdi_buffer tdo_buffer d1)
           else
             (case ulink_append_scan_cmd env (scan_ty L) (sint (bits_last_scan L)) tdi_buffer
                     (tdo_buffer_start L) tdo_buffer tms_count_start tms_sequence_start
                     (last_tms_count L) (last_tms_sequence L) (Some (origin_cmd L)) True device of
                (ret, d1) \<Rightarrow>
                  if ret \<noteq> ERROR_OK then (ret, d1)
                  else scan_loop env L 0 tdi_buffer tdo_buffer d1))
      else (ERROR_OK, device))"
  by pat_completeness auto
termination
proof (relation "measure (\<lambda>(env, L, bytecount, tdi_buffer, tdo_buffer, device). unat bytecount)")
  show "wf (measure (\<lambda>(env :: 'w externals, L :: scan_locals, bytecount :: uint32_t,
      tdi_buffer :: uint8_t list, tdo_buffer :: pointer, device :: 'w driver). unat bytecount))"
    by simp
next
  fix bytecount :: uint32_t
  assume "58 < bytecount"
  then have "58 \<le> bytecount"
    by simp
  then have "unat (bytecount - 58) = unat bytecount - 58"
    by (simp add: unat_sub)
  moreover from \<open>58 < bytecount\<close> have "58 < unat bytecount"
    by (simp add: word_less_nat_alt)
  ultimately have "unat (bytecount - 58) < unat bytecount"
    by simp
  then show "\<And>env L tdi_buffer tdo_buffer device x xa xb y.
      ((env :: 'w externals, L :: scan_locals, bytecount - 58,
        if tdi_buffer_start L \<noteq> None then drop 58 tdi_buffer else tdi_buffer,
        if tdo_buffer_start L \<noteq> None then advance 58 tdo_buffer else tdo_buffer, y :: 'w driver),
       env, L, bytecount, tdi_buffer, tdo_buffer, device)
      \<in> measure (\<lambda>(env, L, bytecount, tdi_buffer, tdo_buffer, device). unat bytecount)"
    by simp
qed (auto simp: word_greater_zero_iff unat_gt_0)

text \<open>
  \<open>ulink_queue_scan\<close>, "Get TAP state transitions": the IR branch and the DR branch are
  the same code at \<open>TAP_IRSHIFT\<close>, \<open>TAP_IRPAUSE\<close> and at \<open>TAP_DRSHIFT\<close>, \<open>TAP_DRPAUSE\<close>.
  The result is the follower state and the eight TMS values (each an \<open>int\<close> stored in a
  \<open>uint8_t\<close>).
\<close>

definition scan_transitions ::
  "'w externals \<Rightarrow> tap_state \<Rightarrow> tap_state \<Rightarrow> scan_command \<Rightarrow> scan_locals \<Rightarrow> 'w driver
     \<Rightarrow> (scan_locals \<times> 'w driver) outcome" where
  "scan_transitions env shift pause scan L s =
     (case ulink_set_end_state env shift s of
        Exit_Failure \<Rightarrow> Exit_Failure
      | Return s1 \<Rightarrow>
          (let first_count = word_of_int (tap_get_tms_path_len env (tap_state_cur s1) (tap_state_end s1));
               first_sequence = word_of_int (tap_get_tms_path env (tap_state_cur s1) (tap_state_end s1));
               s2 = s1\<lparr>tap_state_cur := shift\<rparr>;
               s3 = s2\<lparr>tap_state_end := end_state scan\<rparr>;
               last_count = word_of_int (tap_get_tms_path_len env (tap_state_cur s3) (tap_state_end s3));
               last_sequence = word_of_int (tap_get_tms_path env (tap_state_cur s3) (tap_state_end s3))
           in Return
                (L\<lparr>first_tms_count := first_count, first_tms_sequence := first_sequence,
                   last_tms_count := last_count, last_tms_sequence := last_sequence,
                   tms_count_pause := word_of_int (tap_get_tms_path_len env shift pause),
                   tms_sequence_pause := word_of_int (tap_get_tms_path env shift pause),
                   tms_count_resume := word_of_int (tap_get_tms_path_len env pause shift),
                   tms_sequence_resume := word_of_int (tap_get_tms_path env pause shift)\<rparr>,
                 s3)))"

text \<open>
  \<open>ulink_queue_scan\<close>; \<open>scan\<close> is \<open>cmd->cmd.scan\<close> and the command itself is
  \<open>JTAG_SCAN scan\<close>.
\<close>

definition ulink_queue_scan ::
  "'w externals \<Rightarrow> scan_command \<Rightarrow> 'w driver \<Rightarrow> (int \<times> 'w driver) outcome" where
  "ulink_queue_scan env scan device =
     (let scan_size_bits = (word_of_int (scan_size scan) :: uint32_t);
          scan_size_bytes_v = DIV_ROUND_UP_u32 scan_size_bits 8;
          type = scan_kind scan;
          scans_max_payload = scan_size_bytes_v div 58;
          bits_last_scan_v = scan_size_bits - scans_max_payload * 58 * 8
      in
        (case (if type = SCAN_IN \<or> type = SCAN_IO
               then calloc_block env (uint scan_size_bytes_v) device
               else (None, device)) of
           (tdo_start, d1) \<Rightarrow>
             if (type = SCAN_IN \<or> type = SCAN_IO) \<and> tdo_start = None then Return (ERROR_FAIL, d1)
             else
               (let L0 = \<lparr>scan_ty = type, scan_size_bytes = scan_size_bytes_v,
                          bits_last_scan = bits_last_scan_v,
                          tdi_buffer_start =
                            (if type = SCAN_OUT \<or> type = SCAN_IO then Some (tdi_bytes scan) else None),
                          tdo_buffer_start = tdo_start,
                          first_tms_count = 0, first_tms_sequence = 0,
                          last_tms_count = 0, last_tms_sequence = 0,
                          tms_count_pause = 0, tms_sequence_pause = 0,
                          tms_count_resume = 0, tms_sequence_resume = 0,
                          origin_cmd = JTAG_SCAN scan\<rparr>
                in
                  (case (if ir_scan scan
                         then scan_transitions env TAP_IRSHIFT TAP_IRPAUSE scan L0 d1
                         else scan_transitions env TAP_DRSHIFT TAP_DRPAUSE scan L0 d1) of
                     Exit_Failure \<Rightarrow> Exit_Failure
                   | Return (L, d2) \<Rightarrow>
                       (case scan_loop env L (scan_size_bytes L)
                               (case tdi_buffer_start L of None \<Rightarrow> [] | Some b \<Rightarrow> b)
                               (tdo_buffer_start L) d2 of
                          (ret, d3) \<Rightarrow>
                            if ret \<noteq> ERROR_OK then Return (ret, d3)
                            else Return (ERROR_OK, d3\<lparr>tap_state_cur := end_state scan\<rparr>))))))"

definition ulink_queue_tlr_reset :: "'w externals \<Rightarrow> 'w driver \<Rightarrow> int \<times> 'w driver" where
  "ulink_queue_tlr_reset env device =
     (case ulink_append_clock_tms_cmd env 5 255 device of
        (ret, d1) \<Rightarrow>
          if ret = ERROR_OK then (ret, d1\<lparr>tap_state_cur := TAP_RESET\<rparr>) else (ret, d1))"

text \<open>
  \<open>ulink_queue_runtest num_cycles end_state\<close>.  The result of both calls of
  \<open>ulink_queue_statemove\<close> is dropped, as in the source.
\<close>

definition ulink_queue_runtest ::
  "'w externals \<Rightarrow> int \<Rightarrow> tap_state \<Rightarrow> 'w driver \<Rightarrow> (int \<times> 'w driver) outcome" where
  "ulink_queue_runtest env num_cycles endstate device =
     (case (if tap_state_cur device \<noteq> TAP_IDLE
            then (case ulink_set_end_state env TAP_IDLE device of
                    Exit_Failure \<Rightarrow> Exit_Failure
                  | Return d0 \<Rightarrow> Return (snd (ulink_queue_statemove env d0)))
            else Return device) of
        Exit_Failure \<Rightarrow> Exit_Failure
      | Return d1 \<Rightarrow>
          (case ulink_append_clock_tck_cmd env (word_of_int num_cycles) d1 of
             (ret, d2) \<Rightarrow>
               if ret \<noteq> ERROR_OK then Return (ret, d2)
               else if endstate \<noteq> tap_state_cur d2
               then Return (ERROR_OK,
                      snd (ulink_queue_statemove env (d2\<lparr>tap_state_end := endstate\<rparr>)))
               else Return (ERROR_OK, d2)))"

text \<open>\<open>ulink_queue_reset trst srst\<close>.\<close>

definition ulink_queue_reset ::
  "'w externals \<Rightarrow> int \<Rightarrow> int \<Rightarrow> 'w driver \<Rightarrow> int \<times> 'w driver" where
  "ulink_queue_reset env trst srst device =
     (let d1 = (if trst \<noteq> 0 then device\<lparr>tap_state_cur := TAP_RESET\<rparr> else device);
          high1 = (if trst \<noteq> 0 then 0 OR SIGNAL_TRST env else 0);
          low1 = (if trst \<noteq> 0 then 0 else 0 OR SIGNAL_TRST env);
          high2 = (if srst \<noteq> 0 then high1 OR SIGNAL_RESET env else high1);
          low2 = (if srst \<noteq> 0 then low1 else low1 OR SIGNAL_RESET env)
      in ulink_append_set_signals_cmd env low2 high2 d1)"

definition ulink_queue_pathmove :: "'w externals \<Rightarrow> 'w driver \<Rightarrow> int \<times> 'w driver" where
  "ulink_queue_pathmove env device = (ERROR_OK, device)"

definition ulink_queue_sleep :: "'w externals \<Rightarrow> uint32_t \<Rightarrow> 'w driver \<Rightarrow> int \<times> 'w driver" where
  "ulink_queue_sleep env us device = ulink_append_sleep_cmd env us device"

subsection \<open>Driver entry points\<close>

text \<open>The \<open>switch (cmd->type)\<close> of \<open>ulink_execute_queue\<close>.\<close>

definition queue_command ::
  "'w externals \<Rightarrow> jtag_command \<Rightarrow> 'w driver \<Rightarrow> (int \<times> 'w driver) outcome" where
  "queue_command env cmd s =
     (case cmd of
        JTAG_SCAN scan \<Rightarrow> ulink_queue_scan env scan s
      | JTAG_TLR_RESET \<Rightarrow> Return (ulink_queue_tlr_reset env s)
      | JTAG_RUNTEST num_cycles endstate \<Rightarrow> ulink_queue_runtest env num_cycles endstate s
      | JTAG_RESET trst srst \<Rightarrow> Return (ulink_queue_reset env trst srst s)
      | JTAG_PATHMOVE \<Rightarrow> Return (ulink_queue_pathmove env s)
      | JTAG_SLEEP us \<Rightarrow> Return (ulink_queue_sleep env us s)
      | JTAG_OTHER \<Rightarrow> Return (ERROR_FAIL, s))"

text \<open>The loop \<open>while (cmd)\<close> of \<open>ulink_execute_queue\<close>.\<close>

fun execute_queue_loop ::
  "'w externals \<Rightarrow> jtag_command list \<Rightarrow> 'w driver \<Rightarrow> (int \<times> 'w driver) outcome" where
  "execute_queue_loop env [] s = Return (ERROR_OK, s)"
| "execute_queue_loop env (cmd # rest) s =
     (case queue_command env cmd s of
        Exit_Failure \<Rightarrow> Exit_Failure
      | Return (ret, s1) \<Rightarrow>
          if ret \<noteq> ERROR_OK then Return (ret, s1) else execute_queue_loop env rest s1)"

definition ulink_execute_queue ::
  "'w externals \<Rightarrow> jtag_command list \<Rightarrow> 'w driver \<Rightarrow> (int \<times> 'w driver) outcome" where
  "ulink_execute_queue env jtag_command_queue ulink_handle =
     (case execute_queue_loop env jtag_command_queue ulink_handle of
        Exit_Failure \<Rightarrow> Exit_Failure
      | Return (ret, d1) \<Rightarrow>
          if ret \<noteq> ERROR_OK then Return (ret, d1)
          else if commands_in_queue d1 > 0 then
            (case ulink_execute_queued_commands env USB_TIMEOUT d1 of
               (ret, d2) \<Rightarrow>
                 if ret \<noteq> ERROR_OK then Return (ret, d2)
                 else
                   (case ulink_post_process_queue env d2 of
                      (ret, d3) \<Rightarrow>
                        if ret \<noteq> ERROR_OK then Return (ret, d3)
                        else Return (ERROR_OK, ulink_clear_queue d3)))
          else Return (ERROR_OK, d1))"

text \<open>
  \<open>ulink_speed_div speed khz\<close>: the result code and the value of \<open>*khz\<close> afterwards,
  \<open>khz\<close> being its value before.
\<close>

definition ulink_speed_div :: "int \<Rightarrow> int \<Rightarrow> int \<times> int" where
  "ulink_speed_div speed khz =
     (ERROR_OK, if speed = 0 then 150 else if speed = 1 then 100 else khz)"

section \<open>Notions used in the statements\<close>

subsection \<open>The calls of the scan loop\<close>

text \<open>
  The arguments of one call of \<open>ulink_append_scan_cmd\<close> that vary inside the loop of
  \<open>ulink_queue_scan\<close>.
\<close>

record scan_call =
  call_bits :: int
  call_tdi :: "uint8_t list"
  call_tdo :: pointer
  call_tms_count_start :: uint8_t
  call_tms_sequence_start :: uint8_t
  call_tms_count_end :: uint8_t
  call_tms_sequence_end :: uint8_t
  call_postprocess :: bool

text \<open>
  The calls that the loop makes, in order, as long as none of them fails: the recursion of
  \<open>scan_loop\<close> without the driver state.
\<close>

function scan_calls :: "scan_locals \<Rightarrow> uint32_t \<Rightarrow> uint8_t list \<Rightarrow> pointer \<Rightarrow> scan_call list" where
  "scan_calls L bytecount tdi_buffer tdo_buffer =
     (if bytecount > 0 then
        (let tms_count_start =
               (if bytecount = scan_size_bytes L then first_tms_count L else tms_count_resume L);
             tms_sequence_start =
               (if bytecount = scan_size_bytes L then first_tms_sequence L
                else tms_sequence_resume L)
         in
           if bytecount > 58 then
             \<lparr>call_bits = 58 * 8, call_tdi = tdi_buffer, call_tdo = tdo_buffer,
              call_tms_count_start = tms_count_start,
              call_tms_sequence_start = tms_sequence_start,
              call_tms_count_end = tms_count_pause L,
              call_tms_sequence_end = tms_sequence_pause L,
              call_postprocess = False\<rparr>
             # scan_calls L (bytecount - 58)
                 (if tdi_buffer_start L \<noteq> None then drop 58 tdi_buffer else tdi_buffer)
                 (if tdo_buffer_start L \<noteq> None then advance 58 tdo_buffer else tdo_buffer)
           else if bytecount = 58 then
             \<lparr>call_bits = 58 * 8, call_tdi = tdi_buffer, call_tdo = tdo_buffer,
              call_tms_count_start = tms_count_start,
              call_tms_sequence_start = tms_sequence_start,
              call_tms_count_end = last_tms_count L,
              call_tms_sequence_end = last_tms_sequence L,
              call_postprocess = True\<rparr>
             # scan_calls L 0 tdi_buffer tdo_buffer
           else
             \<lparr>call_bits = sint (bits_last_scan L), call_tdi = tdi_buffer, call_tdo = tdo_buffer,
              call_tms_count_start = tms_count_start,
              call_tms_sequence_start = tms_sequence_start,
              call_tms_count_end = last_tms_count L,
              call_tms_sequence_end = last_tms_sequence L,
              call_postprocess = True\<rparr>
             # scan_calls L 0 tdi_buffer tdo_buffer)
      else [])"
  by pat_completeness auto
termination
proof (relation "measure (\<lambda>(L, bytecount, tdi_buffer, tdo_buffer). unat bytecount)")
  show "wf (measure (\<lambda>(L :: scan_locals, bytecount :: uint32_t,
      tdi_buffer :: uint8_t list, tdo_buffer :: pointer). unat bytecount))"
    by simp
next
  fix bytecount :: uint32_t
  assume "58 < bytecount"
  then have "58 \<le> bytecount"
    by simp
  then have "unat (bytecount - 58) = unat bytecount - 58"
    by (simp add: unat_sub)
  moreover from \<open>58 < bytecount\<close> have "58 < unat bytecount"
    by (simp add: word_less_nat_alt)
  ultimately have "unat (bytecount - 58) < unat bytecount"
    by simp
  then show "\<And>L tdi_buffer tdo_buffer.
      ((L :: scan_locals, bytecount - 58,
        if tdi_buffer_start L \<noteq> None then drop 58 tdi_buffer else tdi_buffer,
        if tdo_buffer_start L \<noteq> None then advance 58 tdo_buffer else tdo_buffer),
       L, bytecount, tdi_buffer, tdo_buffer)
      \<in> measure (\<lambda>(L, bytecount, tdi_buffer, tdo_buffer). unat bytecount)"
    by simp
qed (auto simp: word_greater_zero_iff unat_gt_0)

text \<open>One call of \<open>ulink_append_scan_cmd\<close> with the arguments of \<open>c\<close>.\<close>

definition run_scan_call ::
  "'w externals \<Rightarrow> scan_locals \<Rightarrow> scan_call \<Rightarrow> 'w driver \<Rightarrow> int \<times> 'w driver" where
  "run_scan_call env L c device =
     ulink_append_scan_cmd env (scan_ty L) (call_bits c) (call_tdi c) (tdo_buffer_start L)
       (call_tdo c) (call_tms_count_start c) (call_tms_sequence_start c)
       (call_tms_count_end c) (call_tms_sequence_end c) (Some (origin_cmd L))
       (call_postprocess c) device"

text \<open>Making a list of calls in order, up to the first that fails.\<close>

fun run_scan_calls ::
  "'w externals \<Rightarrow> scan_locals \<Rightarrow> scan_call list \<Rightarrow> 'w driver \<Rightarrow> int \<times> 'w driver" where
  "run_scan_calls env L [] device = (ERROR_OK, device)"
| "run_scan_calls env L (c # cs) device =
     (case run_scan_call env L c device of
        (ret, d1) \<Rightarrow> if ret \<noteq> ERROR_OK then (ret, d1) else run_scan_calls env L cs d1)"

text \<open>
  The wire command that a call of \<open>ulink_append_scan_cmd\<close> hands to
  \<open>ulink_append_queue\<close> when its allocations succeed.
\<close>

definition scan_cmd :: "scan_locals \<Rightarrow> scan_call \<Rightarrow> ulink_cmd" where
  "scan_cmd L c =
     (let scan_size_bytes = DIV_ROUND_UP_int (call_bits c) 8;
          bits_last_byte0 = (word_of_int (c_mod (call_bits c) 8) :: uint8_t);
          bits_last_byte = (if bits_last_byte0 = 0 then 8 else bits_last_byte0);
          n = (if scan_ty L = SCAN_IN then 5 else scan_size_bytes + 5)
      in fill_scan_cmd (scan_ty L) scan_size_bytes bits_last_byte (call_tdi c)
           (tdo_buffer_start L) (call_tdo c) (call_tms_count_start c)
           (call_tms_sequence_start c) (call_tms_count_end c) (call_tms_sequence_end c)
           (Some (origin_cmd L)) (call_postprocess c)
           (zeroed_cmd\<lparr>cmd_id := (case scan_ty L of SCAN_IN \<Rightarrow> CMD_SCAN_IN
                                    | SCAN_OUT \<Rightarrow> CMD_SCAN_OUT | _ \<Rightarrow> CMD_SCAN_IO),
                       payload_out := Some (replicate (nat n) 0),
                       payload_out_size := word_of_int n\<rparr>))"

text \<open>
  The local variables of \<open>ulink_queue_scan\<close> and the driver state at the start of its
  loop, when the function gets that far.
\<close>

definition scan_prologue ::
  "'w externals \<Rightarrow> scan_command \<Rightarrow> 'w driver \<Rightarrow> (scan_locals \<times> 'w driver) option" where
  "scan_prologue env scan device =
     (let scan_size_bits = (word_of_int (scan_size scan) :: uint32_t);
          scan_size_bytes_v = DIV_ROUND_UP_u32 scan_size_bits 8;
          type = scan_kind scan;
          scans_max_payload = scan_size_bytes_v div 58;
          bits_last_scan_v = scan_size_bits - scans_max_payload * 58 * 8
      in
        (case (if type = SCAN_IN \<or> type = SCAN_IO
               then calloc_block env (uint scan_size_bytes_v) device
               else (None, device)) of
           (tdo_start, d1) \<Rightarrow>
             if (type = SCAN_IN \<or> type = SCAN_IO) \<and> tdo_start = None then None
             else
               (let L0 = \<lparr>scan_ty = type, scan_size_bytes = scan_size_bytes_v,
                          bits_last_scan = bits_last_scan_v,
                          tdi_buffer_start =
                            (if type = SCAN_OUT \<or> type = SCAN_IO then Some (tdi_bytes scan) else None),
                          tdo_buffer_start = tdo_start,
                          first_tms_count = 0, first_tms_sequence = 0,
                          last_tms_count = 0, last_tms_sequence = 0,
                          tms_count_pause = 0, tms_sequence_pause = 0,
                          tms_count_resume = 0, tms_sequence_resume = 0,
                          origin_cmd = JTAG_SCAN scan\<rparr>
                in
                  (case (if ir_scan scan
                         then scan_transitions env TAP_IRSHIFT TAP_IRPAUSE scan L0 d1
                         else scan_transitions env TAP_DRSHIFT TAP_DRPAUSE scan L0 d1) of
                     Exit_Failure \<Rightarrow> None
                   | Return r \<Rightarrow> Some r))))"

subsection \<open>Queue states and views\<close>

text \<open>
  The driver states that arise from an empty queue (\<open>ulink_clear_queue\<close>, as
  \<open>ulink_init\<close> does) by appending commands whose sizes are those of the constructors:
  at most 63 OUT bytes and at most 64 IN bytes.
\<close>

inductive reachable :: "'w externals \<Rightarrow> 'w driver \<Rightarrow> bool" for env :: "'w externals" where
  reachable_clear: "reachable env (ulink_clear_queue device)"
| reachable_append:
    "reachable env device \<Longrightarrow> uint (payload_out_size ulink_cmd) \<le> 63
       \<Longrightarrow> uint (payload_in_size ulink_cmd) \<le> 64
       \<Longrightarrow> reachable env (snd (ulink_append_queue env ulink_cmd device))"

text \<open>
  The part of the heap that a command's IN view covers: block, first offset, length.
\<close>

definition view_of :: "ulink_cmd \<Rightarrow> (nat \<times> nat \<times> nat) option" where
  "view_of c =
     (case payload_in c of
        None \<Rightarrow> None
      | Some (b, off) \<Rightarrow> Some (b, off, unat (payload_in_size c)))"

text \<open>The bytes in a command's IN view.\<close>

definition view_bytes :: "ulink_cmd \<Rightarrow> (nat \<Rightarrow> uint8_t list option) \<Rightarrow> uint8_t list option" where
  "view_bytes c h =
     (case load_bytes (payload_in c) h of
        None \<Rightarrow> None
      | Some bytes \<Rightarrow> Some (take (unat (payload_in_size c)) bytes))"

text \<open>Two views do not overlap.\<close>

definition views_disjoint :: "ulink_cmd \<Rightarrow> ulink_cmd \<Rightarrow> bool" where
  "views_disjoint c c' =
     (case (view_of c, view_of c') of
        (Some (b, off, n), Some (b', off', n')) \<Rightarrow>
          b \<noteq> b' \<or> off + n \<le> off' \<or> off' + n' \<le> off
      | _ \<Rightarrow> True)"

text \<open>The number of IN bytes of the commands in a list.\<close>

definition in_bytes :: "ulink_cmd list \<Rightarrow> nat" where
  "in_bytes cs = sum_list (map (\<lambda>c. unat (payload_in_size c)) cs)"

subsection \<open>A sample environment\<close>

text \<open>
  A concrete outside world for the instances below: it logs the bulk transfers, answers
  bulk reads from a script, and can be told to fail bulk writes.  Allocation always
  succeeds.  The stable states are the six that the spec's glossary names (Reset, Idle,
  and Shift and Pause of both registers); the TMS paths and the constants of msgtypes.h
  are sample values, since neither jtag/interface.c nor msgtypes.h is among the sources.
\<close>

datatype usb_call = Bulk_Write int "uint8_t list" int int | Bulk_Read int int int

record sample_world =
  usb_log :: "usb_call list"
  usb_replies :: "(int \<times> uint8_t list) list"
  usb_write_fails :: bool

definition sample_stable :: "tap_state \<Rightarrow> bool" where
  "sample_stable s =
     (s = TAP_RESET \<or> s = TAP_IDLE \<or> s = TAP_DRSHIFT \<or> s = TAP_DRPAUSE
      \<or> s = TAP_IRSHIFT \<or> s = TAP_IRPAUSE)"

definition sample_id_byte :: "ulink_cmd_id \<Rightarrow> uint8_t" where
  "sample_id_byte i =
     (case i of
        CMD_SCAN_IN \<Rightarrow> 0 | CMD_SLOW_SCAN_IN \<Rightarrow> 1 | CMD_SCAN_OUT \<Rightarrow> 2 | CMD_SLOW_SCAN_OUT \<Rightarrow> 3
      | CMD_SCAN_IO \<Rightarrow> 4 | CMD_SLOW_SCAN_IO \<Rightarrow> 5 | CMD_CLOCK_TMS \<Rightarrow> 6
      | CMD_SLOW_CLOCK_TMS \<Rightarrow> 7 | CMD_CLOCK_TCK \<Rightarrow> 8 | CMD_SLEEP_US \<Rightarrow> 10
      | CMD_SLEEP_MS \<Rightarrow> 11 | CMD_GET_SIGNALS \<Rightarrow> 12 | CMD_SET_SIGNALS \<Rightarrow> 13
      | CMD_CONFIGURE_TCK_FREQ \<Rightarrow> 14 | CMD_SET_LEDS \<Rightarrow> 15 | CMD_TEST \<Rightarrow> 16)"

definition sample_env :: "sample_world externals" where
  "sample_env =
     \<lparr>usb_bulk_write = (\<lambda>ep bytes n timeout w.
         (if usb_write_fails w then - 1 else n,
          w\<lparr>usb_log := usb_log w @ [Bulk_Write ep bytes n timeout]\<rparr>)),
      usb_bulk_read = (\<lambda>ep n timeout w.
         (case usb_replies w of [] \<Rightarrow> (- 1, []) | r # rs \<Rightarrow> r,
          w\<lparr>usb_log := usb_log w @ [Bulk_Read ep n timeout],
            usb_replies := tl (usb_replies w)\<rparr>)),
      calloc = (\<lambda>n w. (True, w)),
      jtag_read_buffer = (\<lambda>buffer scan w. (ERROR_OK, w)),
      tap_is_state_stable = sample_stable,
      tap_get_tms_path = (\<lambda>from to. if to = TAP_RESET then 127 else 0),
      tap_get_tms_path_len = (\<lambda>from to. 7),
      cmd_id_byte = sample_id_byte,
      sizeof_ulink_cmd_t = 48,
      SIGNAL_TRST = 16,
      SIGNAL_RESET = 32\<rparr>"

definition sample_world0 :: sample_world where
  "sample_world0 = \<lparr>usb_log = [], usb_replies = [], usb_write_fails = False\<rparr>"

text \<open>A driver with an empty queue, the TAP follower in Idle, nothing on the heap.\<close>

definition sample_driver :: "sample_world \<Rightarrow> sample_world driver" where
  "sample_driver w =
     \<lparr>commands_in_queue = 0, queue = [], tap_state_cur = TAP_IDLE, tap_state_end = TAP_IDLE,
      heap = (\<lambda>b. None), heap_next = 0, world = w\<rparr>"

text \<open>
  A driver whose queue holds one command with 63 OUT bytes, so that nothing more fits,
  on an adapter that fails every bulk write.
\<close>

definition sample_big_cmd :: ulink_cmd where
  "sample_big_cmd =
     zeroed_cmd\<lparr>cmd_id := CMD_SCAN_OUT, payload_out := Some (replicate 63 0),
                payload_out_size := 63, needs_postprocessing := True,
                free_payload_in_start := True\<rparr>"

definition sample_full_failing :: "sample_world driver" where
  "sample_full_failing =
     (sample_driver (sample_world0\<lparr>usb_write_fails := True\<rparr>))
       \<lparr>commands_in_queue := 1, queue := [sample_big_cmd]\<rparr>"

text \<open>
  The same full queue on a working adapter, reached by an append to the empty queue, and
  a clock-tms command that no longer fits into it.
\<close>

definition sample_full :: "sample_world driver" where
  "sample_full =
     snd (ulink_append_queue sample_env sample_big_cmd
            (ulink_clear_queue (sample_driver sample_world0)))"

definition sample_tms_cmd :: ulink_cmd where
  "sample_tms_cmd =
     zeroed_cmd\<lparr>cmd_id := CMD_CLOCK_TMS, payload_out := Some [5, 255], payload_out_size := 2\<rparr>"

text \<open>
  The sleep-us command for 1234 microseconds, and a driver whose queue holds one
  command that asks for post-processing on behalf of a request of unknown type.
\<close>

definition sample_sleep_cmd :: ulink_cmd where
  "sample_sleep_cmd =
     zeroed_cmd\<lparr>cmd_id := CMD_SLEEP_US, payload_out := Some [210, 4], payload_out_size := 2\<rparr>"

definition sample_bad_origin :: "sample_world driver" where
  "sample_bad_origin =
     (sample_driver sample_world0)
       \<lparr>commands_in_queue := 1,
        queue := [sample_tms_cmd\<lparr>needs_postprocessing := True, cmd_origin := Some JTAG_OTHER\<rparr>]\<rparr>"

text \<open>
  A driver whose queue holds one get-signals command with its two-byte IN buffer, on an
  adapter that will answer the next bulk read with two bytes.
\<close>

definition sample_signals_cmd :: ulink_cmd where
  "sample_signals_cmd =
     zeroed_cmd\<lparr>cmd_id := CMD_GET_SIGNALS, payload_in_start := Some (0, 0),
                payload_in := Some (0, 0), payload_in_size := 2,
                needs_postprocessing := True, free_payload_in_start := True\<rparr>"

definition sample_signals :: "sample_world driver" where
  "sample_signals =
     (sample_driver (sample_world0\<lparr>usb_replies := [(2, [85, 170])]\<rparr>))
       \<lparr>commands_in_queue := 1, queue := [sample_signals_cmd],
        heap := (\<lambda>b. None)(0 \<mapsto> [0, 0]), heap_next := 1\<rparr>"

text \<open>
  Two DR scans of 472 bits (59 bytes) that end in Idle, one of type IN and one of type
  OUT, and a DR scan of type IN of 460 bits (58 bytes, the last of them with 4 bits).
\<close>

definition sample_scan_in :: scan_command where
  "sample_scan_in =
     \<lparr>ir_scan = False, scan_size = 472, scan_kind = SCAN_IN, tdi_bytes = [],
      end_state = TAP_IDLE\<rparr>"

definition sample_scan_out :: scan_command where
  "sample_scan_out =
     \<lparr>ir_scan = False, scan_size = 472, scan_kind = SCAN_OUT, tdi_bytes = replicate 59 165,
      end_state = TAP_IDLE\<rparr>"

definition sample_scan_460 :: scan_command where
  "sample_scan_460 =
     \<lparr>ir_scan = False, scan_size = 460, scan_kind = SCAN_IN, tdi_bytes = [],
      end_state = TAP_IDLE\<rparr>"

text \<open>
  A driver whose queue holds 61 bytes, so that a clock-tck command fits and a clock-tms
  command after it does not, on an adapter that fails every bulk write; and the
  clock-tck command for 100 cycles.
\<close>

definition sample_61_failing :: "sample_world driver" where
  "sample_61_failing =
     (sample_driver (sample_world0\<lparr>usb_write_fails := True\<rparr>))
       \<lparr>commands_in_queue := 1,
        queue := [zeroed_cmd\<lparr>cmd_id := CMD_SCAN_OUT, payload_out := Some (replicate 60 0),
                            payload_out_size := 60, needs_postprocessing := True,
                            free_payload_in_start := True\<rparr>]\<rparr>"

definition sample_tck_cmd :: ulink_cmd where
  "sample_tck_cmd =
     zeroed_cmd\<lparr>cmd_id := CMD_CLOCK_TCK, payload_out := Some [100, 0], payload_out_size := 2\<rparr>"

text \<open>The same environment with an allocator that has no memory left.\<close>

definition sample_env_no_memory :: "sample_world externals" where
  "sample_env_no_memory = sample_env\<lparr>calloc := (\<lambda>n w. (False, w))\<rparr>"

section \<open>Basic facts\<close>

lemma ERROR_codes_distinct [simp]: "ERROR_FAIL \<noteq> ERROR_OK" "ERROR_OK \<noteq> ERROR_FAIL"
  by (simp_all add: ERROR_OK_def ERROR_FAIL_def)

text \<open>What the parts of the driver leave alone.\<close>

lemma calloc_value_fields:
  "calloc_value env n s = (ok, s') \<Longrightarrow>
     queue s' = queue s \<and> commands_in_queue s' = commands_in_queue s \<and>
     tap_state_cur s' = tap_state_cur s \<and> tap_state_end s' = tap_state_end s \<and>
     heap s' = heap s \<and> heap_next s' = heap_next s"
  by (auto simp: calloc_value_def split: prod.splits)

lemma execute_fields:
  "ulink_execute_queued_commands env t s = (ret, s') \<Longrightarrow>
     queue s' = queue s \<and> commands_in_queue s' = commands_in_queue s \<and>
     tap_state_cur s' = tap_state_cur s \<and> tap_state_end s' = tap_state_end s \<and>
     heap_next s' = heap_next s"
  by (auto simp: ulink_execute_queued_commands_def split: prod.splits if_splits)

lemma post_process_scan_fields:
  "ulink_post_process_scan env c scan s = (ret, s') \<Longrightarrow>
     queue s' = queue s \<and> commands_in_queue s' = commands_in_queue s \<and>
     tap_state_cur s' = tap_state_cur s \<and> tap_state_end s' = tap_state_end s \<and>
     heap s' = heap s \<and> heap_next s' = heap_next s"
  by (auto simp: ulink_post_process_scan_def split: prod.splits scan_type.splits)

lemma post_process_loop_fields:
  "post_process_loop env cs s = (ret, s') \<Longrightarrow>
     queue s' = queue s \<and> commands_in_queue s' = commands_in_queue s \<and>
     tap_state_cur s' = tap_state_cur s \<and> tap_state_end s' = tap_state_end s \<and>
     heap s' = heap s \<and> heap_next s' = heap_next s"
proof (induction cs arbitrary: s)
  case Nil
  then show ?case by simp
next
  case (Cons c cs)
  show ?case
  proof (cases "cmd_origin c")
    case None
    then show ?thesis using Cons by simp
  next
    case (Some o_cmd)
    show ?thesis
    proof (cases "needs_postprocessing c")
      case False
      then show ?thesis using Some Cons by simp
    next
      case True
      obtain r1 s1 where r:
        "(case o_cmd of JTAG_SCAN scan \<Rightarrow> ulink_post_process_scan env c scan s
           | JTAG_OTHER \<Rightarrow> (ERROR_FAIL, s) | _ \<Rightarrow> (ERROR_OK, s)) = (r1, s1)"
        by (metis surj_pair)
      then have s1: "queue s1 = queue s \<and> commands_in_queue s1 = commands_in_queue s \<and>
          tap_state_cur s1 = tap_state_cur s \<and> tap_state_end s1 = tap_state_end s \<and>
          heap s1 = heap s \<and> heap_next s1 = heap_next s"
        by (cases o_cmd) (auto dest: post_process_scan_fields)
      show ?thesis
      proof (cases "r1 = ERROR_OK")
        case True
        with Some \<open>needs_postprocessing c\<close> r Cons.prems
        have "post_process_loop env cs s1 = (ret, s')" by simp
        from Cons.IH [OF this] s1 show ?thesis by simp
      next
        case False
        with Some \<open>needs_postprocessing c\<close> r Cons.prems
        have "s' = s1" by simp
        with s1 show ?thesis by simp
      qed
    qed
  qed
qed

lemma post_process_queue_fields:
  "ulink_post_process_queue env s = (ret, s') \<Longrightarrow>
     queue s' = queue s \<and> commands_in_queue s' = commands_in_queue s \<and>
     tap_state_cur s' = tap_state_cur s \<and> tap_state_end s' = tap_state_end s \<and>
     heap s' = heap s \<and> heap_next s' = heap_next s"
  unfolding ulink_post_process_queue_def by (rule post_process_loop_fields)

lemma clear_queue_fields [simp]:
  "queue (ulink_clear_queue s) = []"
  "commands_in_queue (ulink_clear_queue s) = 0"
  "tap_state_cur (ulink_clear_queue s) = tap_state_cur s"
  "tap_state_end (ulink_clear_queue s) = tap_state_end s"
  "world (ulink_clear_queue s) = world s"
  "heap_next (ulink_clear_queue s) = heap_next s"
  by (simp_all add: ulink_clear_queue_def)

lemma link_cmd_fields [simp]:
  "queue (link_cmd c s) = queue s @ [c]"
  "tap_state_cur (link_cmd c s) = tap_state_cur s"
  "tap_state_end (link_cmd c s) = tap_state_end s"
  "world (link_cmd c s) = world s"
  "heap (link_cmd c s) = heap s"
  "heap_next (link_cmd c s) = heap_next s"
  by (simp_all add: link_cmd_def)

lemma get_queue_size_cong:
  "queue a = queue b \<Longrightarrow> ulink_get_queue_size a direction = ulink_get_queue_size b direction"
  by (simp add: ulink_get_queue_size_def)

lemma append_queue_tap:
  "ulink_append_queue env c s = (ret, s') \<Longrightarrow>
     tap_state_cur s' = tap_state_cur s \<and> tap_state_end s' = tap_state_end s"
  by (auto simp: ulink_append_queue_def Let_def split: prod.splits if_splits
      dest!: execute_fields post_process_queue_fields)

text \<open>A successful append puts the command last, after the old queue or after nothing.\<close>

lemma append_queue_ok:
  "ulink_append_queue env c s = (ERROR_OK, s') \<Longrightarrow>
     queue s' =
       (if ulink_get_queue_size s PAYLOAD_DIRECTION_OUT + 1 + uint (payload_out_size c) > 64
           \<or> ulink_get_queue_size s PAYLOAD_DIRECTION_IN + uint (payload_in_size c) > 64
        then [] else queue s) @ [c]"
  by (auto simp: ulink_append_queue_def Let_def split: prod.splits if_splits)

lemma allocate_payload_out:
  "ulink_allocate_payload env c n PAYLOAD_DIRECTION_OUT s = ((ERROR_OK, c'), s') \<Longrightarrow>
     c' = c\<lparr>payload_out := Some (replicate (nat n) 0), payload_out_size := word_of_int n\<rparr> \<and>
     queue s' = queue s \<and> commands_in_queue s' = commands_in_queue s \<and>
     tap_state_cur s' = tap_state_cur s \<and> tap_state_end s' = tap_state_end s \<and>
     heap s' = heap s \<and> heap_next s' = heap_next s"
  by (auto simp: ulink_allocate_payload_def split: prod.splits if_splits
      dest!: calloc_value_fields)

lemma allocate_payload_fields:
  "ulink_allocate_payload env c n direction s = ((ret, c'), s') \<Longrightarrow>
     queue s' = queue s \<and> commands_in_queue s' = commands_in_queue s \<and>
     tap_state_cur s' = tap_state_cur s \<and> tap_state_end s' = tap_state_end s"
  by (auto simp: ulink_allocate_payload_def calloc_block_def split: prod.splits if_splits
      ulink_payload_direction.splits dest!: calloc_value_fields)

text \<open>The two bytes of a little-endian 16-bit value taken from a 32-bit one.\<close>

lemma unat_low_byte: "unat (ucast (us AND 255) :: uint8_t) = unat us mod 256"
  for us :: uint32_t
proof -
  have "(255 :: uint32_t) = mask 8"
    by (simp add: mask_eq_exp_minus_1)
  then have "us AND 255 = take_bit 8 us"
    by (simp add: take_bit_eq_mask)
  then show ?thesis
    by (simp add: unsigned_ucast_eq unsigned_take_bit_eq take_bit_eq_mod unat_mod unat_div)
qed

lemma unat_high_byte:
  "unat (ucast (drop_bit 8 us AND 255) :: uint8_t) = (unat us div 256) mod 256"
  for us :: uint32_t
proof -
  have "(255 :: uint32_t) = mask 8"
    by (simp add: mask_eq_exp_minus_1)
  then have "drop_bit 8 us AND 255 = take_bit 8 (drop_bit 8 us)"
    by (simp add: take_bit_eq_mask)
  then show ?thesis
    by (simp add: unsigned_ucast_eq unsigned_take_bit_eq take_bit_eq_mod unat_drop_bit_eq
        drop_bit_eq_div unat_mod unat_div)
qed

section \<open>The speed table\<close>

text \<open>
  C9.  \<open>ulink_speed_div\<close> with index 0 stores 150 in \<open>*khz\<close>, with index 1 it stores 100;
  with any other index it leaves \<open>*khz\<close> as it was.  It returns \<open>ERROR_OK\<close> in all three
  cases.
\<close>

theorem speed_div_table:
  "ulink_speed_div 0 khz = (ERROR_OK, 150) \<and>
   ulink_speed_div 1 khz = (ERROR_OK, 100) \<and>
   (speed \<noteq> 0 \<and> speed \<noteq> 1 \<longrightarrow> ulink_speed_div speed khz = (ERROR_OK, khz))"
  by (simp add: ulink_speed_div_def)

theorem speed_div_table_witness:
  "ulink_speed_div 0 33 = (ERROR_OK, 150) \<and>
   ulink_speed_div 1 33 = (ERROR_OK, 100) \<and>
   ulink_speed_div 2 33 = (ERROR_OK, 33)"
  using speed_div_table [of 33 2] by simp

section \<open>The end-state follower\<close>

text \<open>
  C5, as the code has it.  For a state that is not stable \<open>ulink_set_end_state\<close> does
  not return: it ends the process with \<open>exit(EXIT_FAILURE)\<close>, so no error reaches the
  caller.  For a stable state it returns with the end state updated and nothing else
  changed.
\<close>

theorem set_end_state_exits:
  "(\<not> tap_is_state_stable env endstate \<longrightarrow>
      ulink_set_end_state env endstate s = Exit_Failure \<and>
      (\<forall>r. ulink_set_end_state env endstate s \<noteq> Return r)) \<and>
   (tap_is_state_stable env endstate \<longrightarrow>
      ulink_set_end_state env endstate s = Return (s\<lparr>tap_state_end := endstate\<rparr>))"
  by (simp add: ulink_set_end_state_def)

theorem set_end_state_exits_witness:
  "ulink_set_end_state sample_env TAP_DRUPDATE (sample_driver sample_world0) = Exit_Failure \<and>
   ulink_set_end_state sample_env TAP_IRPAUSE (sample_driver sample_world0)
     = Return ((sample_driver sample_world0)\<lparr>tap_state_end := TAP_IRPAUSE\<rparr>)"
  using set_end_state_exits [of sample_env TAP_DRUPDATE "sample_driver sample_world0"]
    set_end_state_exits [of sample_env TAP_IRPAUSE "sample_driver sample_world0"]
  by (simp add: sample_env_def sample_stable_def)

text \<open>
  The claim as the spec states it (an error is returned to the caller) fails: at the
  state Update-DR, which is not stable, the call does not return at all.
\<close>

theorem set_end_state_counterexample:
  "\<not> tap_is_state_stable sample_env TAP_DRUPDATE \<and>
   ulink_set_end_state sample_env TAP_DRUPDATE (sample_driver sample_world0) = Exit_Failure"
  by (simp add: ulink_set_end_state_def sample_env_def sample_stable_def)

section \<open>Constructors\<close>

text \<open>
  Whether a command still fits into the queue of \<open>s\<close>: the test of
  \<open>ulink_append_queue\<close>, negated.
\<close>

lemma set_payload_out_simps [simp]:
  "payload_out (set_payload_out i v c) = (case payload_out c of None \<Rightarrow> None | Some p \<Rightarrow> Some (p[i := v]))"
  "payload_out_size (set_payload_out i v c) = payload_out_size c"
  "payload_in_size (set_payload_out i v c) = payload_in_size c"
  "payload_in (set_payload_out i v c) = payload_in c"
  "payload_in_start (set_payload_out i v c) = payload_in_start c"
  "cmd_id (set_payload_out i v c) = cmd_id c"
  "needs_postprocessing (set_payload_out i v c) = needs_postprocessing c"
  "free_payload_in_start (set_payload_out i v c) = free_payload_in_start c"
  "cmd_origin (set_payload_out i v c) = cmd_origin c"
  by (simp_all add: set_payload_out_def)

lemma replicate_two: "replicate 2 x = [x, x]"
  by (simp add: numeral_2_eq_2)

lemma two_byte_cmd:
  "set_payload_out 1 b (set_payload_out 0 a
     (zeroed_cmd\<lparr>cmd_id := i, payload_out := Some (replicate (nat 2) 0),
                 payload_out_size := word_of_int 2\<rparr>))
   = zeroed_cmd\<lparr>cmd_id := i, payload_out := Some [a, b], payload_out_size := 2\<rparr>"
  by (simp add: set_payload_out_def zeroed_cmd_def numeral_2_eq_2)

lemma append_clock_tms_cmd_ok:
  assumes "ulink_append_clock_tms_cmd env count sequence s = (ERROR_OK, s')"
  shows "queue s' =
      (if ulink_get_queue_size s PAYLOAD_DIRECTION_OUT + 3 > 64
          \<or> ulink_get_queue_size s PAYLOAD_DIRECTION_IN > 64
       then [] else queue s)
      @ [zeroed_cmd\<lparr>cmd_id := CMD_CLOCK_TMS, payload_out := Some [count, sequence],
                     payload_out_size := 2\<rparr>]"
proof -
  obtain ok d1 where a: "calloc_value env (sizeof_ulink_cmd_t env) s = (ok, d1)"
    by (metis surj_pair)
  obtain ret cmd d2 where b:
    "ulink_allocate_payload env (zeroed_cmd\<lparr>cmd_id := CMD_CLOCK_TMS\<rparr>) 2 PAYLOAD_DIRECTION_OUT d1
       = ((ret, cmd), d2)"
    by (metis surj_pair)
  from assms a b have ok: "ok" and ret: "ret = ERROR_OK"
    and app: "ulink_append_queue env (set_payload_out 1 sequence (set_payload_out 0 count cmd)) d2
      = (ERROR_OK, s')"
    by (auto simp: ulink_append_clock_tms_cmd_def split: if_splits)
  from allocate_payload_out [OF b [unfolded ret]] calloc_value_fields [OF a]
  have cmd: "cmd = zeroed_cmd\<lparr>cmd_id := CMD_CLOCK_TMS, payload_out := Some (replicate (nat 2) 0),
      payload_out_size := word_of_int 2\<rparr>"
    and q: "queue d2 = queue s"
    by simp_all
  have sz: "ulink_get_queue_size d2 direction = ulink_get_queue_size s direction" for direction
    using q by (rule get_queue_size_cong)
  have c2: "set_payload_out 1 sequence (set_payload_out 0 count cmd)
      = zeroed_cmd\<lparr>cmd_id := CMD_CLOCK_TMS, payload_out := Some [count, sequence],
          payload_out_size := 2\<rparr>"
    unfolding cmd by (rule two_byte_cmd)
  show ?thesis
    using append_queue_ok [OF app] q unfolding c2
    by (simp add: sz zeroed_cmd_def)
qed

lemma append_clock_tms_cmd_tap:
  "ulink_append_clock_tms_cmd env count sequence s = (ret, s') \<Longrightarrow>
     tap_state_cur s' = tap_state_cur s \<and> tap_state_end s' = tap_state_end s"
  by (auto simp: ulink_append_clock_tms_cmd_def split: prod.splits if_splits
      dest!: calloc_value_fields allocate_payload_fields append_queue_tap)

lemma append_set_signals_cmd_tap:
  "ulink_append_set_signals_cmd env low high s = (ret, s') \<Longrightarrow>
     tap_state_cur s' = tap_state_cur s \<and> tap_state_end s' = tap_state_end s"
  by (auto simp: ulink_append_set_signals_cmd_def split: prod.splits if_splits
      dest!: calloc_value_fields allocate_payload_fields append_queue_tap)

lemma append_sleep_cmd_ok:
  assumes "ulink_append_sleep_cmd env us s = (ERROR_OK, s')"
  shows "queue s' =
      (if ulink_get_queue_size s PAYLOAD_DIRECTION_OUT + 3 > 64
          \<or> ulink_get_queue_size s PAYLOAD_DIRECTION_IN > 64
       then [] else queue s)
      @ [zeroed_cmd\<lparr>cmd_id := CMD_SLEEP_US,
                     payload_out := Some [ucast (us AND 255), ucast (drop_bit 8 us AND 255)],
                     payload_out_size := 2\<rparr>]"
proof -
  obtain ok d1 where a: "calloc_value env (sizeof_ulink_cmd_t env) s = (ok, d1)"
    by (metis surj_pair)
  obtain ret cmd d2 where b:
    "ulink_allocate_payload env (zeroed_cmd\<lparr>cmd_id := CMD_SLEEP_US\<rparr>) 2 PAYLOAD_DIRECTION_OUT d1
       = ((ret, cmd), d2)"
    by (metis surj_pair)
  from assms a b have ok: "ok" and ret: "ret = ERROR_OK"
    and app: "ulink_append_queue env
        (set_payload_out 1 (ucast (drop_bit 8 us AND 255))
           (set_payload_out 0 (ucast (us AND 255)) cmd)) d2
      = (ERROR_OK, s')"
    by (auto simp: ulink_append_sleep_cmd_def split: if_splits)
  from allocate_payload_out [OF b [unfolded ret]] calloc_value_fields [OF a]
  have cmd: "cmd = zeroed_cmd\<lparr>cmd_id := CMD_SLEEP_US, payload_out := Some (replicate (nat 2) 0),
      payload_out_size := word_of_int 2\<rparr>"
    and q: "queue d2 = queue s"
    by simp_all
  have sz: "ulink_get_queue_size d2 direction = ulink_get_queue_size s direction" for direction
    using q by (rule get_queue_size_cong)
  have c2: "set_payload_out 1 (ucast (drop_bit 8 us AND 255))
        (set_payload_out 0 (ucast (us AND 255)) cmd)
      = zeroed_cmd\<lparr>cmd_id := CMD_SLEEP_US,
          payload_out := Some [ucast (us AND 255), ucast (drop_bit 8 us AND 255)],
          payload_out_size := 2\<rparr>"
    unfolding cmd by (rule two_byte_cmd)
  show ?thesis
    using append_queue_ok [OF app] q unfolding c2
    by (simp add: sz zeroed_cmd_def)
qed

section \<open>Line reset\<close>

text \<open>
  C10.  A reset request that asserts TRST sets the follower's current state to Reset
  before the set-signals command is built and appended: the call is the constructor run
  on the state with the follower already in Reset.  The constructor and the append do
  not touch the follower, so the state is Reset when the call returns, with
  \<open>ERROR_OK\<close> or with an error.
\<close>

theorem queue_reset_trst_sets_reset:
  assumes "trst \<noteq> 0"
  shows "ulink_queue_reset env trst srst s =
           ulink_append_set_signals_cmd env
             (if srst \<noteq> 0 then 0 else SIGNAL_RESET env)
             (if srst \<noteq> 0 then SIGNAL_TRST env OR SIGNAL_RESET env else SIGNAL_TRST env)
             (s\<lparr>tap_state_cur := TAP_RESET\<rparr>)
         \<and> tap_state_cur (snd (ulink_queue_reset env trst srst s)) = TAP_RESET"
proof -
  have eq: "ulink_queue_reset env trst srst s =
           ulink_append_set_signals_cmd env
             (if srst \<noteq> 0 then 0 else SIGNAL_RESET env)
             (if srst \<noteq> 0 then SIGNAL_TRST env OR SIGNAL_RESET env else SIGNAL_TRST env)
             (s\<lparr>tap_state_cur := TAP_RESET\<rparr>)"
    using assms by (simp add: ulink_queue_reset_def Let_def)
  obtain ret s' where r: "ulink_queue_reset env trst srst s = (ret, s')"
    by (metis surj_pair)
  from append_set_signals_cmd_tap [OF r [unfolded eq]] have "tap_state_cur s' = TAP_RESET"
    by simp
  moreover from r have "snd (ulink_queue_reset env trst srst s) = s'"
    by simp
  ultimately have "tap_state_cur (snd (ulink_queue_reset env trst srst s)) = TAP_RESET"
    by simp
  with eq show ?thesis
    by (rule conjI)
qed

theorem queue_reset_trst_sets_reset_witness:
  "(1 :: int) \<noteq> 0 \<and>
   fst (ulink_queue_reset sample_env 1 0 (sample_driver sample_world0)) = ERROR_OK \<and>
   tap_state_cur (snd (ulink_queue_reset sample_env 1 0 (sample_driver sample_world0))) = TAP_RESET \<and>
   fst (ulink_queue_reset sample_env 1 0 sample_full_failing) = ERROR_FAIL \<and>
   tap_state_cur (snd (ulink_queue_reset sample_env 1 0 sample_full_failing)) = TAP_RESET"
proof -
  have h: "(1 :: int) \<noteq> 0"
    by simp
  have ok: "fst (ulink_queue_reset sample_env 1 0 (sample_driver sample_world0)) = ERROR_OK"
    by (simp add: ulink_queue_reset_def ulink_append_set_signals_cmd_def calloc_value_def
        ulink_allocate_payload_def ulink_append_queue_def ulink_get_queue_size_def
        sample_env_def sample_driver_def sample_world0_def zeroed_cmd_def Let_def)
  have fail: "fst (ulink_queue_reset sample_env 1 0 sample_full_failing) = ERROR_FAIL"
    by (simp add: ulink_queue_reset_def ulink_append_set_signals_cmd_def calloc_value_def
        ulink_allocate_payload_def ulink_append_queue_def ulink_get_queue_size_def
        ulink_execute_queued_commands_def
        sample_env_def sample_full_failing_def sample_driver_def sample_world0_def
        sample_big_cmd_def zeroed_cmd_def Let_def)
  show ?thesis
    using queue_reset_trst_sets_reset [OF h, THEN conjunct2, of sample_env 0 "sample_driver sample_world0"]
      queue_reset_trst_sets_reset [OF h, THEN conjunct2, of sample_env 0 sample_full_failing] ok fail
    by simp
qed

section \<open>TLR reset\<close>

text \<open>
  C7.  When a TLR reset request succeeds, exactly one command has been put at the end of
  the batch: clock-tms with count 5 and sequence 0xFF, after the commands that were
  queued before, or alone when they did not leave room and were sent first.  The
  follower's current state is then Reset.
\<close>

theorem tlr_reset_emits_clock_tms:
  assumes "ulink_queue_tlr_reset env s = (ERROR_OK, s')"
  shows "queue s' =
           (if ulink_get_queue_size s PAYLOAD_DIRECTION_OUT + 3 > 64
               \<or> ulink_get_queue_size s PAYLOAD_DIRECTION_IN > 64
            then [] else queue s)
           @ [\<lparr>cmd_id = CMD_CLOCK_TMS, payload_out = Some [5, 255], payload_out_size = 2,
               payload_in_start = None, payload_in = None, payload_in_size = 0,
               needs_postprocessing = False, free_payload_in_start = False,
               cmd_origin = None\<rparr>]
         \<and> tap_state_cur s' = TAP_RESET"
proof -
  obtain ret d1 where a: "ulink_append_clock_tms_cmd env 5 255 s = (ret, d1)"
    by (metis surj_pair)
  with assms have ret: "ret = ERROR_OK" and s': "s' = d1\<lparr>tap_state_cur := TAP_RESET\<rparr>"
    by (auto simp: ulink_queue_tlr_reset_def split: if_splits)
  from append_clock_tms_cmd_ok [OF a [unfolded ret]] s' show ?thesis
    by (simp add: zeroed_cmd_def)
qed

theorem tlr_reset_emits_clock_tms_witness:
  "fst (ulink_queue_tlr_reset sample_env (sample_driver sample_world0)) = ERROR_OK \<and>
   queue (snd (ulink_queue_tlr_reset sample_env (sample_driver sample_world0))) =
     [\<lparr>cmd_id = CMD_CLOCK_TMS, payload_out = Some [5, 255], payload_out_size = 2,
       payload_in_start = None, payload_in = None, payload_in_size = 0,
       needs_postprocessing = False, free_payload_in_start = False, cmd_origin = None\<rparr>] \<and>
   tap_state_cur (snd (ulink_queue_tlr_reset sample_env (sample_driver sample_world0))) = TAP_RESET"
proof -
  have ok: "fst (ulink_queue_tlr_reset sample_env (sample_driver sample_world0)) = ERROR_OK"
    by (simp add: ulink_queue_tlr_reset_def ulink_append_clock_tms_cmd_def calloc_value_def
        ulink_allocate_payload_def ulink_append_queue_def ulink_get_queue_size_def
        sample_env_def sample_driver_def sample_world0_def zeroed_cmd_def Let_def)
  then have e: "ulink_queue_tlr_reset sample_env (sample_driver sample_world0) =
      (ERROR_OK, snd (ulink_queue_tlr_reset sample_env (sample_driver sample_world0)))"
    by (simp add: prod_eq_iff)
  show ?thesis
    using tlr_reset_emits_clock_tms [OF e] ok
    by (simp add: ulink_get_queue_size_def sample_driver_def)
qed

section \<open>Sleep\<close>

text \<open>
  What a failed append leaves of the queue, and what an append does to the outside world:
  nothing when the command fits, and otherwise the exchange of the pending batch and its
  post-processing.
\<close>

lemma append_queue_failed:
  "ulink_append_queue env c s = (ret, s') \<Longrightarrow> ret \<noteq> ERROR_OK \<Longrightarrow>
     queue s' = queue s \<and> commands_in_queue s' = commands_in_queue s"
  by (auto simp: ulink_append_queue_def Let_def split: prod.splits if_splits
      dest!: execute_fields post_process_queue_fields)

lemma append_queue_world:
  "ulink_append_queue env c s = (ret, s') \<Longrightarrow>
     world s' =
       (if ulink_get_queue_size s PAYLOAD_DIRECTION_OUT + 1 + uint (payload_out_size c) \<le> 64
           \<and> ulink_get_queue_size s PAYLOAD_DIRECTION_IN + uint (payload_in_size c) \<le> 64
        then world s
        else if fst (ulink_execute_queued_commands env USB_TIMEOUT s) \<noteq> ERROR_OK
        then world (snd (ulink_execute_queued_commands env USB_TIMEOUT s))
        else world (snd (ulink_post_process_queue env
                           (snd (ulink_execute_queued_commands env USB_TIMEOUT s)))))"
  by (auto simp: ulink_append_queue_def Let_def split: prod.splits if_splits)

text \<open>The sleep constructor, step by step.\<close>

lemma append_sleep_cmd_cases:
  assumes "ulink_append_sleep_cmd env us s = (ret, s')"
  shows "(\<not> fst (calloc env (sizeof_ulink_cmd_t env) (world s))
            \<and> ret = ERROR_FAIL
            \<and> s' = s\<lparr>world := snd (calloc env (sizeof_ulink_cmd_t env) (world s))\<rparr>)
       \<or> (fst (calloc env (sizeof_ulink_cmd_t env) (world s))
            \<and> \<not> fst (calloc env 2 (snd (calloc env (sizeof_ulink_cmd_t env) (world s))))
            \<and> ret = ERROR_FAIL
            \<and> s' = s\<lparr>world := snd (calloc env 2
                                      (snd (calloc env (sizeof_ulink_cmd_t env) (world s))))\<rparr>)
       \<or> (fst (calloc env (sizeof_ulink_cmd_t env) (world s))
            \<and> fst (calloc env 2 (snd (calloc env (sizeof_ulink_cmd_t env) (world s))))
            \<and> ulink_append_queue env
                 (zeroed_cmd\<lparr>cmd_id := CMD_SLEEP_US,
                    payload_out := Some [ucast (us AND 255), ucast (drop_bit 8 us AND 255)],
                    payload_out_size := 2\<rparr>)
                 (s\<lparr>world := snd (calloc env 2
                                    (snd (calloc env (sizeof_ulink_cmd_t env) (world s))))\<rparr>)
               = (ret, s'))"
proof -
  let ?c1 = "calloc env (sizeof_ulink_cmd_t env) (world s)"
  let ?c2 = "calloc env 2 (snd ?c1)"
  have c2: "set_payload_out 1 (ucast (drop_bit 8 us AND 255))
        (set_payload_out 0 (ucast (us AND 255))
           (zeroed_cmd\<lparr>cmd_id := CMD_SLEEP_US, payload_out := Some (replicate (nat 2) 0),
              payload_out_size := word_of_int 2\<rparr>))
      = zeroed_cmd\<lparr>cmd_id := CMD_SLEEP_US,
          payload_out := Some [ucast (us AND 255), ucast (drop_bit 8 us AND 255)],
          payload_out_size := 2\<rparr>"
    by (rule two_byte_cmd)
  have none: "payload_out (zeroed_cmd\<lparr>cmd_id := CMD_SLEEP_US\<rparr>) = None"
    by (simp add: zeroed_cmd_def)
  show ?thesis
  proof (cases "fst ?c1")
    case False
    with assms show ?thesis
      by (simp add: ulink_append_sleep_cmd_def calloc_value_def split: prod.splits)
  next
    case c1: True
    show ?thesis
    proof (cases "fst ?c2")
      case False
      with c1 assms show ?thesis
        by (simp add: ulink_append_sleep_cmd_def calloc_value_def ulink_allocate_payload_def
            split: prod.splits)
    next
      case True
      with c1 assms none have "ulink_append_queue env
          (set_payload_out 1 (ucast (drop_bit 8 us AND 255))
            (set_payload_out 0 (ucast (us AND 255))
              (zeroed_cmd\<lparr>cmd_id := CMD_SLEEP_US, payload_out := Some (replicate (nat 2) 0),
                 payload_out_size := word_of_int 2\<rparr>)))
          (s\<lparr>world := snd ?c2\<rparr>) = (ret, s')"
        by (simp add: ulink_append_sleep_cmd_def calloc_value_def ulink_allocate_payload_def
            split: prod.splits)
      with c1 True show ?thesis
        unfolding c2 by simp
    qed
  qed
qed

text \<open>
  C8.  A sleep request is handed to the adapter: the translator is the constructor of the
  sleep-us command and nothing else.  When it returns \<open>ERROR_OK\<close>, exactly one command has
  been put at the end of the batch: sleep-us with no IN bytes and a payload of two bytes,
  the low byte \<open>us mod 256\<close> and then \<open>(us div 256) mod 256\<close>, which is \<open>us mod 2^16\<close> in
  little-endian order.  When it returns an error (an allocation failed, or the batch was
  full and its exchange or post-processing failed), no command has been put into the
  queue.  In both cases the host does not wait: the outside world has seen the two
  allocations and, only when the command did not fit, the exchange of the pending batch
  (one bulk write, at most one bulk read) and its post-processing; nothing else has
  touched it.
\<close>

theorem sleep_emits_sleep_us:
  assumes "ulink_queue_sleep env us s = (ret, s')"
  shows "(ret = ERROR_OK \<longrightarrow>
           (\<exists>b0 b1.
              queue s' =
                (if ulink_get_queue_size s PAYLOAD_DIRECTION_OUT + 3 > 64
                    \<or> ulink_get_queue_size s PAYLOAD_DIRECTION_IN > 64
                 then [] else queue s)
                @ [\<lparr>cmd_id = CMD_SLEEP_US, payload_out = Some [b0, b1], payload_out_size = 2,
                    payload_in_start = None, payload_in = None, payload_in_size = 0,
                    needs_postprocessing = False, free_payload_in_start = False,
                    cmd_origin = None\<rparr>]
              \<and> unat b0 = unat us mod 256 \<and> unat b1 = (unat us div 256) mod 256
              \<and> unat b0 + 256 * unat b1 = unat us mod 2 ^ 16))
       \<and> (ret \<noteq> ERROR_OK \<longrightarrow>
            queue s' = queue s \<and> commands_in_queue s' = commands_in_queue s)
       \<and> world s' =
           (let c1 = calloc env (sizeof_ulink_cmd_t env) (world s);
                c2 = calloc env 2 (snd c1);
                x = ulink_execute_queued_commands env USB_TIMEOUT (s\<lparr>world := snd c2\<rparr>)
            in if \<not> fst c1 then snd c1
               else if \<not> fst c2 then snd c2
               else if ulink_get_queue_size s PAYLOAD_DIRECTION_OUT + 3 \<le> 64
                       \<and> ulink_get_queue_size s PAYLOAD_DIRECTION_IN \<le> 64
               then snd c2
               else if fst x \<noteq> ERROR_OK then world (snd x)
               else world (snd (ulink_post_process_queue env (snd x))))"
proof -
  let ?b0 = "ucast (us AND 255) :: uint8_t"
  let ?b1 = "ucast (drop_bit 8 us AND 255) :: uint8_t"
  let ?c1 = "calloc env (sizeof_ulink_cmd_t env) (world s)"
  let ?c2 = "calloc env 2 (snd ?c1)"
  let ?cmd = "zeroed_cmd\<lparr>cmd_id := CMD_SLEEP_US, payload_out := Some [?b0, ?b1],
                          payload_out_size := 2\<rparr>"
  from assms have a: "ulink_append_sleep_cmd env us s = (ret, s')"
    by (simp add: ulink_queue_sleep_def)
  have sz: "ulink_get_queue_size (s\<lparr>world := w\<rparr>) direction = ulink_get_queue_size s direction"
    for w direction
    by (rule get_queue_size_cong) simp
  have ok: "\<exists>b0 b1.
      queue s' =
        (if ulink_get_queue_size s PAYLOAD_DIRECTION_OUT + 3 > 64
            \<or> ulink_get_queue_size s PAYLOAD_DIRECTION_IN > 64
         then [] else queue s)
        @ [\<lparr>cmd_id = CMD_SLEEP_US, payload_out = Some [b0, b1], payload_out_size = 2,
            payload_in_start = None, payload_in = None, payload_in_size = 0,
            needs_postprocessing = False, free_payload_in_start = False,
            cmd_origin = None\<rparr>]
      \<and> unat b0 = unat us mod 256 \<and> unat b1 = (unat us div 256) mod 256
      \<and> unat b0 + 256 * unat b1 = unat us mod 2 ^ 16" if r: "ret = ERROR_OK"
  proof -
    from a r have a': "ulink_append_sleep_cmd env us s = (ERROR_OK, s')"
      by simp
    have q: "queue s' =
        (if ulink_get_queue_size s PAYLOAD_DIRECTION_OUT + 3 > 64
            \<or> ulink_get_queue_size s PAYLOAD_DIRECTION_IN > 64
         then [] else queue s)
        @ [\<lparr>cmd_id = CMD_SLEEP_US, payload_out = Some [?b0, ?b1], payload_out_size = 2,
            payload_in_start = None, payload_in = None, payload_in_size = 0,
            needs_postprocessing = False, free_payload_in_start = False,
            cmd_origin = None\<rparr>]"
      using append_sleep_cmd_ok [OF a'] by (simp add: zeroed_cmd_def)
    have b0: "unat ?b0 = unat us mod 256"
      by (rule unat_low_byte)
    have b1: "unat ?b1 = (unat us div 256) mod 256"
      by (rule unat_high_byte)
    have "unat us mod (256 * 256) = 256 * (unat us div 256 mod 256) + unat us mod 256"
      by (rule mod_mult2_eq)
    then have le: "unat ?b0 + 256 * unat ?b1 = unat us mod 2 ^ 16"
      unfolding b0 b1 by simp
    from q b0 b1 le show ?thesis
      by blast
  qed
  from append_sleep_cmd_cases [OF a]
  have failed: "queue s' = queue s \<and> commands_in_queue s' = commands_in_queue s"
    if "ret \<noteq> ERROR_OK"
  proof (elim disjE conjE)
    assume "ulink_append_queue env ?cmd (s\<lparr>world := snd ?c2\<rparr>) = (ret, s')"
    from append_queue_failed [OF this that] show ?thesis
      by simp
  qed simp_all
  from append_sleep_cmd_cases [OF a]
  have w: "world s' =
      (if \<not> fst ?c1 then snd ?c1
       else if \<not> fst ?c2 then snd ?c2
       else if ulink_get_queue_size s PAYLOAD_DIRECTION_OUT + 3 \<le> 64
               \<and> ulink_get_queue_size s PAYLOAD_DIRECTION_IN \<le> 64
       then snd ?c2
       else if fst (ulink_execute_queued_commands env USB_TIMEOUT (s\<lparr>world := snd ?c2\<rparr>))
                 \<noteq> ERROR_OK
       then world (snd (ulink_execute_queued_commands env USB_TIMEOUT (s\<lparr>world := snd ?c2\<rparr>)))
       else world (snd (ulink_post_process_queue env
              (snd (ulink_execute_queued_commands env USB_TIMEOUT (s\<lparr>world := snd ?c2\<rparr>))))))"
  proof (elim disjE conjE)
    assume c: "fst ?c1" "fst ?c2"
      and app: "ulink_append_queue env ?cmd (s\<lparr>world := snd ?c2\<rparr>) = (ret, s')"
    from append_queue_world [OF app] c show ?thesis
      by (simp add: sz zeroed_cmd_def)
  qed simp_all
  from ok failed w show ?thesis
    by (simp add: Let_def)
qed

text \<open>
  The claim as the spec states it (every sleep request emits one sleep-us command) fails
  when the translator cannot complete: with no memory for the command, and with a full
  batch whose exchange fails, the result is \<open>ERROR_FAIL\<close> and no sleep-us command is
  in the queue.
\<close>

theorem sleep_counterexample:
  "ulink_queue_sleep sample_env_no_memory 1234 (sample_driver sample_world0)
     = (ERROR_FAIL, sample_driver sample_world0)
   \<and> queue (sample_driver sample_world0) = []
   \<and> ulink_queue_sleep sample_env 1234 sample_full_failing
     = (ERROR_FAIL,
        sample_full_failing
          \<lparr>world := sample_world0
             \<lparr>usb_log := [Bulk_Write 2 (2 # replicate 63 0) 64 5000],
              usb_write_fails := True\<rparr>\<rparr>)
   \<and> queue sample_full_failing = [sample_big_cmd]"
  by (simp add: ulink_queue_sleep_def ulink_append_sleep_cmd_def calloc_value_def
      ulink_allocate_payload_def ulink_append_queue_def ulink_get_queue_size_def
      ulink_execute_queued_commands_def out_bytes_def sample_id_byte_def
      USB_TIMEOUT_def USB_ENDPOINT_OUT_def Let_def set_payload_out_def
      sample_env_no_memory_def sample_full_failing_def sample_big_cmd_def
      sample_env_def sample_driver_def sample_world0_def zeroed_cmd_def)

theorem sleep_emits_sleep_us_witness:
  "fst (ulink_queue_sleep sample_env 1234 (sample_driver sample_world0)) = ERROR_OK
   \<and> queue (snd (ulink_queue_sleep sample_env 1234 (sample_driver sample_world0))) =
       [\<lparr>cmd_id = CMD_SLEEP_US, payload_out = Some [210, 4], payload_out_size = 2,
         payload_in_start = None, payload_in = None, payload_in_size = 0,
         needs_postprocessing = False, free_payload_in_start = False, cmd_origin = None\<rparr>]
   \<and> world (snd (ulink_queue_sleep sample_env 1234 (sample_driver sample_world0)))
       = sample_world0
   \<and> fst (ulink_queue_sleep sample_env 1234 sample_full_failing) = ERROR_FAIL
   \<and> queue (snd (ulink_queue_sleep sample_env 1234 sample_full_failing))
       = queue sample_full_failing
   \<and> world (snd (ulink_queue_sleep sample_env 1234 sample_full_failing))
       = sample_world0
           \<lparr>usb_log := [Bulk_Write 2 (2 # replicate 63 0) 64 5000],
            usb_write_fails := True\<rparr>"
proof -
  have q: "ulink_queue_sleep sample_env 1234 (sample_driver sample_world0) =
      (ERROR_OK,
       (sample_driver sample_world0)\<lparr>commands_in_queue := 1, queue :=
         [\<lparr>cmd_id = CMD_SLEEP_US, payload_out = Some [210, 4], payload_out_size = 2,
           payload_in_start = None, payload_in = None, payload_in_size = 0,
           needs_postprocessing = False, free_payload_in_start = False, cmd_origin = None\<rparr>]\<rparr>)"
    by (simp add: ulink_queue_sleep_def ulink_append_sleep_cmd_def calloc_value_def
        ulink_allocate_payload_def ulink_append_queue_def ulink_get_queue_size_def
        set_payload_out_def link_cmd_def replicate_two
        sample_env_def sample_driver_def sample_world0_def zeroed_cmd_def Let_def)
  have f: "ulink_queue_sleep sample_env 1234 sample_full_failing
      = (ERROR_FAIL,
         sample_full_failing
           \<lparr>world := sample_world0
              \<lparr>usb_log := [Bulk_Write 2 (2 # replicate 63 0) 64 5000],
               usb_write_fails := True\<rparr>\<rparr>)"
    by (simp add: ulink_queue_sleep_def ulink_append_sleep_cmd_def calloc_value_def
        ulink_allocate_payload_def ulink_append_queue_def ulink_get_queue_size_def
        ulink_execute_queued_commands_def out_bytes_def sample_id_byte_def
        USB_TIMEOUT_def USB_ENDPOINT_OUT_def Let_def set_payload_out_def
        sample_full_failing_def sample_big_cmd_def
        sample_env_def sample_driver_def sample_world0_def zeroed_cmd_def)
  from sleep_emits_sleep_us [OF q] sleep_emits_sleep_us [OF f] show ?thesis
    unfolding q f by (simp add: sample_driver_def)
qed

section \<open>The 64-byte bound of the queue\<close>

lemma get_queue_size_loop_acc:
  "get_queue_size_loop cs direction acc = acc + get_queue_size_loop cs direction 0"
proof (induction cs arbitrary: acc)
  case Nil
  show ?case by simp
next
  case (Cons c cs)
  show ?case
    using Cons.IH [of "acc + (uint (payload_out_size c) + 1)"]
      Cons.IH [of "uint (payload_out_size c) + 1"]
      Cons.IH [of "acc + uint (payload_in_size c)"]
      Cons.IH [of "uint (payload_in_size c)"]
    by (cases direction) simp_all
qed

lemma get_queue_size_loop_append:
  "get_queue_size_loop (cs @ [c]) direction acc =
     get_queue_size_loop cs direction acc
       + (case direction of PAYLOAD_DIRECTION_OUT \<Rightarrow> uint (payload_out_size c) + 1
          | PAYLOAD_DIRECTION_IN \<Rightarrow> uint (payload_in_size c))"
  by (induction cs arbitrary: acc) (simp_all split: ulink_payload_direction.splits)

lemma get_queue_size_sum_out:
  "ulink_get_queue_size device PAYLOAD_DIRECTION_OUT
     = (\<Sum>c\<leftarrow>queue device. uint (payload_out_size c) + 1)"
proof -
  have "get_queue_size_loop cs PAYLOAD_DIRECTION_OUT 0
      = (\<Sum>c\<leftarrow>cs. uint (payload_out_size c) + 1)" for cs
  proof (induction cs)
    case Nil
    show ?case by simp
  next
    case (Cons c cs)
    then show ?case
      using get_queue_size_loop_acc [of cs PAYLOAD_DIRECTION_OUT "uint (payload_out_size c) + 1"]
      by simp
  qed
  then show ?thesis
    by (simp add: ulink_get_queue_size_def)
qed

lemma get_queue_size_sum_in:
  "ulink_get_queue_size device PAYLOAD_DIRECTION_IN
     = (\<Sum>c\<leftarrow>queue device. uint (payload_in_size c))"
proof -
  have "get_queue_size_loop cs PAYLOAD_DIRECTION_IN 0
      = (\<Sum>c\<leftarrow>cs. uint (payload_in_size c))" for cs
  proof (induction cs)
    case Nil
    show ?case by simp
  next
    case (Cons c cs)
    then show ?case
      using get_queue_size_loop_acc [of cs PAYLOAD_DIRECTION_IN "uint (payload_in_size c)"]
      by simp
  qed
  then show ?thesis
    by (simp add: ulink_get_queue_size_def)
qed

lemma get_queue_size_link_cmd:
  "ulink_get_queue_size (link_cmd c s) PAYLOAD_DIRECTION_OUT
     = ulink_get_queue_size s PAYLOAD_DIRECTION_OUT + uint (payload_out_size c) + 1"
  "ulink_get_queue_size (link_cmd c s) PAYLOAD_DIRECTION_IN
     = ulink_get_queue_size s PAYLOAD_DIRECTION_IN + uint (payload_in_size c)"
  by (simp_all add: get_queue_size_sum_out get_queue_size_sum_in)

lemma get_queue_size_clear [simp]:
  "ulink_get_queue_size (ulink_clear_queue s) direction = 0"
  by (simp add: ulink_get_queue_size_def)

text \<open>One append keeps the bound.\<close>

lemma append_queue_keeps_bound:
  assumes out: "ulink_get_queue_size s PAYLOAD_DIRECTION_OUT \<le> 64"
    and inb: "ulink_get_queue_size s PAYLOAD_DIRECTION_IN \<le> 64"
    and c_out: "uint (payload_out_size c) \<le> 63"
    and c_in: "uint (payload_in_size c) \<le> 64"
    and run: "ulink_append_queue env c s = (ret, s')"
  shows "ulink_get_queue_size s' PAYLOAD_DIRECTION_OUT \<le> 64
       \<and> ulink_get_queue_size s' PAYLOAD_DIRECTION_IN \<le> 64"
proof (cases "ulink_get_queue_size s PAYLOAD_DIRECTION_OUT + 1 + uint (payload_out_size c) > 64
    \<or> ulink_get_queue_size s PAYLOAD_DIRECTION_IN + uint (payload_in_size c) > 64")
  case False
  with run have "s' = link_cmd c s"
    by (auto simp: ulink_append_queue_def Let_def)
  with False show ?thesis
    by (simp add: get_queue_size_link_cmd)
next
  case True
  obtain r1 d1 where e: "ulink_execute_queued_commands env USB_TIMEOUT s = (r1, d1)"
    by (metis surj_pair)
  obtain r2 d2 where p: "ulink_post_process_queue env d1 = (r2, d2)"
    by (metis surj_pair)
  from execute_fields [OF e] have q1: "queue d1 = queue s"
    by simp
  from post_process_queue_fields [OF p] q1 have q2: "queue d2 = queue s"
    by simp
  from run True e p
  consider "s' = d1" | "s' = d2" | "s' = link_cmd c (ulink_clear_queue d2)"
    by (auto simp: ulink_append_queue_def Let_def split: if_splits)
  then show ?thesis
  proof cases
    case 1
    have "ulink_get_queue_size d1 direction = ulink_get_queue_size s direction" for direction
      using q1 by (rule get_queue_size_cong)
    with 1 out inb show ?thesis
      by simp
  next
    case 2
    have "ulink_get_queue_size d2 direction = ulink_get_queue_size s direction" for direction
      using q2 by (rule get_queue_size_cong)
    with 2 out inb show ?thesis
      by simp
  next
    case 3
    with c_out c_in show ?thesis
      by (simp add: get_queue_size_link_cmd)
  qed
qed

lemma reachable_bound:
  "reachable env device \<Longrightarrow>
     ulink_get_queue_size device PAYLOAD_DIRECTION_OUT \<le> 64
     \<and> ulink_get_queue_size device PAYLOAD_DIRECTION_IN \<le> 64"
proof (induction rule: reachable.induct)
  case (reachable_clear device)
  show ?case by simp
next
  case (reachable_append device ulink_cmd)
  obtain ret s' where r: "ulink_append_queue env ulink_cmd device = (ret, s')"
    by (metis surj_pair)
  from reachable_append.IH reachable_append.hyps(2,3) r
  have "ulink_get_queue_size s' PAYLOAD_DIRECTION_OUT \<le> 64
       \<and> ulink_get_queue_size s' PAYLOAD_DIRECTION_IN \<le> 64"
    by (intro append_queue_keeps_bound [of device ulink_cmd env ret s']) simp_all
  with r show ?case by simp
qed

text \<open>
  C1.  In every driver state reached from an empty queue by appending commands of at
  most 63 OUT bytes and at most 64 IN bytes, the queue size that the driver computes is
  the sum of \<open>payload_out_size + 1\<close> (of \<open>payload_in_size\<close>) over the queued commands,
  and both sums are at most 64.  A command that would break either bound is appended
  only after the queue has been executed, post-processed and cleared, in this order; a
  failure of one of the first two is returned at once.
\<close>

theorem queue_within_64_bytes:
  assumes "reachable env device"
  shows "ulink_get_queue_size device PAYLOAD_DIRECTION_OUT
           = (\<Sum>c\<leftarrow>queue device. uint (payload_out_size c) + 1)
       \<and> ulink_get_queue_size device PAYLOAD_DIRECTION_IN
           = (\<Sum>c\<leftarrow>queue device. uint (payload_in_size c))
       \<and> (\<Sum>c\<leftarrow>queue device. uint (payload_out_size c) + 1) \<le> 64
       \<and> (\<Sum>c\<leftarrow>queue device. uint (payload_in_size c)) \<le> 64
       \<and> (\<forall>ulink_cmd.
            (\<Sum>c\<leftarrow>queue device. uint (payload_out_size c) + 1) + 1
                + uint (payload_out_size ulink_cmd) > 64
            \<or> (\<Sum>c\<leftarrow>queue device. uint (payload_in_size c))
                + uint (payload_in_size ulink_cmd) > 64
            \<longrightarrow>
            ulink_append_queue env ulink_cmd device =
              (case ulink_execute_queued_commands env USB_TIMEOUT device of
                 (ret, d1) \<Rightarrow>
                   if ret \<noteq> ERROR_OK then (ret, d1)
                   else
                     (case ulink_post_process_queue env d1 of
                        (ret, d2) \<Rightarrow>
                          if ret \<noteq> ERROR_OK then (ret, d2)
                          else (ERROR_OK,
                                (ulink_clear_queue d2)
                                  \<lparr>commands_in_queue := 1, queue := [ulink_cmd]\<rparr>))))"
proof -
  have flush: "ulink_append_queue env ulink_cmd device =
      (case ulink_execute_queued_commands env USB_TIMEOUT device of
         (ret, d1) \<Rightarrow>
           if ret \<noteq> ERROR_OK then (ret, d1)
           else
             (case ulink_post_process_queue env d1 of
                (ret, d2) \<Rightarrow>
                  if ret \<noteq> ERROR_OK then (ret, d2)
                  else (ERROR_OK,
                        (ulink_clear_queue d2)\<lparr>commands_in_queue := 1, queue := [ulink_cmd]\<rparr>)))"
    if "(\<Sum>c\<leftarrow>queue device. uint (payload_out_size c) + 1) + 1
          + uint (payload_out_size ulink_cmd) > 64
        \<or> (\<Sum>c\<leftarrow>queue device. uint (payload_in_size c))
          + uint (payload_in_size ulink_cmd) > 64" for ulink_cmd
    using that
    by (simp add: ulink_append_queue_def Let_def link_cmd_def
        get_queue_size_sum_out get_queue_size_sum_in split: prod.splits)
  from reachable_bound [OF assms] flush show ?thesis
    by (simp add: get_queue_size_sum_out get_queue_size_sum_in)
qed

theorem queue_within_64_bytes_witness:
  "(\<Sum>c\<leftarrow>queue sample_full. uint (payload_out_size c) + 1) = 64 \<and>
   (\<Sum>c\<leftarrow>queue sample_full. uint (payload_in_size c)) = 0 \<and>
   fst (ulink_append_queue sample_env sample_tms_cmd sample_full) = ERROR_OK \<and>
   queue (snd (ulink_append_queue sample_env sample_tms_cmd sample_full)) = [sample_tms_cmd] \<and>
   usb_log (world (snd (ulink_append_queue sample_env sample_tms_cmd sample_full)))
     = [Bulk_Write 2 (2 # replicate 63 0) 64 5000]"
proof -
  have full: "sample_full =
      (sample_driver sample_world0)\<lparr>commands_in_queue := 1, queue := [sample_big_cmd]\<rparr>"
    by (simp add: sample_full_def ulink_append_queue_def ulink_clear_queue_def
        ulink_get_queue_size_def link_cmd_def sample_driver_def Let_def
        sample_big_cmd_def zeroed_cmd_def)
  have r: "reachable sample_env sample_full"
    unfolding sample_full_def
    by (rule reachable_append [OF reachable_clear])
      (simp_all add: sample_big_cmd_def zeroed_cmd_def)
  have big: "queue sample_full = [sample_big_cmd]"
    by (simp add: full)
  have sizes: "uint (payload_out_size sample_big_cmd) = 63"
      "uint (payload_in_size sample_big_cmd) = 0"
      "uint (payload_out_size sample_tms_cmd) = 2"
      "uint (payload_in_size sample_tms_cmd) = 0"
    by (simp_all add: sample_big_cmd_def sample_tms_cmd_def zeroed_cmd_def)
  have ex: "ulink_execute_queued_commands sample_env USB_TIMEOUT sample_full =
      (ERROR_OK, sample_full\<lparr>world := sample_world0\<lparr>usb_log :=
         [Bulk_Write 2 (2 # replicate 63 0) 64 5000]\<rparr>\<rparr>)"
    by (simp add: ulink_execute_queued_commands_def full sample_driver_def sample_env_def
        sample_world0_def sample_big_cmd_def zeroed_cmd_def out_bytes_def sample_id_byte_def
        USB_TIMEOUT_def USB_ENDPOINT_OUT_def)
  have pp: "ulink_post_process_queue sample_env
        (sample_full\<lparr>world := sample_world0\<lparr>usb_log :=
           [Bulk_Write 2 (2 # replicate 63 0) 64 5000]\<rparr>\<rparr>) =
      (ERROR_OK, sample_full\<lparr>world := sample_world0\<lparr>usb_log :=
         [Bulk_Write 2 (2 # replicate 63 0) 64 5000]\<rparr>\<rparr>)"
    by (simp add: ulink_post_process_queue_def full sample_big_cmd_def zeroed_cmd_def)
  from queue_within_64_bytes [OF r]
  have "ulink_append_queue sample_env sample_tms_cmd sample_full =
      (ERROR_OK,
       (ulink_clear_queue (sample_full\<lparr>world := sample_world0\<lparr>usb_log :=
           [Bulk_Write 2 (2 # replicate 63 0) 64 5000]\<rparr>\<rparr>))
         \<lparr>commands_in_queue := 1, queue := [sample_tms_cmd]\<rparr>)"
    by (simp add: big sizes ex pp)
  then show ?thesis
    by (simp add: big sizes)
qed

section \<open>Errors in \<open>ulink_execute_queue\<close>\<close>

lemma execute_queue_loop_append:
  "execute_queue_loop env before s = Return (ERROR_OK, s1) \<Longrightarrow>
     execute_queue_loop env (before @ rest) s = execute_queue_loop env rest s1"
proof (induction before arbitrary: s)
  case Nil
  then show ?case by simp
next
  case (Cons c before)
  show ?case
  proof (cases "queue_command env c s")
    case Exit_Failure
    with Cons.prems show ?thesis by simp
  next
    case (Return r)
    obtain ret s0 where r: "r = (ret, s0)"
      by (metis surj_pair)
    show ?thesis
    proof (cases "ret = ERROR_OK")
      case True
      with Cons.prems Return r have "execute_queue_loop env before s0 = Return (ERROR_OK, s1)"
        by simp
      from Cons.IH [OF this] Return r True show ?thesis
        by simp
    next
      case False
      with Cons.prems Return r show ?thesis
        by simp
    qed
  qed
qed

lemma execute_queue_translator_error:
  assumes "execute_queue_loop env before s = Return (ERROR_OK, s1)"
    and "queue_command env cmd s1 = Return (ret, s2)"
    and "ret \<noteq> ERROR_OK"
  shows "ulink_execute_queue env (before @ cmd # rest) s = Return (ret, s2)"
proof -
  from assms(2,3) have "execute_queue_loop env (cmd # rest) s1 = Return (ret, s2)"
    by simp
  with execute_queue_loop_append [OF assms(1), of "cmd # rest"]
  have "execute_queue_loop env (before @ cmd # rest) s = Return (ret, s2)"
    by simp
  with assms(3) show ?thesis
    by (simp add: ulink_execute_queue_def)
qed

lemma execute_queue_transport_error:
  assumes "execute_queue_loop env cmds s = Return (ERROR_OK, s1)"
    and "commands_in_queue s1 > 0"
    and "ulink_execute_queued_commands env USB_TIMEOUT s1 = (ret, s2)"
    and "ret \<noteq> ERROR_OK"
  shows "ulink_execute_queue env cmds s = Return (ret, s2) \<and> queue s2 = queue s1"
  using assms execute_fields [OF assms(3)] by (simp add: ulink_execute_queue_def)

lemma execute_queue_post_process_error:
  assumes "execute_queue_loop env cmds s = Return (ERROR_OK, s1)"
    and "commands_in_queue s1 > 0"
    and "ulink_execute_queued_commands env USB_TIMEOUT s1 = (ERROR_OK, s2)"
    and "ulink_post_process_queue env s2 = (ret, s3)"
    and "ret \<noteq> ERROR_OK"
  shows "ulink_execute_queue env cmds s = Return (ret, s3) \<and> queue s3 = queue s1"
  using assms execute_fields [OF assms(3)] post_process_queue_fields [OF assms(4)]
  by (simp add: ulink_execute_queue_def)

text \<open>
  C4, as the code has it.  \<open>ulink_execute_queue\<close> is fail-fast: when the translator
  of a request returns a result other than \<open>ERROR_OK\<close>, the requests after it are not
  processed and that result is returned, with the driver state as the translator left
  it.  When the final exchange or the final post-processing fails, its result is
  returned.  In neither case is the queue cleared: after a failed final flush it still
  holds the commands of the batch.
\<close>

theorem execute_queue_fail_fast:
  "(execute_queue_loop env before s = Return (ERROR_OK, s1)
      \<and> queue_command env cmd s1 = Return (ret, s2) \<and> ret \<noteq> ERROR_OK
    \<longrightarrow> ulink_execute_queue env (before @ cmd # rest) s = Return (ret, s2))
   \<and> (execute_queue_loop env cmds t = Return (ERROR_OK, t1) \<and> commands_in_queue t1 > 0
      \<and> ulink_execute_queued_commands env USB_TIMEOUT t1 = (ret', t2) \<and> ret' \<noteq> ERROR_OK
    \<longrightarrow> ulink_execute_queue env cmds t = Return (ret', t2) \<and> queue t2 = queue t1)
   \<and> (execute_queue_loop env cmds t = Return (ERROR_OK, t1) \<and> commands_in_queue t1 > 0
      \<and> ulink_execute_queued_commands env USB_TIMEOUT t1 = (ERROR_OK, t2)
      \<and> ulink_post_process_queue env t2 = (ret'', t3) \<and> ret'' \<noteq> ERROR_OK
    \<longrightarrow> ulink_execute_queue env cmds t = Return (ret'', t3) \<and> queue t3 = queue t1)"
  using execute_queue_translator_error [of env before s s1 cmd ret s2 rest]
    execute_queue_transport_error [of env cmds t t1 ret' t2]
    execute_queue_post_process_error [of env cmds t t1 t2 ret'' t3]
  by blast

text \<open>
  The claim as the spec states it (after an error the queue is left empty) fails: a
  sleep request on an adapter that fails the bulk write returns \<open>ERROR_FAIL\<close> with the
  sleep-us command still queued.
\<close>

theorem execute_queue_counterexample:
  "ulink_execute_queue sample_env [JTAG_SLEEP 1234]
       (sample_driver (sample_world0\<lparr>usb_write_fails := True\<rparr>))
     = Return (ERROR_FAIL,
         (sample_driver
            (sample_world0\<lparr>usb_log := [Bulk_Write 2 [10, 210, 4] 3 5000],
                           usb_write_fails := True\<rparr>))
           \<lparr>commands_in_queue := 1, queue := [sample_sleep_cmd]\<rparr>)
   \<and> [sample_sleep_cmd] \<noteq> []"
  by (simp add: ulink_execute_queue_def queue_command_def
      ulink_queue_sleep_def ulink_append_sleep_cmd_def calloc_value_def
      ulink_allocate_payload_def ulink_append_queue_def ulink_get_queue_size_def
      ulink_execute_queued_commands_def out_bytes_def sample_id_byte_def
      set_payload_out_def link_cmd_def replicate_two sample_sleep_cmd_def
      USB_TIMEOUT_def USB_ENDPOINT_OUT_def
      sample_env_def sample_driver_def sample_world0_def zeroed_cmd_def Let_def)

theorem execute_queue_fail_fast_witness:
  "ulink_execute_queue sample_env [JTAG_SLEEP 1234, JTAG_OTHER, JTAG_TLR_RESET]
       (sample_driver sample_world0)
     = Return (ERROR_FAIL,
         (sample_driver sample_world0)\<lparr>commands_in_queue := 1, queue := [sample_sleep_cmd]\<rparr>)
   \<and> ulink_execute_queue sample_env [JTAG_SLEEP 1234]
       (sample_driver (sample_world0\<lparr>usb_write_fails := True\<rparr>))
     = Return (ERROR_FAIL,
         (sample_driver
            (sample_world0\<lparr>usb_log := [Bulk_Write 2 [10, 210, 4] 3 5000],
                           usb_write_fails := True\<rparr>))
           \<lparr>commands_in_queue := 1, queue := [sample_sleep_cmd]\<rparr>)
   \<and> ulink_execute_queue sample_env [] sample_bad_origin
     = Return (ERROR_FAIL,
         sample_bad_origin\<lparr>world := sample_world0\<lparr>usb_log := [Bulk_Write 2 [6, 5, 255] 3 5000]\<rparr>\<rparr>)"
proof -
  let ?w = "sample_world0\<lparr>usb_write_fails := True\<rparr>"
  let ?q = "\<lambda>w. (sample_driver w)\<lparr>commands_in_queue := 1, queue := [sample_sleep_cmd]\<rparr>"
  have sleep: "queue_command sample_env (JTAG_SLEEP 1234) (sample_driver w) = Return (ERROR_OK, ?q w)"
    for w
    by (simp add: queue_command_def
        ulink_queue_sleep_def ulink_append_sleep_cmd_def calloc_value_def
        ulink_allocate_payload_def ulink_append_queue_def ulink_get_queue_size_def
        set_payload_out_def link_cmd_def replicate_two sample_sleep_cmd_def
        sample_env_def sample_driver_def zeroed_cmd_def Let_def)
  have loop1: "execute_queue_loop sample_env [JTAG_SLEEP 1234] (sample_driver w)
      = Return (ERROR_OK, ?q w)" for w
    by (simp add: sleep)
  have other: "queue_command sample_env JTAG_OTHER (?q sample_world0)
      = Return (ERROR_FAIL, ?q sample_world0)"
    by (simp add: queue_command_def)
  have a: "ulink_execute_queue sample_env ([JTAG_SLEEP 1234] @ JTAG_OTHER # [JTAG_TLR_RESET])
       (sample_driver sample_world0) = Return (ERROR_FAIL, ?q sample_world0)"
    using execute_queue_fail_fast [THEN conjunct1, rule_format, of sample_env "[JTAG_SLEEP 1234]"
        "sample_driver sample_world0" "?q sample_world0" JTAG_OTHER ERROR_FAIL "?q sample_world0"
        "[JTAG_TLR_RESET]"] loop1 other
    by simp
  have ex: "ulink_execute_queued_commands sample_env USB_TIMEOUT (?q ?w)
      = (ERROR_FAIL, (?q ?w)\<lparr>world := ?w\<lparr>usb_log := [Bulk_Write 2 [10, 210, 4] 3 5000]\<rparr>\<rparr>)"
    by (simp add: ulink_execute_queued_commands_def out_bytes_def sample_id_byte_def
        sample_sleep_cmd_def USB_TIMEOUT_def USB_ENDPOINT_OUT_def
        sample_env_def sample_driver_def sample_world0_def zeroed_cmd_def)
  have b: "ulink_execute_queue sample_env [JTAG_SLEEP 1234] (sample_driver ?w)
      = Return (ERROR_FAIL, (?q ?w)\<lparr>world := ?w\<lparr>usb_log := [Bulk_Write 2 [10, 210, 4] 3 5000]\<rparr>\<rparr>)"
    using execute_queue_fail_fast [THEN conjunct2, THEN conjunct1, rule_format,
        of sample_env "[JTAG_SLEEP 1234]" "sample_driver ?w" "?q ?w" ERROR_FAIL
        "(?q ?w)\<lparr>world := ?w\<lparr>usb_log := [Bulk_Write 2 [10, 210, 4] 3 5000]\<rparr>\<rparr>"]
      loop1 [of ?w] ex
    by (simp add: sample_driver_def)
  have ex3: "ulink_execute_queued_commands sample_env USB_TIMEOUT sample_bad_origin
      = (ERROR_OK,
         sample_bad_origin\<lparr>world := sample_world0\<lparr>usb_log := [Bulk_Write 2 [6, 5, 255] 3 5000]\<rparr>\<rparr>)"
    by (simp add: ulink_execute_queued_commands_def out_bytes_def sample_id_byte_def
        sample_bad_origin_def sample_tms_cmd_def USB_TIMEOUT_def USB_ENDPOINT_OUT_def
        sample_env_def sample_driver_def sample_world0_def zeroed_cmd_def)
  have pp3: "ulink_post_process_queue sample_env
        (sample_bad_origin\<lparr>world := sample_world0\<lparr>usb_log := [Bulk_Write 2 [6, 5, 255] 3 5000]\<rparr>\<rparr>)
      = (ERROR_FAIL,
         sample_bad_origin\<lparr>world := sample_world0\<lparr>usb_log := [Bulk_Write 2 [6, 5, 255] 3 5000]\<rparr>\<rparr>)"
    by (simp add: ulink_post_process_queue_def sample_bad_origin_def sample_tms_cmd_def
        sample_driver_def zeroed_cmd_def)
  have c: "ulink_execute_queue sample_env [] sample_bad_origin
      = Return (ERROR_FAIL,
         sample_bad_origin\<lparr>world := sample_world0\<lparr>usb_log := [Bulk_Write 2 [6, 5, 255] 3 5000]\<rparr>\<rparr>)"
    using execute_queue_fail_fast [THEN conjunct2, THEN conjunct2, rule_format,
        of sample_env "[]" sample_bad_origin sample_bad_origin
        "sample_bad_origin\<lparr>world := sample_world0\<lparr>usb_log := [Bulk_Write 2 [6, 5, 255] 3 5000]\<rparr>\<rparr>"
        ERROR_FAIL
        "sample_bad_origin\<lparr>world := sample_world0\<lparr>usb_log := [Bulk_Write 2 [6, 5, 255] 3 5000]\<rparr>\<rparr>"]
      ex3 pp3
    by (simp add: sample_bad_origin_def)
  from a b c show ?thesis
    by (simp add: sample_driver_def)
qed

section \<open>The USB exchange\<close>

text \<open>The first loop: packet and byte counts.\<close>

lemma pack_loop_eq:
  "pack_loop env cs (buffer, count_out, count_in) =
     (buffer @ concat (map (\<lambda>c. cmd_id_byte env (cmd_id c) # out_bytes c) cs),
      count_out + (\<Sum>c\<leftarrow>cs. uint (payload_out_size c) + 1),
      count_in + (\<Sum>c\<leftarrow>cs. uint (payload_in_size c)))"
  by (induction cs arbitrary: buffer count_out count_in) simp_all

lemma packet_length:
  assumes "\<forall>c\<in>set cs. length (out_bytes c) = unat (payload_out_size c)"
  shows "int (length (concat (map (\<lambda>c. cmd_id_byte env (cmd_id c) # out_bytes c) cs)))
           = (\<Sum>c\<leftarrow>cs. uint (payload_out_size c) + 1)"
  using assms by (induction cs) simp_all

lemma sum_list_uint_nonneg:
  "0 \<le> (\<Sum>c\<leftarrow>cs. uint (f c))" "0 \<le> (\<Sum>c\<leftarrow>cs. uint (f c) + 1)"
  by (induction cs) simp_all

lemma in_bytes_int: "int (in_bytes cs) = (\<Sum>c\<leftarrow>cs. uint (payload_in_size c))"
  by (induction cs) (simp_all add: in_bytes_def)

lemma in_bytes_simps [simp]:
  "in_bytes [] = 0"
  "in_bytes (c # cs) = unat (payload_in_size c) + in_bytes cs"
  "in_bytes (cs @ ds) = in_bytes cs + in_bytes ds"
  by (simp_all add: in_bytes_def)

text \<open>The exchange, case by case.\<close>

lemma execute_queued_commands_cases:
  "ulink_execute_queued_commands env timeout device =
     (case usb_bulk_write env 2
             (concat (map (\<lambda>c. cmd_id_byte env (cmd_id c) # out_bytes c) (queue device)))
             (\<Sum>c\<leftarrow>queue device. uint (payload_out_size c) + 1) timeout (world device) of
        (written, w1) \<Rightarrow>
          if written \<noteq> (\<Sum>c\<leftarrow>queue device. uint (payload_out_size c) + 1)
          then (ERROR_FAIL, device\<lparr>world := w1\<rparr>)
          else if (\<Sum>c\<leftarrow>queue device. uint (payload_in_size c)) = 0
          then (ERROR_OK, device\<lparr>world := w1\<rparr>)
          else
            (case usb_bulk_read env 130 64 timeout w1 of
               ((got, received), w2) \<Rightarrow>
                 if got \<noteq> (\<Sum>c\<leftarrow>queue device. uint (payload_in_size c))
                 then (ERROR_FAIL, device\<lparr>world := w2\<rparr>)
                 else (ERROR_OK,
                       device\<lparr>heap := write_back_loop (queue device) received 0 (heap device),
                              world := w2\<rparr>)))"
proof -
  have nn: "0 \<le> (\<Sum>c\<leftarrow>queue device. uint (payload_out_size c) + 1)"
      "0 \<le> (\<Sum>c\<leftarrow>queue device. uint (payload_in_size c))"
    by (rule sum_list_uint_nonneg)+
  have ep: "(2 :: int) OR USB_ENDPOINT_OUT = 2" "(2 :: int) OR USB_ENDPOINT_IN = 130"
    by (simp_all add: USB_ENDPOINT_OUT_def USB_ENDPOINT_IN_def)
  show ?thesis
    using nn
    by (auto simp: ulink_execute_queued_commands_def pack_loop_eq ep split: prod.splits)
qed

text \<open>The second loop: what a write leaves alone, and what it stores.\<close>

lemma splice_region:
  fixes blk bs :: "'a list"
  assumes fits: "off' + length bs \<le> length blk"
    and apart: "off + n \<le> off' \<or> off' + length bs \<le> off"
  shows "take n (drop off (take off' blk @ bs @ drop (off' + length bs) blk))
           = take n (drop off blk)"
proof -
  define new where "new = take off' blk @ bs @ drop (off' + length bs) blk"
  have len: "length new = length blk"
    using fits by (simp add: new_def)
  have nth: "new ! j = blk ! j" if "j < length blk" "j < off' \<or> off' + length bs \<le> j" for j
  proof -
    from that(2) show ?thesis
    proof
      assume "j < off'"
      with that(1) show ?thesis
        by (simp add: new_def nth_append)
    next
      assume a: "off' + length bs \<le> j"
      have pl: "length (take off' blk @ bs) = off' + length bs"
        using fits by simp
      have "new = (take off' blk @ bs) @ drop (off' + length bs) blk"
        by (simp add: new_def)
      then have "new ! j = drop (off' + length bs) blk ! (j - length (take off' blk @ bs))"
        using a pl by (simp only: nth_append_right)
      also have "\<dots> = drop (off' + length bs) blk ! (j - (off' + length bs))"
        by (simp only: pl)
      also from a that(1) have "\<dots> = blk ! j"
        by simp
      finally show ?thesis .
    qed
  qed
  have "take n (drop off new) = take n (drop off blk)"
  proof (rule nth_equalityI)
    show "length (take n (drop off new)) = length (take n (drop off blk))"
      by (simp only: length_take length_drop len)
  next
    fix i
    assume "i < length (take n (drop off new))"
    then have i: "i < n" "off + i < length blk"
      by (auto simp: len)
    with apart have "off + i < off' \<or> off' + length bs \<le> off + i"
      by auto
    with i have "new ! (off + i) = blk ! (off + i)"
      by (intro nth) simp_all
    with i show "take n (drop off new) ! i = take n (drop off blk) ! i"
      by (simp add: len)
  qed
  then show ?thesis
    by (simp only: new_def)
qed

lemma store_bytes_length:
  "map_option length (store_bytes p bs h b) = map_option length (h b)"
  by (auto simp: store_bytes_def split: option.splits)

lemma store_bytes_other_region:
  assumes "case p of None \<Rightarrow> True
           | Some (b', off') \<Rightarrow> b' \<noteq> b \<or> off + n \<le> off' \<or> off' + length bs \<le> off"
  shows "map_option (\<lambda>blk. take n (drop off blk)) (store_bytes p bs h b)
           = map_option (\<lambda>blk. take n (drop off blk)) (h b)"
proof (cases p)
  case None
  then show ?thesis
    by (simp add: store_bytes_def)
next
  case (Some q)
  obtain b' off' where q: "q = (b', off')"
    by (cases q)
  show ?thesis
  proof (cases "b' = b")
    case False
    with Some q show ?thesis
      by (simp add: store_bytes_def split: option.splits)
  next
    case True
    show ?thesis
    proof (cases "h b")
      case None
      with Some q True show ?thesis
        by (simp add: store_bytes_def)
    next
      case (Some blk)
      show ?thesis
      proof (cases "off' + length bs \<le> length blk")
        case False
        with \<open>p = Some q\<close> q True Some show ?thesis
          by (simp add: store_bytes_def)
      next
        case fits: True
        from assms \<open>p = Some q\<close> q True have "off + n \<le> off' \<or> off' + length bs \<le> off"
          by simp
        with fits have "take n (drop off (take off' blk @ bs @ drop (off' + length bs) blk))
            = take n (drop off blk)"
          by (rule splice_region)
        moreover have "store_bytes p bs h b
            = Some (take off' blk @ bs @ drop (off' + length bs) blk)"
          using \<open>p = Some q\<close> q True Some fits by (simp add: store_bytes_def)
        ultimately show ?thesis
          using Some by (simp only: option.map)
      qed
    qed
  qed
qed

lemma store_bytes_same_region:
  assumes "h b = Some blk" and "off + length bs \<le> length blk"
  shows "map_option (\<lambda>blk. take (length bs) (drop off blk)) (store_bytes (Some (b, off)) bs h b)
           = Some bs"
  using assms by (simp add: store_bytes_def)

lemma write_back_loop_length:
  "map_option length (write_back_loop cs buffer idx h b) = map_option length (h b)"
  by (induction cs arbitrary: idx h) (simp_all add: store_bytes_length)

lemma write_back_loop_other_region:
  assumes "\<forall>c'\<in>set cs. case payload_in c' of None \<Rightarrow> True
             | Some (b', off') \<Rightarrow>
                 b' \<noteq> b \<or> off + n \<le> off' \<or> off' + unat (payload_in_size c') \<le> off"
  shows "map_option (\<lambda>blk. take n (drop off blk)) (write_back_loop cs buffer idx h b)
           = map_option (\<lambda>blk. take n (drop off blk)) (h b)"
  using assms
proof (induction cs arbitrary: idx h)
  case Nil
  show ?case by simp
next
  case (Cons c cs)
  let ?bs = "take (unat (payload_in_size c)) (drop idx buffer)"
  have "case payload_in c of None \<Rightarrow> True
        | Some (b', off') \<Rightarrow> b' \<noteq> b \<or> off + n \<le> off' \<or> off' + length ?bs \<le> off"
    using Cons.prems by (auto split: option.splits)
  then have "map_option (\<lambda>blk. take n (drop off blk)) (store_bytes (payload_in c) ?bs h b)
      = map_option (\<lambda>blk. take n (drop off blk)) (h b)"
    by (rule store_bytes_other_region)
  with Cons.IH [of "idx + unat (payload_in_size c)" "store_bytes (payload_in c) ?bs h"] Cons.prems
  show ?case
    by simp
qed

lemma write_back_loop_append:
  "write_back_loop (cs @ ds) buffer idx h
     = write_back_loop ds buffer (idx + in_bytes cs) (write_back_loop cs buffer idx h)"
  by (induction cs arbitrary: idx h) (simp_all add: add.assoc)

text \<open>
  After the second loop the view of a command holds its share of the received bytes,
  provided the view lies inside its block and no later command writes into it.
\<close>

lemma write_back_loop_view:
  assumes pin: "payload_in c = Some (b, off)"
    and blk: "h b = Some block"
    and inside: "off + unat (payload_in_size c) \<le> length block"
    and later: "\<forall>c'\<in>set post. views_disjoint c c'"
    and enough: "in_bytes (pre @ [c]) \<le> length buffer"
  shows "view_bytes c (write_back_loop (pre @ c # post) buffer 0 h)
           = Some (take (unat (payload_in_size c)) (drop (in_bytes pre) buffer))"
proof -
  let ?n = "unat (payload_in_size c)"
  let ?bs = "take ?n (drop (in_bytes pre) buffer)"
  let ?h1 = "write_back_loop pre buffer 0 h"
  let ?h2 = "store_bytes (payload_in c) ?bs ?h1"
  have len: "length ?bs = ?n"
    using enough by simp
  from write_back_loop_length [of pre buffer 0 h b] blk
  obtain block1 where b1: "?h1 b = Some block1" and l1: "length block1 = length block"
    by (cases "?h1 b") auto
  have stored: "map_option (\<lambda>blk. take ?n (drop off blk)) (?h2 b) = Some ?bs"
    using store_bytes_same_region [of ?h1 b block1 off ?bs] b1 inside l1 len pin by simp
  have "\<forall>c'\<in>set post. case payload_in c' of None \<Rightarrow> True
      | Some (b', off') \<Rightarrow> b' \<noteq> b \<or> off + ?n \<le> off' \<or> off' + unat (payload_in_size c') \<le> off"
    using later pin by (auto simp: views_disjoint_def view_of_def split: option.splits)
  then have "map_option (\<lambda>blk. take ?n (drop off blk))
        (write_back_loop post buffer (in_bytes pre + ?n) ?h2 b)
      = map_option (\<lambda>blk. take ?n (drop off blk)) (?h2 b)"
    by (rule write_back_loop_other_region)
  with stored have "map_option (\<lambda>blk. take ?n (drop off blk))
        (write_back_loop (pre @ c # post) buffer 0 h b) = Some ?bs"
    by (simp add: write_back_loop_append)
  then show ?thesis
    using pin by (auto simp: view_bytes_def load_bytes_def split: option.splits)
qed

text \<open>
  C6, as the code has it.  The packet is \<open>[id, payload_out...]\<close> of every command in
  queue order and, the payloads being as long as their sizes say, has \<open>count_out\<close>
  bytes; it is written to endpoint 2 with size \<open>count_out\<close>.  A result other than
  \<open>count_out\<close> is an error, and no read follows.  A bulk read follows exactly when the
  write went through and \<open>count_in\<close> is not zero; it asks for 64 bytes, the size of the
  buffer, and any result other than \<open>count_in\<close> is an error.  On success the second loop
  hands the received bytes to the commands in queue order: the view of each command then
  holds its \<open>payload_in_size\<close> bytes, those after the bytes of the commands before it,
  provided the view lies inside its buffer and no later command of the batch writes into
  it.
\<close>

theorem execute_queued_commands_exchange:
  "(let packet = concat (map (\<lambda>c. cmd_id_byte env (cmd_id c) # out_bytes c) (queue device));
        count_out = (\<Sum>c\<leftarrow>queue device. uint (payload_out_size c) + 1);
        count_in = (\<Sum>c\<leftarrow>queue device. uint (payload_in_size c))
    in
      ((\<forall>c\<in>set (queue device). length (out_bytes c) = unat (payload_out_size c))
         \<longrightarrow> int (length packet) = count_out)
      \<and> ulink_execute_queued_commands env timeout device =
          (case usb_bulk_write env 2 packet count_out timeout (world device) of
             (written, w1) \<Rightarrow>
               if written \<noteq> count_out then (ERROR_FAIL, device\<lparr>world := w1\<rparr>)
               else if count_in = 0 then (ERROR_OK, device\<lparr>world := w1\<rparr>)
               else
                 (case usb_bulk_read env 130 64 timeout w1 of
                    ((got, received), w2) \<Rightarrow>
                      if got \<noteq> count_in then (ERROR_FAIL, device\<lparr>world := w2\<rparr>)
                      else (ERROR_OK,
                            device\<lparr>heap := write_back_loop (queue device) received 0 (heap device),
                                   world := w2\<rparr>)))
      \<and> (\<forall>pre c post b off block received.
            queue device = pre @ c # post \<and> payload_in c = Some (b, off)
            \<and> heap device b = Some block \<and> off + unat (payload_in_size c) \<le> length block
            \<and> (\<forall>c'\<in>set post. views_disjoint c c') \<and> int (length received) = count_in
            \<longrightarrow>
            view_bytes c (write_back_loop (queue device) received 0 (heap device))
              = Some (take (unat (payload_in_size c)) (drop (in_bytes pre) received))
            \<and> length (take (unat (payload_in_size c)) (drop (in_bytes pre) received))
              = unat (payload_in_size c)))"
proof -
  have scatter:
    "view_bytes c (write_back_loop (queue device) received 0 (heap device))
       = Some (take (unat (payload_in_size c)) (drop (in_bytes pre) received))
     \<and> length (take (unat (payload_in_size c)) (drop (in_bytes pre) received))
       = unat (payload_in_size c)"
    if q: "queue device = pre @ c # post" and pin: "payload_in c = Some (b, off)"
      and blk: "heap device b = Some block"
      and inside: "off + unat (payload_in_size c) \<le> length block"
      and later: "\<forall>c'\<in>set post. views_disjoint c c'"
      and len: "int (length received) = (\<Sum>c\<leftarrow>queue device. uint (payload_in_size c))"
    for pre c post b off block received
  proof -
    from len have "length received = in_bytes (queue device)"
      by (simp add: in_bytes_int [symmetric])
    with q have enough: "in_bytes (pre @ [c]) \<le> length received"
      by simp
    from write_back_loop_view [of c b off "heap device" block post pre received]
      pin blk inside later enough q
    show ?thesis
      by simp
  qed
  show ?thesis
    unfolding Let_def
    using packet_length [of "queue device" env] execute_queued_commands_cases [of env timeout device]
      scatter
    by blast
qed

text \<open>
  The claim as the spec states it (the read asks for exactly \<open>count_in\<close> bytes) fails:
  for one get-signals command \<open>count_in\<close> is 2, and the read asks for 64 bytes.
\<close>

theorem execute_queued_commands_counterexample:
  "(\<Sum>c\<leftarrow>queue sample_signals. uint (payload_in_size c)) = 2 \<and>
   usb_log (world (snd (ulink_execute_queued_commands sample_env 200 sample_signals)))
     = [Bulk_Write 2 [12] 1 200, Bulk_Read 130 64 200]"
  by (simp add: ulink_execute_queued_commands_def out_bytes_def sample_id_byte_def
      sample_signals_def sample_signals_cmd_def USB_ENDPOINT_OUT_def USB_ENDPOINT_IN_def
      sample_env_def sample_driver_def sample_world0_def zeroed_cmd_def)

theorem execute_queued_commands_exchange_witness:
  "length (out_bytes sample_signals_cmd) = unat (payload_out_size sample_signals_cmd) \<and>
   fst (ulink_execute_queued_commands sample_env 200 sample_signals) = ERROR_OK \<and>
   view_bytes sample_signals_cmd
     (heap (snd (ulink_execute_queued_commands sample_env 200 sample_signals))) = Some [85, 170] \<and>
   fst (ulink_execute_queued_commands sample_env 200
          (sample_signals\<lparr>world := sample_world0\<rparr>)) = ERROR_FAIL"
proof -
  note ex = execute_queued_commands_exchange [unfolded Let_def]
  have q: "queue sample_signals = [] @ sample_signals_cmd # []"
    by (simp add: sample_signals_def sample_driver_def)
  have facts: "payload_in sample_signals_cmd = Some (0, 0)"
      "unat (payload_in_size sample_signals_cmd) = 2"
      "uint (payload_in_size sample_signals_cmd) = 2"
      "uint (payload_out_size sample_signals_cmd) = 0"
      "unat (payload_out_size sample_signals_cmd) = 0"
      "out_bytes sample_signals_cmd = []"
      "cmd_id sample_signals_cmd = CMD_GET_SIGNALS"
      "heap sample_signals 0 = Some [0, 0]"
      "world sample_signals = sample_world0\<lparr>usb_replies := [(2, [85, 170])]\<rparr>"
    by (simp_all add: sample_signals_cmd_def sample_signals_def sample_driver_def
        zeroed_cmd_def out_bytes_def)
  have run: "ulink_execute_queued_commands sample_env 200 sample_signals =
      (ERROR_OK,
       sample_signals\<lparr>heap := write_back_loop (queue sample_signals) [85, 170] 0 (heap sample_signals),
         world := sample_world0\<lparr>usb_log := [Bulk_Write 2 [12] 1 200, Bulk_Read 130 64 200]\<rparr>\<rparr>)"
    using ex [THEN conjunct2, THEN conjunct1, of sample_env 200 sample_signals]
    by (simp add: q facts sample_env_def sample_world0_def sample_id_byte_def)
  have view: "view_bytes sample_signals_cmd
      (write_back_loop (queue sample_signals) [85, 170] 0 (heap sample_signals)) = Some [85, 170]"
    using ex [THEN conjunct2, THEN conjunct2, rule_format,
        of sample_signals "[]" sample_signals_cmd "[]" 0 0 "[0, 0]" "[85, 170]"] q
    by (simp add: facts)
  have fail: "fst (ulink_execute_queued_commands sample_env 200
      (sample_signals\<lparr>world := sample_world0\<rparr>)) = ERROR_FAIL"
    using ex [THEN conjunct2, THEN conjunct1, of sample_env 200
        "sample_signals\<lparr>world := sample_world0\<rparr>"]
    by (simp add: q facts sample_env_def sample_world0_def sample_id_byte_def)
  from run view fail show ?thesis
    by (simp add: facts)
qed

section \<open>Split scans\<close>

declare scan_loop.simps [simp del] scan_calls.simps [simp del]

lemma scan_loop_zero [simp]: "scan_loop env L 0 t p d = (ERROR_OK, d)"
  by (simp add: scan_loop.simps)

lemma scan_calls_zero [simp]: "scan_calls L 0 t p = []"
  by (simp add: scan_calls.simps)

text \<open>The loop of \<open>ulink_queue_scan\<close> makes the calls of \<open>scan_calls\<close>, in order.\<close>

lemma scan_loop_run:
  "scan_loop env L bytecount tdi_buffer tdo_buffer device
     = run_scan_calls env L (scan_calls L bytecount tdi_buffer tdo_buffer) device"
proof (induction env L bytecount tdi_buffer tdo_buffer device rule: scan_loop.induct)
  case (1 env L bytecount tdi_buffer tdo_buffer device)
  let ?count = "if bytecount = scan_size_bytes L then first_tms_count L else tms_count_resume L"
  let ?sequence = "if bytecount = scan_size_bytes L then first_tms_sequence L
    else tms_sequence_resume L"
  show ?case
  proof (cases "bytecount > 0")
    case False
    then have "bytecount = 0"
      by (simp add: word_greater_zero_iff)
    then show ?thesis
      by simp
  next
    case pos: True
    show ?thesis
    proof (cases "bytecount > 58")
      case True
      let ?tdi = "if tdi_buffer_start L \<noteq> None then drop 58 tdi_buffer else tdi_buffer"
      let ?tdo = "if tdo_buffer_start L \<noteq> None then advance 58 tdo_buffer else tdo_buffer"
      obtain ret d1 where call:
        "ulink_append_scan_cmd env (scan_ty L) (58 * 8) tdi_buffer (tdo_buffer_start L)
           tdo_buffer ?count ?sequence (tms_count_pause L) (tms_sequence_pause L)
           (Some (origin_cmd L)) False device = (ret, d1)"
        by (metis surj_pair)
      have step: "scan_loop env L bytecount tdi_buffer tdo_buffer device
          = (if ret \<noteq> ERROR_OK then (ret, d1) else scan_loop env L (bytecount - 58) ?tdi ?tdo d1)"
        using pos True call by (subst scan_loop.simps) (simp add: Let_def)
      have calls: "scan_calls L bytecount tdi_buffer tdo_buffer
          = \<lparr>call_bits = 58 * 8, call_tdi = tdi_buffer, call_tdo = tdo_buffer,
             call_tms_count_start = ?count, call_tms_sequence_start = ?sequence,
             call_tms_count_end = tms_count_pause L,
             call_tms_sequence_end = tms_sequence_pause L, call_postprocess = False\<rparr>
            # scan_calls L (bytecount - 58) ?tdi ?tdo"
        using pos True by (subst scan_calls.simps) (simp add: Let_def)
      show ?thesis
      proof (cases "ret = ERROR_OK")
        case False
        with step calls call show ?thesis
          by (simp add: run_scan_call_def)
      next
        case ok: True
        have "scan_loop env L (bytecount - 58) ?tdi ?tdo d1
            = run_scan_calls env L (scan_calls L (bytecount - 58) ?tdi ?tdo) d1"
          by (rule "1.IH"(1) [OF pos refl refl True call [symmetric]]) (simp add: ok)
        with step calls call ok show ?thesis
          by (simp add: run_scan_call_def)
      qed
    next
      case False
      show ?thesis
      proof (cases "bytecount = 58")
        case True
        obtain ret d1 where call:
          "ulink_append_scan_cmd env (scan_ty L) (58 * 8) tdi_buffer (tdo_buffer_start L)
             tdo_buffer ?count ?sequence (last_tms_count L) (last_tms_sequence L)
             (Some (origin_cmd L)) True device = (ret, d1)"
          by (metis surj_pair)
        have step: "scan_loop env L bytecount tdi_buffer tdo_buffer device
            = (if ret \<noteq> ERROR_OK then (ret, d1) else (ERROR_OK, d1))"
          using pos True call by (subst scan_loop.simps) (simp add: Let_def)
        have calls: "scan_calls L bytecount tdi_buffer tdo_buffer
            = [\<lparr>call_bits = 58 * 8, call_tdi = tdi_buffer, call_tdo = tdo_buffer,
               call_tms_count_start = ?count, call_tms_sequence_start = ?sequence,
               call_tms_count_end = last_tms_count L,
               call_tms_sequence_end = last_tms_sequence L, call_postprocess = True\<rparr>]"
          using pos True by (subst scan_calls.simps) (simp add: Let_def)
        from step calls call show ?thesis
          by (simp add: run_scan_call_def)
      next
        case ne: False
        obtain ret d1 where call:
          "ulink_append_scan_cmd env (scan_ty L) (sint (bits_last_scan L)) tdi_buffer
             (tdo_buffer_start L) tdo_buffer ?count ?sequence (last_tms_count L)
             (last_tms_sequence L) (Some (origin_cmd L)) True device = (ret, d1)"
          by (metis surj_pair)
        have step: "scan_loop env L bytecount tdi_buffer tdo_buffer device
            = (if ret \<noteq> ERROR_OK then (ret, d1) else (ERROR_OK, d1))"
          using pos False ne call by (subst scan_loop.simps) (simp add: Let_def)
        have calls: "scan_calls L bytecount tdi_buffer tdo_buffer
            = [\<lparr>call_bits = sint (bits_last_scan L), call_tdi = tdi_buffer,
               call_tdo = tdo_buffer,
               call_tms_count_start = ?count, call_tms_sequence_start = ?sequence,
               call_tms_count_end = last_tms_count L,
               call_tms_sequence_end = last_tms_sequence L, call_postprocess = True\<rparr>]"
          using pos False ne by (subst scan_calls.simps) (simp add: Let_def)
        from step calls call show ?thesis
          by (simp add: run_scan_call_def)
      qed
    qed
  qed
qed

text \<open>Byte counts as natural numbers.\<close>

lemma bytecount_gt_58: "(58 < bytecount) = (58 < unat bytecount)" for bytecount :: uint32_t
  by (simp add: word_less_nat_alt)

lemma bytecount_sub_58: "58 < bytecount \<Longrightarrow> unat (bytecount - 58) = unat bytecount - 58"
  for bytecount :: uint32_t
proof -
  assume "58 < bytecount"
  then have "58 \<le> bytecount"
    by simp
  then show ?thesis
    by (simp add: unat_sub)
qed

lemma bytecount_pos: "(0 < bytecount) = (0 < unat bytecount)" for bytecount :: uint32_t
  by (simp add: word_less_nat_alt)

lemma scan_size_bytes_unat:
  assumes "0 \<le> n" and "n < 2 ^ 31"
  shows "unat (DIV_ROUND_UP_u32 (word_of_int n) 8) = nat ((n + 7) div 8)"
proof -
  let ?w = "word_of_int n :: uint32_t"
  have w: "unat ?w = nat n"
    using assms by (simp add: unat_eq_nat_uint uint_word_of_int take_bit_int_eq_self)
  have "unat (7 + ?w) = unat (7 :: uint32_t) + unat ?w"
    using assms w by (intro unat_add_lem [THEN iffD1]) simp
  then have "unat (?w + 8 - 1) = nat n + 7"
    using w by simp
  then have "unat (DIV_ROUND_UP_u32 ?w 8) = (nat n + 7) div 8"
    unfolding DIV_ROUND_UP_u32_def by (simp only: unat_div) simp
  also have "\<dots> = nat ((n + 7) div 8)"
    using assms by (simp add: nat_div_distrib nat_add_distrib)
  finally show ?thesis .
qed

text \<open>The shape of the list of calls.\<close>

lemma scan_calls_more:
  assumes "58 < bytecount"
  shows "scan_calls L bytecount tdi_buffer tdo_buffer
      = \<lparr>call_bits = 464, call_tdi = tdi_buffer, call_tdo = tdo_buffer,
         call_tms_count_start =
           (if bytecount = scan_size_bytes L then first_tms_count L else tms_count_resume L),
         call_tms_sequence_start =
           (if bytecount = scan_size_bytes L then first_tms_sequence L
            else tms_sequence_resume L),
         call_tms_count_end = tms_count_pause L,
         call_tms_sequence_end = tms_sequence_pause L, call_postprocess = False\<rparr>
        # scan_calls L (bytecount - 58)
            (if tdi_buffer_start L \<noteq> None then drop 58 tdi_buffer else tdi_buffer)
            (if tdo_buffer_start L \<noteq> None then advance 58 tdo_buffer else tdo_buffer)"
proof -
  from assms have "0 < bytecount"
    by (simp add: bytecount_gt_58 bytecount_pos)
  with assms show ?thesis
    by (subst scan_calls.simps) (simp add: Let_def)
qed

lemma scan_calls_last:
  assumes "0 < bytecount" and "\<not> 58 < bytecount"
  shows "scan_calls L bytecount tdi_buffer tdo_buffer
      = [\<lparr>call_bits = (if bytecount = 58 then 464 else sint (bits_last_scan L)),
          call_tdi = tdi_buffer, call_tdo = tdo_buffer,
          call_tms_count_start =
            (if bytecount = scan_size_bytes L then first_tms_count L else tms_count_resume L),
          call_tms_sequence_start =
            (if bytecount = scan_size_bytes L then first_tms_sequence L
             else tms_sequence_resume L),
          call_tms_count_end = last_tms_count L,
          call_tms_sequence_end = last_tms_sequence L, call_postprocess = True\<rparr>]"
  using assms by (subst scan_calls.simps) (simp add: Let_def)

lemma length_scan_calls:
  "length (scan_calls L bytecount tdi_buffer tdo_buffer) = (unat bytecount + 57) div 58"
proof (induction L bytecount tdi_buffer tdo_buffer rule: scan_calls.induct)
  case (1 L bytecount tdi_buffer tdo_buffer)
  show ?case
  proof (cases "0 < bytecount")
    case False
    then have "bytecount = 0"
      by (simp add: word_greater_zero_iff)
    then show ?thesis
      by simp
  next
    case pos: True
    show ?thesis
    proof (cases "58 < bytecount")
      case True
      have "length (scan_calls L (bytecount - 58)
            (if tdi_buffer_start L \<noteq> None then drop 58 tdi_buffer else tdi_buffer)
            (if tdo_buffer_start L \<noteq> None then advance 58 tdo_buffer else tdo_buffer))
          = (unat (bytecount - 58) + 57) div 58"
        by (rule "1.IH"(1) [OF pos refl refl True])
      moreover from True have "58 < unat bytecount"
        by (simp add: bytecount_gt_58)
      ultimately show ?thesis
        using True by (simp add: scan_calls_more bytecount_sub_58)
    next
      case False
      moreover from pos False have "0 < unat bytecount" "unat bytecount \<le> 58"
        by (simp_all add: bytecount_gt_58 bytecount_pos)
      ultimately show ?thesis
        using pos by (simp add: scan_calls_last)
    qed
  qed
qed

text \<open>Every call but the last shifts 58 full bytes and asks for no post-processing.\<close>

lemma scan_calls_not_last:
  assumes "Suc i < length (scan_calls L bytecount tdi_buffer tdo_buffer)"
  shows "call_bits (scan_calls L bytecount tdi_buffer tdo_buffer ! i) = 464
       \<and> \<not> call_postprocess (scan_calls L bytecount tdi_buffer tdo_buffer ! i)
       \<and> call_tdi (scan_calls L bytecount tdi_buffer tdo_buffer ! i)
           = (if tdi_buffer_start L \<noteq> None then drop (58 * i) tdi_buffer else tdi_buffer)"
  using assms
proof (induction i arbitrary: bytecount tdi_buffer tdo_buffer)
  case 0
  then have "1 < (unat bytecount + 57) div 58"
    by (simp add: length_scan_calls)
  then have "58 < bytecount"
    by (simp add: bytecount_gt_58; arith)
  then show ?case
    by (simp add: scan_calls_more)
next
  case (Suc i)
  then have "1 < (unat bytecount + 57) div 58"
    by (simp add: length_scan_calls)
  then have more: "58 < bytecount"
    by (simp add: bytecount_gt_58; arith)
  let ?tdi = "if tdi_buffer_start L \<noteq> None then drop 58 tdi_buffer else tdi_buffer"
  let ?tdo = "if tdo_buffer_start L \<noteq> None then advance 58 tdo_buffer else tdo_buffer"
  from Suc.prems more have "Suc i < length (scan_calls L (bytecount - 58) ?tdi ?tdo)"
    by (simp add: scan_calls_more)
  from Suc.IH [OF this] more show ?case
    by (simp add: scan_calls_more add.commute)
qed

text \<open>The last call asks for post-processing.\<close>

lemma scan_calls_last_call:
  assumes "0 < bytecount"
  shows "scan_calls L bytecount tdi_buffer tdo_buffer \<noteq> []
       \<and> call_postprocess (last (scan_calls L bytecount tdi_buffer tdo_buffer))
       \<and> call_bits (last (scan_calls L bytecount tdi_buffer tdo_buffer))
           = (if unat bytecount mod 58 = 0 then 464 else sint (bits_last_scan L))"
  using assms
proof (induction L bytecount tdi_buffer tdo_buffer rule: scan_calls.induct)
  case (1 L bytecount tdi_buffer tdo_buffer)
  show ?case
  proof (cases "58 < bytecount")
    case True
    let ?tdi = "if tdi_buffer_start L \<noteq> None then drop 58 tdi_buffer else tdi_buffer"
    let ?tdo = "if tdo_buffer_start L \<noteq> None then advance 58 tdo_buffer else tdo_buffer"
    from True have u: "58 < unat bytecount" "unat (bytecount - 58) = unat bytecount - 58"
      by (simp_all add: bytecount_gt_58 [symmetric] bytecount_sub_58)
    then have "0 < bytecount - 58"
      by (simp add: bytecount_pos)
    with "1.IH"(1) [OF "1.prems" refl refl True]
    have "scan_calls L (bytecount - 58) ?tdi ?tdo \<noteq> []
       \<and> call_postprocess (last (scan_calls L (bytecount - 58) ?tdi ?tdo))
       \<and> call_bits (last (scan_calls L (bytecount - 58) ?tdi ?tdo))
           = (if unat (bytecount - 58) mod 58 = 0 then 464 else sint (bits_last_scan L))"
      by simp
    moreover from u have "unat (bytecount - 58) mod 58 = unat bytecount mod 58"
      by (simp add: le_mod_geq)
    ultimately show ?thesis
      using True by (simp add: scan_calls_more)
  next
    case False
    with "1.prems" have "0 < unat bytecount" "unat bytecount \<le> 58"
      by (simp_all add: bytecount_gt_58 bytecount_pos)
    then have "(unat bytecount mod 58 = 0) = (unat bytecount = 58)"
      by (cases "unat bytecount = 58") simp_all
    moreover have "(unat bytecount = 58) = (bytecount = 58)"
      by (simp add: word_unat_eq_iff)
    ultimately have "(unat bytecount mod 58 = 0) = (bytecount = 58)"
      by simp
    with "1.prems" False show ?thesis
      by (simp add: scan_calls_last)
  qed
qed

text \<open>A call that succeeds has appended exactly its wire command.\<close>

lemma run_scan_call_ok:
  assumes "run_scan_call env L c e = (ERROR_OK, e')"
  shows "scan_ty L \<noteq> SCAN_OTHER \<and> call_bits c \<le> 464
       \<and> (\<exists>kept. (kept = [] \<or> kept = queue e) \<and> queue e' = kept @ [scan_cmd L c])"
proof -
  let ?bytes = "DIV_ROUND_UP_int (call_bits c) 8"
  let ?n = "if scan_ty L = SCAN_IN then 5 else ?bytes + 5"
  let ?id = "case scan_ty L of SCAN_IN \<Rightarrow> CMD_SCAN_IN | SCAN_OUT \<Rightarrow> CMD_SCAN_OUT
    | _ \<Rightarrow> CMD_SCAN_IO"
  obtain ok d1 where a: "calloc_value env (sizeof_ulink_cmd_t env) e = (ok, d1)"
    by (metis surj_pair)
  obtain ret cmd d2 where b:
    "ulink_allocate_payload env (zeroed_cmd\<lparr>cmd_id := ?id\<rparr>) ?n PAYLOAD_DIRECTION_OUT d1
       = ((ret, cmd), d2)"
    by (metis surj_pair)
  from assms a have ok: "ok" and bits: "call_bits c \<le> 464"
    by (auto simp: run_scan_call_def ulink_append_scan_cmd_def split: if_splits)
  from assms a ok bits have ty: "scan_ty L \<noteq> SCAN_OTHER"
    by (auto simp: run_scan_call_def ulink_append_scan_cmd_def Let_def)
  from assms a b ok bits ty have ret: "ret = ERROR_OK"
    by (cases "scan_ty L")
      (auto simp: run_scan_call_def ulink_append_scan_cmd_def Let_def split: if_splits)
  from allocate_payload_out [OF b [unfolded ret]] calloc_value_fields [OF a]
  have cmd: "cmd = zeroed_cmd\<lparr>cmd_id := ?id, payload_out := Some (replicate (nat ?n) 0),
      payload_out_size := word_of_int ?n\<rparr>"
    and q: "queue d2 = queue e"
    by simp_all
  let ?filled = "fill_scan_cmd (scan_ty L) ?bytes
      (if (word_of_int (c_mod (call_bits c) 8) :: uint8_t) = 0 then 8
       else word_of_int (c_mod (call_bits c) 8))
      (call_tdi c) (tdo_buffer_start L) (call_tdo c) (call_tms_count_start c)
      (call_tms_sequence_start c) (call_tms_count_end c) (call_tms_sequence_end c)
      (Some (origin_cmd L)) (call_postprocess c) cmd"
  from assms a b ok bits ty ret have app: "ulink_append_queue env ?filled d2 = (ERROR_OK, e')"
    by (cases "scan_ty L")
      (auto simp: run_scan_call_def ulink_append_scan_cmd_def Let_def split: if_splits)
  have "?filled = scan_cmd L c"
    unfolding cmd by (simp add: scan_cmd_def Let_def)
  with append_queue_ok [OF app] q have "queue e' = [] @ [scan_cmd L c]
      \<or> queue e' = queue e @ [scan_cmd L c]"
    by (simp split: if_splits)
  with ty bits show ?thesis
    by blast
qed

text \<open>What \<open>ulink_queue_scan\<close> has done when it returns \<open>ERROR_OK\<close>.\<close>

lemma queue_scan_ok:
  assumes "ulink_queue_scan env scan device = Return (ERROR_OK, device')"
  shows "\<exists>L d2 d3. scan_prologue env scan device = Some (L, d2)
      \<and> scan_loop env L (scan_size_bytes L)
           (case tdi_buffer_start L of None \<Rightarrow> [] | Some b \<Rightarrow> b) (tdo_buffer_start L) d2
          = (ERROR_OK, d3)
      \<and> device' = d3\<lparr>tap_state_cur := end_state scan\<rparr>"
  using assms
  by (auto simp: ulink_queue_scan_def scan_prologue_def Let_def
      split: prod.splits if_splits outcome.splits)

lemma scan_prologue_locals:
  assumes "scan_prologue env scan device = Some (L, d2)"
  shows "scan_ty L = scan_kind scan"
    and "scan_size_bytes L = DIV_ROUND_UP_u32 (word_of_int (scan_size scan)) 8"
    and "bits_last_scan L = word_of_int (scan_size scan)
           - DIV_ROUND_UP_u32 (word_of_int (scan_size scan)) 8 div 58 * 58 * 8"
    and "tdi_buffer_start L
           = (if scan_kind scan = SCAN_OUT \<or> scan_kind scan = SCAN_IO
              then Some (tdi_bytes scan) else None)"
    and "origin_cmd L = JTAG_SCAN scan"
  using assms
  by (auto simp: scan_prologue_def scan_transitions_def ulink_set_end_state_def Let_def
      split: prod.splits if_splits outcome.splits)

text \<open>The wire command of a call that shifts 58 full bytes.\<close>

lemma header_update:
  assumes "5 \<le> n"
  shows "(replicate n z)[0 := a, 1 := b, 2 := c, 3 := d, 4 := e]
           = [a, b, c, d, e] @ replicate (n - 5) z"
proof -
  from assms have "replicate n z = replicate 5 z @ replicate (n - 5) z"
    by (simp add: replicate_add [symmetric])
  moreover have "replicate 5 z = [z, z, z, z, z]"
    by (simp add: eval_nat_numeral)
  ultimately show ?thesis
    by (simp add: eval_nat_numeral)
qed

lemma header_update_Suc:
  "5 \<le> n \<Longrightarrow>
     (replicate n z)[0 := a, Suc 0 := b, 2 := c, 3 := d, 4 := e]
       = [a, b, c, d, e] @ replicate (n - 5) z"
  using header_update [of n z a b c d e] by simp

lemma full_chunk_numbers:
  "DIV_ROUND_UP_int 464 8 = 58" "c_mod 464 8 = 0"
  by (simp_all add: DIV_ROUND_UP_int_def c_mod_def c_div_def)

lemma scan_cmd_full_chunk:
  assumes "call_bits c = 464"
  shows "needs_postprocessing (scan_cmd L c) = call_postprocess c"
    and "free_payload_in_start (scan_cmd L c) = call_postprocess c"
    and "scan_ty L = SCAN_IN \<Longrightarrow>
           payload_out (scan_cmd L c)
             = Some [58, 8, push_bit 4 (call_tms_count_start c AND 15) OR (call_tms_count_end c AND 15),
                     call_tms_sequence_start c, call_tms_sequence_end c]
           \<and> payload_out_size (scan_cmd L c) = 5 \<and> payload_in_size (scan_cmd L c) = 58"
    and "scan_ty L = SCAN_OUT \<or> scan_ty L = SCAN_IO \<Longrightarrow> 58 \<le> length (call_tdi c) \<Longrightarrow>
           payload_out (scan_cmd L c)
             = Some ([58, 8, push_bit 4 (call_tms_count_start c AND 15) OR (call_tms_count_end c AND 15),
                      call_tms_sequence_start c, call_tms_sequence_end c]
                     @ take 58 (call_tdi c))
           \<and> payload_out_size (scan_cmd L c) = 63"
proof -
  show "needs_postprocessing (scan_cmd L c) = call_postprocess c"
    and "free_payload_in_start (scan_cmd L c) = call_postprocess c"
    by (simp_all add: scan_cmd_def fill_scan_cmd_def Let_def)
next
  assume "scan_ty L = SCAN_IN"
  then show "payload_out (scan_cmd L c)
      = Some [58, 8, push_bit 4 (call_tms_count_start c AND 15) OR (call_tms_count_end c AND 15),
              call_tms_sequence_start c, call_tms_sequence_end c]
      \<and> payload_out_size (scan_cmd L c) = 5 \<and> payload_in_size (scan_cmd L c) = 58"
    using assms
    by (simp add: scan_cmd_def fill_scan_cmd_def Let_def full_chunk_numbers zeroed_cmd_def
        header_update_Suc)
next
  assume ty: "scan_ty L = SCAN_OUT \<or> scan_ty L = SCAN_IO" and len: "58 \<le> length (call_tdi c)"
  then show "payload_out (scan_cmd L c)
      = Some ([58, 8, push_bit 4 (call_tms_count_start c AND 15) OR (call_tms_count_end c AND 15),
               call_tms_sequence_start c, call_tms_sequence_end c]
              @ take 58 (call_tdi c))
      \<and> payload_out_size (scan_cmd L c) = 63"
    using assms
    by (auto simp: scan_cmd_def fill_scan_cmd_def Let_def full_chunk_numbers zeroed_cmd_def
        copy_payload_out_def header_update_Suc)
qed

lemma run_scan_calls_first:
  "run_scan_calls env L (c # cs) d = (ERROR_OK, d3) \<Longrightarrow>
     \<exists>d1. run_scan_call env L c d = (ERROR_OK, d1)"
  by (auto split: prod.splits if_splits)

lemma ceil_58_nat:
  assumes "0 \<le> b"
  shows "int ((nat b + 57) div 58) = (b + 57) div 58"
proof -
  have "int ((nat b + 57) div 58) = int (nat b + 57) div 58"
    by (simp add: zdiv_int)
  with assms show ?thesis
    by simp
qed

lemma not_last_cmd:
  assumes loc1: "scan_ty L = scan_kind scan"
    and loc4: "tdi_buffer_start L
           = (if scan_kind scan = SCAN_OUT \<or> scan_kind scan = SCAN_IO
              then Some (tdi_bytes scan) else None)"
    and kind: "scan_kind scan \<noteq> SCAN_OTHER"
    and tdi: "scan_kind scan \<noteq> SCAN_IN \<Longrightarrow> length (tdi_bytes scan) = B"
    and calls: "calls = scan_calls L bytecount
                  (case tdi_buffer_start L of None \<Rightarrow> [] | Some b \<Rightarrow> b) tdo"
    and len: "length calls = (B + 57) div 58"
    and i: "Suc i < length calls"
  shows "\<not> needs_postprocessing (scan_cmd L (calls ! i))
     \<and> (\<exists>h2 h3 h4.
           payload_out (scan_cmd L (calls ! i))
             = Some ([58, 8, h2, h3, h4]
                     @ (if scan_kind scan = SCAN_IN then []
                        else take 58 (drop (58 * i) (tdi_bytes scan)))))
     \<and> (scan_kind scan \<noteq> SCAN_IN \<longrightarrow>
           length (take 58 (drop (58 * i) (tdi_bytes scan))) = 58)
     \<and> (scan_kind scan = SCAN_IN \<longrightarrow> payload_in_size (scan_cmd L (calls ! i)) = 58)"
proof -
  let ?c = "calls ! i"
  from i have nl: "call_bits ?c = 464" "\<not> call_postprocess ?c"
    "call_tdi ?c
      = (if tdi_buffer_start L \<noteq> None
         then drop (58 * i) (case tdi_buffer_start L of None \<Rightarrow> [] | Some b \<Rightarrow> b)
         else (case tdi_buffer_start L of None \<Rightarrow> [] | Some b \<Rightarrow> b))"
    unfolding calls by (simp_all add: scan_calls_not_last)
  from i len have far: "58 * i + 58 < B"
    by simp
  have np: "\<not> needs_postprocessing (scan_cmd L ?c)"
    using scan_cmd_full_chunk(1) [OF nl(1), of L] nl(2) by simp
  show ?thesis
  proof (cases "scan_kind scan = SCAN_IN")
    case True
    then have "scan_ty L = SCAN_IN"
      by (simp add: loc1)
    from scan_cmd_full_chunk(3) [OF nl(1) this]
    have "payload_out (scan_cmd L ?c)
        = Some ([58, 8, push_bit 4 (call_tms_count_start ?c AND 15) OR (call_tms_count_end ?c AND 15),
                 call_tms_sequence_start ?c, call_tms_sequence_end ?c] @ [])"
      and "payload_in_size (scan_cmd L ?c) = 58"
      by simp_all
    with np True show ?thesis
      by simp
  next
    case False
    with kind have out: "scan_ty L = SCAN_OUT \<or> scan_ty L = SCAN_IO"
      unfolding loc1 by (cases "scan_kind scan") simp_all
    then have "tdi_buffer_start L = Some (tdi_bytes scan)"
      using loc1 loc4 by auto
    with nl(3) have t: "call_tdi ?c = drop (58 * i) (tdi_bytes scan)"
      by simp
    from tdi [OF False] far have long: "58 \<le> length (call_tdi ?c)"
      unfolding t by simp
    then have l58: "length (take 58 (drop (58 * i) (tdi_bytes scan))) = 58"
      unfolding t by simp
    from scan_cmd_full_chunk(4) [OF nl(1) out long]
    have "payload_out (scan_cmd L ?c)
        = Some ([58, 8, push_bit 4 (call_tms_count_start ?c AND 15) OR (call_tms_count_end ?c AND 15),
                 call_tms_sequence_start ?c, call_tms_sequence_end ?c]
                @ take 58 (drop (58 * i) (tdi_bytes scan)))"
      unfolding t by simp
    with np False l58 show ?thesis
      by simp
  qed
qed

text \<open>
  C3, as the code has it.  A scan of \<open>N \<ge> 1\<close> bits that \<open>ulink_queue_scan\<close> completes with
  \<open>ERROR_OK\<close> has made the calls of \<open>scan_calls\<close>, in order and all with success; each
  call appended exactly one wire command, after the batch or after a flush of it.
  Their number is \<open>ceil(ceil(N/8) / 58)\<close>.  Every command but the last is not marked for
  post-processing and has the header bytes 58 and 8; for a scan of type OUT or IO the
  header is followed by exactly 58 bytes of TDI data, the \<open>i\<close>-th block of 58 bytes of
  the scan's buffer, and for a scan of type IN by nothing: the command then takes 58
  bytes in and carries no TDI data.
\<close>

theorem scan_split_count:
  assumes size: "1 \<le> scan_size scan" "scan_size scan < 2 ^ 31"
    and tdi: "scan_kind scan \<noteq> SCAN_IN \<Longrightarrow>
                length (tdi_bytes scan) = nat ((scan_size scan + 7) div 8)"
    and ok: "ulink_queue_scan env scan device = Return (ERROR_OK, device')"
  shows "\<exists>L d2 d3 calls.
      scan_prologue env scan device = Some (L, d2)
    \<and> calls = scan_calls L (scan_size_bytes L)
                (case tdi_buffer_start L of None \<Rightarrow> [] | Some b \<Rightarrow> b) (tdo_buffer_start L)
    \<and> run_scan_calls env L calls d2 = (ERROR_OK, d3)
    \<and> device' = d3\<lparr>tap_state_cur := end_state scan\<rparr>
    \<and> (\<forall>c e e'. c \<in> set calls \<and> run_scan_call env L c e = (ERROR_OK, e') \<longrightarrow>
          (\<exists>kept. (kept = [] \<or> kept = queue e) \<and> queue e' = kept @ [scan_cmd L c]))
    \<and> int (length calls) = ((scan_size scan + 7) div 8 + 57) div 58
    \<and> (\<forall>i. Suc i < length calls \<longrightarrow>
          \<not> needs_postprocessing (scan_cmd L (calls ! i))
          \<and> (\<exists>h2 h3 h4.
                payload_out (scan_cmd L (calls ! i))
                  = Some ([58, 8, h2, h3, h4]
                          @ (if scan_kind scan = SCAN_IN then []
                             else take 58 (drop (58 * i) (tdi_bytes scan)))))
          \<and> (scan_kind scan \<noteq> SCAN_IN \<longrightarrow>
                length (take 58 (drop (58 * i) (tdi_bytes scan))) = 58)
          \<and> (scan_kind scan = SCAN_IN \<longrightarrow>
                payload_in_size (scan_cmd L (calls ! i)) = 58))"
proof -
  from queue_scan_ok [OF ok] obtain L d2 d3 where
    pro: "scan_prologue env scan device = Some (L, d2)"
    and loop: "scan_loop env L (scan_size_bytes L)
        (case tdi_buffer_start L of None \<Rightarrow> [] | Some b \<Rightarrow> b) (tdo_buffer_start L) d2
      = (ERROR_OK, d3)"
    and dev: "device' = d3\<lparr>tap_state_cur := end_state scan\<rparr>"
    by blast
  note loc = scan_prologue_locals [OF pro]
  define calls where "calls = scan_calls L (scan_size_bytes L)
      (case tdi_buffer_start L of None \<Rightarrow> [] | Some b \<Rightarrow> b) (tdo_buffer_start L)"
  let ?B = "nat ((scan_size scan + 7) div 8)"
  have bytes: "unat (scan_size_bytes L) = ?B"
    using size by (simp add: loc(2) scan_size_bytes_unat)
  have B: "1 \<le> ?B"
    using size by simp
  have run: "run_scan_calls env L calls d2 = (ERROR_OK, d3)"
    using loop by (simp add: scan_loop_run calls_def)
  have len: "length calls = (?B + 57) div 58"
    by (simp add: calls_def length_scan_calls bytes)
  have count: "int (length calls) = ((scan_size scan + 7) div 8 + 57) div 58"
    using size unfolding len by (intro ceil_58_nat) simp
  have each: "\<forall>c e e'. c \<in> set calls \<and> run_scan_call env L c e = (ERROR_OK, e') \<longrightarrow>
      (\<exists>kept. (kept = [] \<or> kept = queue e) \<and> queue e' = kept @ [scan_cmd L c])"
    using run_scan_call_ok by blast
  from B len have "calls \<noteq> []"
    by (cases calls) simp_all
  then obtain c0 cs where "calls = c0 # cs"
    by (cases calls) simp_all
  with run obtain d1 where "run_scan_call env L c0 d2 = (ERROR_OK, d1)"
    using run_scan_calls_first by blast
  from run_scan_call_ok [OF this] loc(1) have kind: "scan_kind scan \<noteq> SCAN_OTHER"
    by simp
  have not_last: "\<forall>i. Suc i < length calls \<longrightarrow>
          \<not> needs_postprocessing (scan_cmd L (calls ! i))
          \<and> (\<exists>h2 h3 h4.
                payload_out (scan_cmd L (calls ! i))
                  = Some ([58, 8, h2, h3, h4]
                          @ (if scan_kind scan = SCAN_IN then []
                             else take 58 (drop (58 * i) (tdi_bytes scan)))))
          \<and> (scan_kind scan \<noteq> SCAN_IN \<longrightarrow>
                length (take 58 (drop (58 * i) (tdi_bytes scan))) = 58)
          \<and> (scan_kind scan = SCAN_IN \<longrightarrow>
                payload_in_size (scan_cmd L (calls ! i)) = 58)"
    using not_last_cmd [OF loc(1) loc(4) kind tdi calls_def len] by blast
  have "scan_prologue env scan device = Some (L, d2)
    \<and> calls = scan_calls L (scan_size_bytes L)
                (case tdi_buffer_start L of None \<Rightarrow> [] | Some b \<Rightarrow> b) (tdo_buffer_start L)
    \<and> run_scan_calls env L calls d2 = (ERROR_OK, d3)
    \<and> device' = d3\<lparr>tap_state_cur := end_state scan\<rparr>
    \<and> (\<forall>c e e'. c \<in> set calls \<and> run_scan_call env L c e = (ERROR_OK, e') \<longrightarrow>
          (\<exists>kept. (kept = [] \<or> kept = queue e) \<and> queue e' = kept @ [scan_cmd L c]))
    \<and> int (length calls) = ((scan_size scan + 7) div 8 + 57) div 58
    \<and> (\<forall>i. Suc i < length calls \<longrightarrow>
          \<not> needs_postprocessing (scan_cmd L (calls ! i))
          \<and> (\<exists>h2 h3 h4.
                payload_out (scan_cmd L (calls ! i))
                  = Some ([58, 8, h2, h3, h4]
                          @ (if scan_kind scan = SCAN_IN then []
                             else take 58 (drop (58 * i) (tdi_bytes scan)))))
          \<and> (scan_kind scan \<noteq> SCAN_IN \<longrightarrow>
                length (take 58 (drop (58 * i) (tdi_bytes scan))) = 58)
          \<and> (scan_kind scan = SCAN_IN \<longrightarrow>
                payload_in_size (scan_cmd L (calls ! i)) = 58))"
    using pro calls_def run dev each count not_last by (intro conjI)
  then show ?thesis
    by (intro exI)
qed

text \<open>
  The scan of 472 bits of type IN on the empty queue: two commands, the first of them
  the five-byte header alone, taking 58 bytes in.
\<close>

lemma sample_scan_in_run:
  "ulink_queue_scan sample_env sample_scan_in (sample_driver sample_world0)
     = Return (ERROR_OK,
         (sample_driver sample_world0)
           \<lparr>commands_in_queue := 2,
            queue :=
              [\<lparr>cmd_id = CMD_SCAN_IN, payload_out = Some [58, 8, 119, 0, 0], payload_out_size = 5,
                payload_in_start = Some (0, 0), payload_in = Some (0, 0), payload_in_size = 58,
                needs_postprocessing = False, free_payload_in_start = False,
                cmd_origin = Some (JTAG_SCAN sample_scan_in)\<rparr>,
               \<lparr>cmd_id = CMD_SCAN_IN, payload_out = Some [1, 8, 119, 0, 0], payload_out_size = 5,
                payload_in_start = Some (0, 0), payload_in = Some (0, 58), payload_in_size = 1,
                needs_postprocessing = True, free_payload_in_start = True,
                cmd_origin = Some (JTAG_SCAN sample_scan_in)\<rparr>],
            heap := (\<lambda>b. None)(0 \<mapsto> replicate 59 0), heap_next := 1\<rparr>)"
  apply (simp add: ulink_queue_scan_def Let_def DIV_ROUND_UP_u32_def calloc_block_def
      scan_transitions_def ulink_set_end_state_def
      sample_env_def sample_scan_in_def sample_driver_def sample_world0_def sample_stable_def)
  apply (subst scan_loop.simps)
  apply (simp add: Let_def ulink_append_scan_cmd_def calloc_value_def ulink_allocate_payload_def
      DIV_ROUND_UP_int_def c_div_def c_mod_def zeroed_cmd_def fill_scan_cmd_def
      set_payload_out_def header_update_Suc ulink_append_queue_def ulink_get_queue_size_def
      link_cmd_def advance_def)
  apply (subst scan_loop.simps)
  apply (simp add: Let_def ulink_append_scan_cmd_def calloc_value_def ulink_allocate_payload_def
      DIV_ROUND_UP_int_def c_div_def c_mod_def zeroed_cmd_def fill_scan_cmd_def
      set_payload_out_def header_update_Suc ulink_append_queue_def ulink_get_queue_size_def
      link_cmd_def advance_def)
  done

text \<open>
  The claim as the spec states it (every scan of \<open>N\<close> bits emits that many commands) fails
  when the translator cannot complete.  The scan of 472 bits of type OUT needs two
  commands.  With no memory for the first command the result is \<open>ERROR_FAIL\<close> and the
  queue is empty; with an adapter that fails the bulk write, the first command fills the
  batch, the flush before the second fails, and the result is \<open>ERROR_FAIL\<close> with one
  command in the queue.
\<close>

theorem scan_split_counterexample:
  "ulink_queue_scan sample_env_no_memory sample_scan_out (sample_driver sample_world0)
     = Return (ERROR_FAIL, (sample_driver sample_world0)\<lparr>tap_state_cur := TAP_DRSHIFT\<rparr>)
   \<and> queue ((sample_driver sample_world0)\<lparr>tap_state_cur := TAP_DRSHIFT\<rparr>) = []
   \<and> ulink_queue_scan sample_env sample_scan_out
         (sample_driver (sample_world0\<lparr>usb_write_fails := True\<rparr>))
     = Return (ERROR_FAIL,
         (sample_driver
            (sample_world0
               \<lparr>usb_log := [Bulk_Write 2 (2 # [58, 8, 119, 0, 0] @ replicate 58 165) 64 5000],
                usb_write_fails := True\<rparr>))
           \<lparr>commands_in_queue := 1,
            queue :=
              [\<lparr>cmd_id = CMD_SCAN_OUT,
                payload_out = Some ([58, 8, 119, 0, 0] @ replicate 58 165),
                payload_out_size = 63, payload_in_start = None, payload_in = None,
                payload_in_size = 0, needs_postprocessing = False,
                free_payload_in_start = False,
                cmd_origin = Some (JTAG_SCAN sample_scan_out)\<rparr>],
            tap_state_cur := TAP_DRSHIFT\<rparr>)
   \<and> ((scan_size sample_scan_out + 7) div 8 + 57) div 58 = 2"
proof -
  have a: "ulink_queue_scan sample_env_no_memory sample_scan_out (sample_driver sample_world0)
     = Return (ERROR_FAIL, (sample_driver sample_world0)\<lparr>tap_state_cur := TAP_DRSHIFT\<rparr>)"
    apply (simp add: ulink_queue_scan_def Let_def DIV_ROUND_UP_u32_def
        scan_transitions_def ulink_set_end_state_def sample_env_no_memory_def
        sample_env_def sample_scan_out_def sample_driver_def sample_world0_def sample_stable_def)
    apply (subst scan_loop.simps)
    apply (simp add: Let_def ulink_append_scan_cmd_def calloc_value_def)
    done
  have b: "ulink_queue_scan sample_env sample_scan_out
         (sample_driver (sample_world0\<lparr>usb_write_fails := True\<rparr>))
     = Return (ERROR_FAIL,
         (sample_driver
            (sample_world0
               \<lparr>usb_log := [Bulk_Write 2 (2 # [58, 8, 119, 0, 0] @ replicate 58 165) 64 5000],
                usb_write_fails := True\<rparr>))
           \<lparr>commands_in_queue := 1,
            queue :=
              [\<lparr>cmd_id = CMD_SCAN_OUT,
                payload_out = Some ([58, 8, 119, 0, 0] @ replicate 58 165),
                payload_out_size = 63, payload_in_start = None, payload_in = None,
                payload_in_size = 0, needs_postprocessing = False,
                free_payload_in_start = False,
                cmd_origin = Some (JTAG_SCAN sample_scan_out)\<rparr>],
            tap_state_cur := TAP_DRSHIFT\<rparr>)"
    apply (simp add: ulink_queue_scan_def Let_def DIV_ROUND_UP_u32_def
        scan_transitions_def ulink_set_end_state_def
        sample_env_def sample_scan_out_def sample_driver_def sample_world0_def sample_stable_def)
    apply (subst scan_loop.simps)
    apply (simp add: Let_def ulink_append_scan_cmd_def calloc_value_def ulink_allocate_payload_def
        DIV_ROUND_UP_int_def c_div_def c_mod_def zeroed_cmd_def fill_scan_cmd_def
        set_payload_out_def copy_payload_out_def header_update_Suc ulink_append_queue_def
        ulink_get_queue_size_def link_cmd_def advance_def)
    apply (subst scan_loop.simps)
    apply (simp add: Let_def ulink_append_scan_cmd_def calloc_value_def ulink_allocate_payload_def
        DIV_ROUND_UP_int_def c_div_def c_mod_def zeroed_cmd_def fill_scan_cmd_def
        set_payload_out_def copy_payload_out_def header_update_Suc ulink_append_queue_def
        ulink_get_queue_size_def link_cmd_def advance_def
        ulink_execute_queued_commands_def out_bytes_def sample_id_byte_def
        USB_TIMEOUT_def USB_ENDPOINT_OUT_def)
    done
  show ?thesis
    unfolding a b by (simp add: sample_scan_out_def sample_driver_def)
qed

theorem scan_split_count_witness:
  "1 \<le> scan_size sample_scan_out \<and> scan_size sample_scan_out < 2 ^ 31
   \<and> length (tdi_bytes sample_scan_out) = nat ((scan_size sample_scan_out + 7) div 8)
   \<and> (\<exists>L d2. scan_prologue sample_env sample_scan_out (sample_driver sample_world0) = Some (L, d2)
        \<and> length (scan_calls L (scan_size_bytes L)
                    (case tdi_buffer_start L of None \<Rightarrow> [] | Some b \<Rightarrow> b)
                    (tdo_buffer_start L)) = 2
        \<and> (\<exists>h2 h3 h4.
              payload_out (scan_cmd L
                 (scan_calls L (scan_size_bytes L)
                    (case tdi_buffer_start L of None \<Rightarrow> [] | Some b \<Rightarrow> b)
                    (tdo_buffer_start L) ! 0))
                = Some ([58, 8, h2, h3, h4] @ replicate 58 165)))"
proof -
  have h1: "1 \<le> scan_size sample_scan_out" and h2: "scan_size sample_scan_out < 2 ^ 31"
    and h3: "length (tdi_bytes sample_scan_out) = nat ((scan_size sample_scan_out + 7) div 8)"
    by (simp_all add: sample_scan_out_def)
  have run: "ulink_queue_scan sample_env sample_scan_out (sample_driver sample_world0)
      = Return (ERROR_OK,
          (sample_driver
             (sample_world0\<lparr>usb_log :=
                [Bulk_Write 2 (2 # [58, 8, 119, 0, 0] @ replicate 58 165) 64 5000]\<rparr>))
            \<lparr>commands_in_queue := 1,
             queue :=
               [\<lparr>cmd_id = CMD_SCAN_OUT, payload_out = Some [1, 8, 119, 0, 0, 165],
                 payload_out_size = 6, payload_in_start = None, payload_in = None,
                 payload_in_size = 0, needs_postprocessing = True,
                 free_payload_in_start = True,
                 cmd_origin = Some (JTAG_SCAN sample_scan_out)\<rparr>]\<rparr>)"
    apply (simp add: ulink_queue_scan_def Let_def DIV_ROUND_UP_u32_def
        scan_transitions_def ulink_set_end_state_def
        sample_env_def sample_scan_out_def sample_driver_def sample_world0_def sample_stable_def)
    apply (subst scan_loop.simps)
    apply (simp add: Let_def ulink_append_scan_cmd_def calloc_value_def ulink_allocate_payload_def
        DIV_ROUND_UP_int_def c_div_def c_mod_def zeroed_cmd_def fill_scan_cmd_def
        set_payload_out_def copy_payload_out_def header_update_Suc ulink_append_queue_def
        ulink_get_queue_size_def link_cmd_def advance_def)
    apply (subst scan_loop.simps)
    apply (simp add: Let_def ulink_append_scan_cmd_def calloc_value_def ulink_allocate_payload_def
        DIV_ROUND_UP_int_def c_div_def c_mod_def zeroed_cmd_def fill_scan_cmd_def
        set_payload_out_def copy_payload_out_def header_update_Suc ulink_append_queue_def
        ulink_get_queue_size_def link_cmd_def advance_def
        ulink_execute_queued_commands_def out_bytes_def sample_id_byte_def
        USB_TIMEOUT_def USB_ENDPOINT_OUT_def ulink_post_process_queue_def ulink_clear_queue_def)
    done
  from scan_split_count [OF h1 h2 h3 run] obtain L d2 calls where
    pro: "scan_prologue sample_env sample_scan_out (sample_driver sample_world0) = Some (L, d2)"
    and calls: "calls = scan_calls L (scan_size_bytes L)
        (case tdi_buffer_start L of None \<Rightarrow> [] | Some b \<Rightarrow> b) (tdo_buffer_start L)"
    and count: "int (length calls)
        = ((scan_size sample_scan_out + 7) div 8 + 57) div 58"
    and first: "\<forall>i. Suc i < length calls \<longrightarrow>
        (\<exists>h2 h3 h4. payload_out (scan_cmd L (calls ! i))
           = Some ([58, 8, h2, h3, h4]
                   @ (if scan_kind sample_scan_out = SCAN_IN then []
                      else take 58 (drop (58 * i) (tdi_bytes sample_scan_out)))))"
    by blast
  from count have two: "length calls = 2"
    by (simp add: sample_scan_out_def)
  with first have "\<exists>h2 h3 h4. payload_out (scan_cmd L (calls ! 0))
      = Some ([58, 8, h2, h3, h4] @ replicate 58 165)"
    by (simp add: sample_scan_out_def)
  with pro two h1 h2 h3 show ?thesis
    unfolding calls by blast
qed

section \<open>The bit count of the last byte\<close>

text \<open>
  C2 at a scan of 460 bits of type IN.  The scan has 58 bytes, so the loop takes the
  branch "full scan, no further scans" and passes \<open>58 * 8\<close> bits to
  \<open>ulink_append_scan_cmd\<close>: header byte 1 of the only, final command is 8.  The claim and
  the number of bits of the request ask for \<open>((460 - 1) mod 8) + 1 = 4\<close>.
\<close>

theorem scan_460_bits_last_byte:
  "ulink_queue_scan sample_env sample_scan_460 (sample_driver sample_world0)
     = Return (ERROR_OK,
         (sample_driver sample_world0)
           \<lparr>commands_in_queue := 1,
            queue :=
              [\<lparr>cmd_id = CMD_SCAN_IN, payload_out = Some [58, 8, 119, 0, 0], payload_out_size = 5,
                payload_in_start = Some (0, 0), payload_in = Some (0, 0), payload_in_size = 58,
                needs_postprocessing = True, free_payload_in_start = True,
                cmd_origin = Some (JTAG_SCAN sample_scan_460)\<rparr>],
            heap := (\<lambda>b. None)(0 \<mapsto> replicate 58 0), heap_next := 1\<rparr>)
   \<and> ((scan_size sample_scan_460 - 1) mod 8) + 1 = 4"
  apply (simp add: ulink_queue_scan_def Let_def DIV_ROUND_UP_u32_def calloc_block_def
      scan_transitions_def ulink_set_end_state_def
      sample_env_def sample_scan_460_def sample_driver_def sample_world0_def sample_stable_def)
  apply (subst scan_loop.simps)
  apply (simp add: Let_def ulink_append_scan_cmd_def calloc_value_def ulink_allocate_payload_def
      DIV_ROUND_UP_int_def c_div_def c_mod_def zeroed_cmd_def fill_scan_cmd_def
      set_payload_out_def header_update_Suc ulink_append_queue_def ulink_get_queue_size_def
      link_cmd_def advance_def)
  done


text \<open>
  The general picture behind the instance above.  Header byte 1 of a scan command is the
  bit count of its call modulo 8, with 8 for 0.
\<close>

lemma scan_cmd_bits_last_byte:
  assumes "1 \<le> call_bits c" and "call_bits c \<le> 464"
  shows "map_option (\<lambda>p. p ! 1) (payload_out (scan_cmd L c))
           = Some (if call_bits c mod 8 = 0 then 8 else word_of_int (call_bits c mod 8))"
proof -
  let ?bytes = "DIV_ROUND_UP_int (call_bits c) 8"
  let ?raw = "word_of_int (call_bits c mod 8) :: uint8_t"
  let ?bits = "if ?raw = 0 then 8 else ?raw"
  have bytes: "0 \<le> ?bytes"
    using assms by (simp add: DIV_ROUND_UP_int_def c_div_def pos_imp_zdiv_nonneg_iff)
  have cm: "c_mod (call_bits c) 8 = call_bits c mod 8"
    using assms by (simp add: c_mod_def c_div_def minus_mult_div_eq_mod)
  have small: "0 \<le> call_bits c mod 8" "call_bits c mod 8 < 8"
    by simp_all
  from small have "call_bits c mod 8 < 2 ^ 8"
    by simp
  with small have "take_bit 8 (call_bits c mod 8) = call_bits c mod 8"
    by (intro take_bit_int_eq_self) simp_all
  then have u0: "uint ?raw = call_bits c mod 8"
    by (simp add: uint_word_of_int_eq)
  have "(?raw = 0) = (uint ?raw = 0)"
    by (simp add: uint_0_iff)
  then have zero: "(?raw = 0) = (call_bits c mod 8 = 0)"
    by (simp only: u0)
  have mask: "?bits AND 255 = ?bits"
  proof -
    have "(255 :: uint8_t) = - 1"
      by simp
    then show ?thesis
      by (simp only: word_bw_comms word_log_esimps and.right_neutral bit.conj_one_right)
  qed
  define n where "n = nat (if scan_ty L = SCAN_IN then 5 else ?bytes + 5)"
  have n: "5 \<le> n"
    using bytes unfolding n_def by (auto simp: le_nat_iff)
  define hdr where "hdr = (replicate n (0 :: uint8_t))
      [0 := word_of_int (?bytes AND 255), Suc 0 := ?bits AND 255,
       2 := push_bit 4 (call_tms_count_start c AND 15) OR (call_tms_count_end c AND 15),
       3 := call_tms_sequence_start c, 4 := call_tms_sequence_end c]"
  have hdr1: "hdr ! 1 = ?bits" and hlen: "length hdr = n"
    using n mask by (simp_all add: hdr_def)
  have copy: "(take 5 hdr @ bytes @ drop (5 + length bytes) hdr) ! 1 = hdr ! 1" for bytes
    using n hlen by (simp add: nth_append)
  define chunk where "chunk = take (nat ?bytes) (call_tdi c)"
  have "payload_out (scan_cmd L c)
      = (if (scan_ty L = SCAN_OUT \<or> scan_ty L = SCAN_IO) \<and> 5 + length chunk \<le> length hdr
         then Some (take 5 hdr @ chunk @ drop (5 + length chunk) hdr)
         else Some hdr)"
    by (simp add: scan_cmd_def fill_scan_cmd_def Let_def zeroed_cmd_def copy_payload_out_def
        hdr_def n_def chunk_def cm)
  then have "map_option (\<lambda>p. p ! 1) (payload_out (scan_cmd L c)) = Some ?bits"
    using hdr1 copy [of chunk] by simp
  then show ?thesis
    by (simp only: zero)
qed

text \<open>
  The bits that are left for a last call of fewer than 58 bytes: \<open>bits_last_scan\<close> is
  computed in 32 bits without wrap-around and is \<open>N\<close> minus the bits of the full calls.
\<close>

lemma bits_last_scan_value:
  assumes size: "1 \<le> n" "n < 2 ^ 31"
    and rest: "nat ((n + 7) div 8) mod 58 \<noteq> 0"
  shows "sint ((word_of_int n :: uint32_t)
            - DIV_ROUND_UP_u32 (word_of_int n) 8 div 58 * 58 * 8)
           = n - 464 * ((n + 7) div 8 div 58)"
    and "1 \<le> n - 464 * ((n + 7) div 8 div 58)"
    and "n - 464 * ((n + 7) div 8 div 58) \<le> 456"
proof -
  let ?w = "word_of_int n :: uint32_t"
  let ?W = "DIV_ROUND_UP_u32 ?w 8"
  let ?B = "(n + 7) div 8"
  let ?q = "?B div 58"
  have B0: "0 \<le> ?B"
    using size by simp
  have W: "unat ?W = nat ?B"
    using size by (simp add: scan_size_bytes_unat)
  have q0: "0 \<le> ?q"
    using B0 by (simp add: pos_imp_zdiv_nonneg_iff)
  have r: "1 \<le> ?B mod 58" "?B mod 58 \<le> 57"
  proof -
    have "nat (?B mod 58) = nat ?B mod 58"
      using B0 by (simp add: nat_mod_distrib)
    with rest have "?B mod 58 \<noteq> 0"
      by auto
    moreover have "0 \<le> ?B mod 58" "?B mod 58 < 58"
      by simp_all
    ultimately show "1 \<le> ?B mod 58" "?B mod 58 \<le> 57"
      by linarith+
  qed
  have Bq: "?B = 58 * ?q + ?B mod 58"
    by simp
  have nB: "8 * ?B - 7 \<le> n" "n \<le> 8 * ?B"
    by presburger+
  from nB Bq r show low: "1 \<le> n - 464 * ?q" and high: "n - 464 * ?q \<le> 456"
    by linarith+
  have qu: "unat (?W div 58) = nat ?q"
    using B0 by (simp add: unat_div W nat_div_distrib)
  have "?q \<le> n"
    using low q0 by linarith
  then have qsmall: "464 * nat ?q < 2 ^ 32"
    using size low q0 by simp
  have "unat (464 * (?W div 58)) = unat (464 :: uint32_t) * unat (?W div 58)"
    using qsmall qu by (intro unat_mult_lem [THEN iffD1]) simp
  then have X: "unat (?W div 58 * 58 * 8) = 464 * nat ?q"
    using qu by simp
  have wn: "unat ?w = nat n"
    using size by (simp add: unat_eq_nat_uint uint_word_of_int take_bit_int_eq_self)
  have le: "?W div 58 * 58 * 8 \<le> ?w"
    using low q0 size by (simp only: word_le_nat_alt X wn; linarith)
  then have "unat (?w - ?W div 58 * 58 * 8) = nat n - 464 * nat ?q"
    by (simp only: unat_sub X wn)
  also have "\<dots> = nat (n - 464 * ?q)"
    using low q0 size by (simp add: nat_diff_distrib nat_mult_distrib)
  finally have u: "unat (?w - ?W div 58 * 58 * 8) = nat (n - 464 * ?q)" .
  have "uint (?w - ?W div 58 * 58 * 8) = int (unat (?w - ?W div 58 * 58 * 8))"
    by (rule uint_nat)
  also have "\<dots> = n - 464 * ?q"
    using low by (simp only: u)
  finally have "uint (?w - ?W div 58 * 58 * 8) = n - 464 * ?q" .
  moreover have "n - 464 * ?q < 2 ^ 31"
    using high by simp
  ultimately have "signed_take_bit (LENGTH(32) - Suc 0) (uint (?w - ?W div 58 * 58 * 8))
      = n - 464 * ?q"
    using low by (simp add: signed_take_bit_int_eq_self)
  then show "sint (?w - ?W div 58 * 58 * 8) = n - 464 * ?q"
    by (simp only: sint_uint)
qed

lemma scan_cmd_flags:
  "needs_postprocessing (scan_cmd L c) = call_postprocess c"
  "free_payload_in_start (scan_cmd L c) = call_postprocess c"
  by (simp_all add: scan_cmd_def fill_scan_cmd_def Let_def)

lemma last_byte_bits_int:
  "(n - 1) mod 8 + 1 = (if n mod 8 = 0 then 8 else n mod 8)" for n :: int
  by presburger

text \<open>
  For every scan of \<open>N \<ge> 1\<close> bits, the last call is marked for post-processing and owns
  the IN buffer, and the calls before it are full and have neither flag.  Header byte 1
  of the last command is \<open>((N - 1) mod 8) + 1\<close> when the number of bytes is not a
  multiple of 58; when it is, the byte is 8 whatever \<open>N\<close> is.
\<close>

lemma scan_final_chunk:
  assumes size: "1 \<le> scan_size scan" "scan_size scan < 2 ^ 31"
    and pro: "scan_prologue env scan device = Some (L, d2)"
    and calls: "calls = scan_calls L (scan_size_bytes L) tdi_buffer tdo_buffer"
  shows "calls \<noteq> []"
    and "needs_postprocessing (scan_cmd L (last calls))"
    and "free_payload_in_start (scan_cmd L (last calls))"
    and "map_option (\<lambda>p. p ! 1) (payload_out (scan_cmd L (last calls)))
           = Some (if nat ((scan_size scan + 7) div 8) mod 58 = 0 then 8
                   else word_of_int ((scan_size scan - 1) mod 8 + 1))"
    and "\<forall>i. Suc i < length calls \<longrightarrow>
           \<not> needs_postprocessing (scan_cmd L (calls ! i))
           \<and> \<not> free_payload_in_start (scan_cmd L (calls ! i))
           \<and> map_option (\<lambda>p. p ! 1) (payload_out (scan_cmd L (calls ! i))) = Some 8"
proof -
  let ?N = "scan_size scan"
  let ?B = "nat ((?N + 7) div 8)"
  note loc = scan_prologue_locals [OF pro]
  have bytes: "unat (scan_size_bytes L) = ?B"
    using size by (simp add: loc(2) scan_size_bytes_unat)
  have "1 \<le> ?B"
    using size by simp
  with bytes have pos: "0 < scan_size_bytes L"
    by (simp add: bytecount_pos)
  note lc = scan_calls_last_call [OF pos, of L tdi_buffer tdo_buffer, folded calls]
  from lc show "calls \<noteq> []"
    by simp
  from lc show "needs_postprocessing (scan_cmd L (last calls))"
    and "free_payload_in_start (scan_cmd L (last calls))"
    by (simp_all add: scan_cmd_flags)
  show "map_option (\<lambda>p. p ! 1) (payload_out (scan_cmd L (last calls)))
      = Some (if ?B mod 58 = 0 then 8 else word_of_int ((?N - 1) mod 8 + 1))"
  proof (cases "?B mod 58 = 0")
    case True
    with lc bytes have "call_bits (last calls) = 464"
      by simp
    with scan_cmd_bits_last_byte [of "last calls" L] True show ?thesis
      by simp
  next
    case False
    note v = bits_last_scan_value [OF size False]
    from lc bytes False have "call_bits (last calls) = sint (bits_last_scan L)"
      by simp
    with v(1) have bits: "call_bits (last calls) = ?N - 464 * ((?N + 7) div 8 div 58)"
      by (simp add: loc(3))
    have "(a - 464 * q) mod 8 = a mod 8" for a q :: int
    proof -
      have "a - 464 * q = a + (- 58 * q) * 8"
        by simp
      then show ?thesis
        by (simp only: mod_mult_self1)
    qed
    with bits have m: "call_bits (last calls) mod 8 = ?N mod 8"
      by (simp only:)
    from v(2,3) bits have "1 \<le> call_bits (last calls)" "call_bits (last calls) \<le> 464"
      by simp_all
    from scan_cmd_bits_last_byte [OF this, of L] False show ?thesis
      by (simp only: m last_byte_bits_int if_False) simp
  qed
  show "\<forall>i. Suc i < length calls \<longrightarrow>
      \<not> needs_postprocessing (scan_cmd L (calls ! i))
      \<and> \<not> free_payload_in_start (scan_cmd L (calls ! i))
      \<and> map_option (\<lambda>p. p ! 1) (payload_out (scan_cmd L (calls ! i))) = Some 8"
  proof (intro allI impI)
    fix i
    assume "Suc i < length calls"
    then have nl: "call_bits (calls ! i) = 464" "\<not> call_postprocess (calls ! i)"
      unfolding calls by (simp_all add: scan_calls_not_last)
    with scan_cmd_bits_last_byte [of "calls ! i" L]
    show "\<not> needs_postprocessing (scan_cmd L (calls ! i))
      \<and> \<not> free_payload_in_start (scan_cmd L (calls ! i))
      \<and> map_option (\<lambda>p. p ! 1) (payload_out (scan_cmd L (calls ! i))) = Some 8"
      by (simp add: scan_cmd_flags)
  qed
qed


section \<open>An error that \<open>ulink_queue_runtest\<close> drops\<close>

text \<open>
  \<open>ulink_queue_runtest\<close> does not look at the result of \<open>ulink_queue_statemove\<close>.  Here
  the clock-tck command still fits into the queue, the move to Pause-DR after it needs a
  flush, and the flush fails: the state move returns \<open>ERROR_FAIL\<close> and leaves the
  follower in Idle, yet the translator returns \<open>ERROR_OK\<close>.
\<close>

lemma runtest_drops_statemove_error:
  "ulink_queue_statemove sample_env
       (sample_61_failing
          \<lparr>commands_in_queue := 2, queue := queue sample_61_failing @ [sample_tck_cmd],
           tap_state_end := TAP_DRPAUSE\<rparr>)
     = (ERROR_FAIL,
        sample_61_failing
          \<lparr>commands_in_queue := 2, queue := queue sample_61_failing @ [sample_tck_cmd],
           tap_state_end := TAP_DRPAUSE,
           world := sample_world0
             \<lparr>usb_log := [Bulk_Write 2 (2 # replicate 60 0 @ [8, 100, 0]) 64 5000],
              usb_write_fails := True\<rparr>\<rparr>)
   \<and> ulink_queue_runtest sample_env 100 TAP_DRPAUSE sample_61_failing
     = Return (ERROR_OK,
        sample_61_failing
          \<lparr>commands_in_queue := 2, queue := queue sample_61_failing @ [sample_tck_cmd],
           tap_state_end := TAP_DRPAUSE,
           world := sample_world0
             \<lparr>usb_log := [Bulk_Write 2 (2 # replicate 60 0 @ [8, 100, 0]) 64 5000],
              usb_write_fails := True\<rparr>\<rparr>)
   \<and> tap_state_cur sample_61_failing = TAP_IDLE"
proof -
  have move: "ulink_queue_statemove sample_env
       (sample_61_failing
          \<lparr>commands_in_queue := 2, queue := queue sample_61_failing @ [sample_tck_cmd],
           tap_state_end := TAP_DRPAUSE\<rparr>)
     = (ERROR_FAIL,
        sample_61_failing
          \<lparr>commands_in_queue := 2, queue := queue sample_61_failing @ [sample_tck_cmd],
           tap_state_end := TAP_DRPAUSE,
           world := sample_world0
             \<lparr>usb_log := [Bulk_Write 2 (2 # replicate 60 0 @ [8, 100, 0]) 64 5000],
              usb_write_fails := True\<rparr>\<rparr>)"
    by (simp add: ulink_queue_statemove_def ulink_append_clock_tms_cmd_def calloc_value_def
        ulink_allocate_payload_def ulink_append_queue_def ulink_get_queue_size_def
        ulink_execute_queued_commands_def out_bytes_def sample_id_byte_def
        USB_TIMEOUT_def USB_ENDPOINT_OUT_def Let_def
        sample_61_failing_def sample_tck_cmd_def sample_env_def sample_driver_def
        sample_world0_def zeroed_cmd_def)
  have tck: "ulink_append_clock_tck_cmd sample_env 100 sample_61_failing
      = (ERROR_OK,
         sample_61_failing
           \<lparr>commands_in_queue := 2, queue := queue sample_61_failing @ [sample_tck_cmd]\<rparr>)"
    by (simp add: ulink_append_clock_tck_cmd_def calloc_value_def
        ulink_allocate_payload_def ulink_append_queue_def ulink_get_queue_size_def
        set_payload_out_def link_cmd_def replicate_two Let_def
        sample_61_failing_def sample_tck_cmd_def sample_env_def sample_driver_def
        sample_world0_def zeroed_cmd_def)
  have idle: "tap_state_cur sample_61_failing = TAP_IDLE"
    by (simp add: sample_61_failing_def sample_driver_def)
  have "ulink_queue_runtest sample_env 100 TAP_DRPAUSE sample_61_failing
      = Return (ERROR_OK,
          snd (ulink_queue_statemove sample_env
            (sample_61_failing
               \<lparr>commands_in_queue := 2, queue := queue sample_61_failing @ [sample_tck_cmd],
                tap_state_end := TAP_DRPAUSE\<rparr>)))"
    by (simp add: ulink_queue_runtest_def idle tck)
  with move idle show ?thesis
    by simp
qed

end
